(* ===== verification/C_Base.thy ===== *)
theory C_Base
  imports Main "HOL-Library.Word"
begin

text \<open>
  Shared base of the development: the widths of the C integers the client node
  uses, the ways a call of a C function can go (it returns, it calls
  \<^verbatim>\<open>exit(1)\<close> after printing a message, it runs into undefined
  behaviour, or it never returns), the composition of such outcomes, and the facts on lists, bytes
  and NUL-terminated strings that all components use.
\<close>

unbundle bit_operations_syntax

section \<open>Automation\<close>

named_theorems outcome_simps \<open>computation rules of outcomes\<close>
named_theorems byte_simps \<open>reading bytes and words as natural numbers\<close>
named_theorems cstr_simps \<open>NUL-terminated strings held in byte lists\<close>

section \<open>Machine integers\<close>

type_synonym byte = "8 word"
type_synonym u32 = "32 word"
type_synonym u64 = "64 word"

text \<open>
  A \<^verbatim>\<open>size_t\<close> is a \<open>nat\<close>; where an operation of the source could
  leave the 64-bit range the reduction modulo \<open>SIZE_MOD\<close> is written out.
\<close>

abbreviation SIZE_MOD :: nat where
  "SIZE_MOD \<equiv> 2 ^ 64"

lemma unat_byte_less [simp]: "unat (x :: byte) < 256"
  using unsigned_less [of x, where ?'a = nat] by simp

lemma unat_u32_less [simp]: "unat (x :: u32) < 4294967296"
  using unsigned_less [of x, where ?'a = nat] by simp

lemma unat_u64_less [simp]: "unat (x :: u64) < 18446744073709551616"
  using unsigned_less [of x, where ?'a = nat] by simp

lemma unat_of_nat_byte [byte_simps]: "n < 256 \<Longrightarrow> unat (of_nat n :: byte) = n"
  by (simp add: unat_of_nat)

lemma unat_of_nat_u32 [byte_simps]: "n < 4294967296 \<Longrightarrow> unat (of_nat n :: u32) = n"
  by (simp add: unat_of_nat)

lemma sint_of_nat_u32: "n < 2147483648 \<Longrightarrow> sint (of_nat n :: u32) = int n"
  by (simp add: signed_of_nat signed_take_bit_int_eq_self)

lemma sint_cases:
  fixes w :: "'a::len word"
  shows "sint w = (if uint w < 2 ^ (LENGTH('a) - 1) then uint w else uint w - 2 ^ LENGTH('a))"
proof -
  have "sint w = (uint w + 2 ^ (LENGTH('a) - 1)) mod 2 ^ LENGTH('a) - 2 ^ (LENGTH('a) - 1)"
    by (simp add: sint_uint signed_take_bit_eq_take_bit_shift take_bit_eq_mod)
  moreover have "(2 :: int) ^ LENGTH('a) = 2 * 2 ^ (LENGTH('a) - 1)"
    by (metis len_gt_0 power_Suc Suc_diff_1)
  moreover have "0 \<le> uint w" "uint w < 2 ^ LENGTH('a)" by (simp_all add: uint_lt2p)
  moreover have "(u + h) mod (2 * h) = (if u < h then u + h else u - h)" if "0 \<le> u" "u < 2 * h" for u h :: int
    using that minus_mod_self2 [of "u + h" "2 * h"] by (auto simp: mod_pos_pos_trivial)
  ultimately show ?thesis by simp
qed

lemma sint_byte: "sint (c :: byte) = (if uint c < 128 then uint c else uint c - 256)"
  using sint_cases [of c] by simp

lemma map_unat_inject [simp]: "map unat xs = map unat ys \<longleftrightarrow> xs = (ys :: 'a::len word list)"
  using inj_map_eq_map [OF inj_unsigned] by blast

lemma set_map_unat_byte [simp]: "\<forall>d \<in> set (map unat (xs :: byte list)). d < 256"
  by simp

section \<open>Outcomes of C functions\<close>

text \<open>
  \<open>Fault\<close> records the first undefined behaviour: the use of a null pointer,
  an access outside an object, an access to or a release of storage that is not
  allocated, the use of an indeterminate value, and a conversion whose result does
  not fit its type. \<open>Exit m\<close> is a call of
  \<^verbatim>\<open>exit(1)\<close> after \<^verbatim>\<open>printf\<close> with the format \<open>m\<close>
  (its trailing newline left out). \<open>Diverges\<close> is a loop that never ends.
\<close>

datatype fault = Null_Pointer | Out_Of_Bounds | Not_Allocated | Invalid_Free | Indeterminate | Int_Overflow

datatype 'a outcome = Ret 'a | Exit string | Fault fault | Diverges

definition bind_o :: "'a outcome \<Rightarrow> ('a \<Rightarrow> 'b outcome) \<Rightarrow> 'b outcome" where
  "bind_o m f = (case m of Ret a \<Rightarrow> f a | Exit e \<Rightarrow> Exit e | Fault x \<Rightarrow> Fault x | Diverges \<Rightarrow> Diverges)"

definition returns :: "'a outcome \<Rightarrow> bool" where
  "returns m \<longleftrightarrow> (case m of Ret _ \<Rightarrow> True | _ \<Rightarrow> False)"

definition faults :: "'a outcome \<Rightarrow> bool" where
  "faults m \<longleftrightarrow> (case m of Fault _ \<Rightarrow> True | _ \<Rightarrow> False)"

lemma bind_o_simps [simp, outcome_simps]:
  "bind_o (Ret a) f = f a"
  "bind_o (Exit e) f = Exit e"
  "bind_o (Fault x) f = Fault x"
  "bind_o Diverges f = Diverges"
  by (simp_all add: bind_o_def)

lemma bind_o_Ret [simp]: "bind_o m Ret = m"
  by (cases m) simp_all

lemma bind_o_assoc [outcome_simps]: "bind_o (bind_o m f) g = bind_o m (\<lambda>a. bind_o (f a) g)"
  by (cases m) simp_all

lemma bind_o_cong [fundef_cong]:
  "m = m' \<Longrightarrow> (\<And>a. m' = Ret a \<Longrightarrow> f a = f' a) \<Longrightarrow> bind_o m f = bind_o m' f'"
  by (cases m') simp_all

lemma bind_o_eq_Ret: "bind_o m f = Ret b \<longleftrightarrow> (\<exists>a. m = Ret a \<and> f a = Ret b)"
  by (cases m) simp_all

lemma returns_simps [simp]: "returns (Ret a)" "\<not> returns (Exit e)" "\<not> returns (Fault x)" "\<not> returns Diverges"
  by (simp_all add: returns_def)

lemma returns_iff: "returns m \<longleftrightarrow> (\<exists>a. m = Ret a)"
  by (cases m) simp_all

lemma faults_simps [simp]: "\<not> faults (Ret a)" "\<not> faults (Exit e)" "faults (Fault x)" "\<not> faults Diverges"
  by (simp_all add: faults_def)

section \<open>Codecs\<close>

text \<open>
  The contract of an encoder and a decoder: on valid values decoding undoes
  encoding. The clients rely on what follows from it, that different values have
  different encodings and that the encodings of valid values decode.
\<close>

locale codec =
  fixes enc :: "'a \<Rightarrow> 'b" and dec :: "'b \<Rightarrow> 'a option" and valid :: "'a \<Rightarrow> bool"
  assumes dec_enc: "valid x \<Longrightarrow> dec (enc x) = Some x"
begin

lemma enc_inject: "valid x \<Longrightarrow> valid y \<Longrightarrow> enc x = enc y \<longleftrightarrow> x = y"
  using dec_enc by (metis option.inject)

lemma dec_image: "valid x \<Longrightarrow> dec (enc x) = dec e \<Longrightarrow> dec e = Some x"
  using dec_enc by metis

end

section \<open>Arrays of known contents\<close>

text \<open>A checked read of element \<open>i\<close>.\<close>

definition array_read :: "'a list \<Rightarrow> nat \<Rightarrow> 'a outcome" where
  "array_read xs i = (if i < length xs then Ret (xs ! i) else Fault Out_Of_Bounds)"

text \<open>Storing a run of elements from index \<open>i\<close> on.\<close>

definition splice :: "'a list \<Rightarrow> nat \<Rightarrow> 'a list \<Rightarrow> 'a list" where
  "splice xs i ys = take i xs @ ys @ drop (i + length ys) xs"

definition array_write :: "'a list \<Rightarrow> nat \<Rightarrow> 'a list \<Rightarrow> 'a list outcome" where
  "array_write xs i ys = (if i + length ys \<le> length xs then Ret (splice xs i ys) else Fault Out_Of_Bounds)"

lemma array_read_in [simp]: "i < length xs \<Longrightarrow> array_read xs i = Ret (xs ! i)"
  by (simp add: array_read_def)

lemma array_read_out [simp]: "length xs \<le> i \<Longrightarrow> array_read xs i = Fault Out_Of_Bounds"
  by (simp add: array_read_def)

lemma length_splice [simp]: "i + length ys \<le> length xs \<Longrightarrow> length (splice xs i ys) = length xs"
  by (simp add: splice_def)

lemma splice_0: "splice xs 0 ys = ys @ drop (length ys) xs"
  by (simp add: splice_def)

lemma array_write_in [simp]: "i + length ys \<le> length xs \<Longrightarrow> array_write xs i ys = Ret (splice xs i ys)"
  by (simp add: array_write_def)

section \<open>Lists\<close>

lemma takeWhile_replicate_append [simp]:
  "takeWhile P (replicate n x @ ys) = (if P x then replicate n x @ takeWhile P ys else if n = 0 then takeWhile P ys else [])"
  by (induction n) auto

lemma dropWhile_replicate_append [simp]:
  "P x \<Longrightarrow> dropWhile P (replicate n x @ ys) = dropWhile P ys"
  by (induction n) auto

lemma takeWhile_eq_replicate: "takeWhile (\<lambda>y. y = x) ys = replicate (length (takeWhile (\<lambda>y. y = x) ys)) x"
  by (induction ys) auto

lemma split_leading: "ys = replicate (length (takeWhile (\<lambda>y. y = x) ys)) x @ dropWhile (\<lambda>y. y = x) ys"
  by (metis takeWhile_dropWhile_id takeWhile_eq_replicate)

lemma take_Suc_snoc: "n < length xs \<Longrightarrow> take (Suc n) xs = take n xs @ [xs ! n]"
  by (simp add: take_Suc_conv_app_nth)

lemma drop_eq_ConsD: "drop j xs = y # ys \<Longrightarrow> xs ! j = y \<and> drop (Suc j) xs = ys"
  by (metis Cons_nth_drop_Suc drop_all leI list.distinct(1) list.inject)

lemma length_takeWhile_neq: "x \<in> set xs \<Longrightarrow> length (takeWhile (\<lambda>y. y \<noteq> x) xs) < length xs"
  by (induction xs) auto

section \<open>NUL-terminated strings\<close>

text \<open>
  \<open>c_str xs\<close> is the string a byte array holds: its bytes before the first
  NUL. \<open>terminated xs\<close> says that there is a NUL, so that
  \<^verbatim>\<open>strlen\<close> stays inside the array.
\<close>

definition c_str :: "byte list \<Rightarrow> byte list" where
  "c_str xs = takeWhile (\<lambda>b. b \<noteq> 0) xs"

definition terminated :: "byte list \<Rightarrow> bool" where
  "terminated xs \<longleftrightarrow> 0 \<in> set xs"

definition strlen_array :: "byte list \<Rightarrow> nat outcome" where
  "strlen_array xs = (if terminated xs then Ret (length (c_str xs)) else Fault Out_Of_Bounds)"

text \<open>
  The bytes \<^verbatim>\<open>strncpy(dst, src, n)\<close> stores: at most \<open>n\<close> bytes of
  the string, then NULs up to \<open>n\<close>.
\<close>

definition strncpy_bytes :: "byte list \<Rightarrow> nat \<Rightarrow> byte list" where
  "strncpy_bytes src n = (let s = take n (c_str src) in s @ replicate (n - length s) 0)"

text \<open>
  \<^verbatim>\<open>strncmp(a, b, n)\<close>: the difference of the first pair of bytes that
  differ, 0 when the strings end together or \<open>n\<close> pairs are equal.
\<close>

fun strncmp_bytes :: "byte list \<Rightarrow> byte list \<Rightarrow> nat \<Rightarrow> int outcome" where
  "strncmp_bytes as bs 0 = Ret 0"
| "strncmp_bytes as bs (Suc n) =
     (case (as, bs) of
        (a # as', b # bs') \<Rightarrow>
          if a \<noteq> b then Ret (uint a - uint b)
          else if a = 0 then Ret 0
          else strncmp_bytes as' bs' n
      | _ \<Rightarrow> Fault Out_Of_Bounds)"

definition bytes_of :: "string \<Rightarrow> byte list" where
  "bytes_of s = map of_char s"

lemma c_str_Nil [simp]: "c_str [] = []"
  by (simp add: c_str_def)

lemma c_str_Cons [simp]: "c_str (x # xs) = (if x = 0 then [] else x # c_str xs)"
  by (simp add: c_str_def)

lemma c_str_no_nul [cstr_simps]: "0 \<notin> set xs \<Longrightarrow> c_str xs = xs"
  by (induction xs) auto

lemma c_str_append_nul [cstr_simps]: "0 \<notin> set xs \<Longrightarrow> c_str (xs @ 0 # ys) = xs"
  by (induction xs) auto

lemma zero_notin_c_str [simp]: "0 \<notin> set (c_str xs)"
  by (induction xs) auto

lemma c_str_prefix: "xs = c_str xs @ drop (length (c_str xs)) xs"
  unfolding c_str_def by (metis append_take_drop_id takeWhile_eq_take)

lemma terminated_append_nul [cstr_simps]: "terminated (xs @ 0 # ys)"
  by (simp add: terminated_def)

lemma length_strncpy_bytes [simp]: "length (strncpy_bytes src n) = n"
  by (simp add: strncpy_bytes_def Let_def)

lemma length_c_str_le [simp]: "length (c_str xs) \<le> length xs"
  by (simp add: c_str_def length_takeWhile_le)

lemma strncpy_bytes_full:
  "strncpy_bytes src (length src) = c_str src @ replicate (length src - length (c_str src)) 0"
  by (simp add: strncpy_bytes_def Let_def)

lemma strncpy_bytes_exact [cstr_simps]:
  "0 \<notin> set src \<Longrightarrow> n = length src \<Longrightarrow> strncpy_bytes src n = src"
  by (simp add: strncpy_bytes_def c_str_no_nul)

lemma strncpy_bytes_nul_first [cstr_simps]: "strncpy_bytes (0 # xs) n = replicate n 0"
  by (simp add: strncpy_bytes_def)

text \<open>A copy by \<^verbatim>\<open>strncpy\<close> is exact only if nothing follows the first NUL but NULs.\<close>

lemma strncpy_bytes_eq_iff:
  assumes "n = length src"
  shows "strncpy_bytes src n = src \<longleftrightarrow> (\<exists>k. src = c_str src @ replicate k 0)"
proof -
  have le: "length (c_str src) \<le> n"
    using assms by (simp add: c_str_def length_takeWhile_le)
  then have eq: "strncpy_bytes src n = c_str src @ replicate (n - length (c_str src)) 0"
    by (simp add: strncpy_bytes_def Let_def)
  show ?thesis
  proof
    assume "strncpy_bytes src n = src"
    with eq show "\<exists>k. src = c_str src @ replicate k 0" by metis
  next
    assume "\<exists>k. src = c_str src @ replicate k 0"
    then obtain k where k: "src = c_str src @ replicate k 0" by blast
    then have "n = length (c_str src) + k"
      using assms by (metis length_append length_replicate)
    with eq k show "strncpy_bytes src n = src" by simp
  qed
qed

lemma strncmp_bytes_self [simp]:
  "n \<le> length xs \<Longrightarrow> strncmp_bytes xs xs n = Ret 0"
proof (induction xs arbitrary: n)
  case Nil
  then show ?case by simp
next
  case (Cons x xs)
  then show ?case by (cases n) simp_all
qed

lemma strncmp_bytes_returns:
  "n \<le> length xs \<Longrightarrow> n \<le> length ys \<Longrightarrow> \<exists>d. strncmp_bytes xs ys n = Ret d"
  by (induction xs ys n rule: strncmp_bytes.induct) (auto split: list.splits)

text \<open>Equality under \<^verbatim>\<open>strncmp\<close> is equality of the strings, not of the arrays.\<close>

lemma strncmp_bytes_zero_iff:
  "n \<le> length xs \<Longrightarrow> n \<le> length ys \<Longrightarrow>
   strncmp_bytes xs ys n = Ret 0 \<longleftrightarrow> c_str (take n xs) = c_str (take n ys)"
  by (induction xs ys n rule: strncmp_bytes.induct) (auto simp: word_uint_eq_iff split: list.splits)

lemma length_bytes_of [simp]: "length (bytes_of s) = length s"
  by (simp add: bytes_of_def)

end
