(* ===== verification/C_Memory.thy ===== *)
theory C_Memory
  imports C_Base
begin

text \<open>
  Byte storage of the C program. A pointer is NULL or a block with an offset. A
  block belongs to the allocator that made it (\<^verbatim>\<open>malloc\<close>, the OpenSSL
  allocator, or an object of automatic or static storage) and holds cells that are
  indeterminate until they are written. Every access checks the pointer, the bounds
  and, for reads, that the cells have a value; \<^verbatim>\<open>free\<close> checks that it gets the
  start of a live block of its own allocator. The allocator may refuse a request:
  \<open>denied\<close> says which requests, by their number, fail.

  The record is extended by the components that add objects of their own, so the
  operations are stated for any extension.
\<close>

section \<open>Pointers and blocks\<close>

datatype ptr = Null | Ptr nat nat

datatype allocator = Malloc | OpenSSL | Static

record mem =
  blocks :: "nat \<Rightarrow> (allocator \<times> byte option list) option"
  next_id :: nat
  denied :: "nat \<Rightarrow> bool"

type_synonym ('a, 's) prog = "'s \<Rightarrow> ('a \<times> 's) outcome"

section \<open>Composition\<close>

definition ret :: "'a \<Rightarrow> ('a, 's) prog" where
  "ret a m = Ret (a, m)"

definition bind :: "('a, 's) prog \<Rightarrow> ('a \<Rightarrow> ('b, 's) prog) \<Rightarrow> ('b, 's) prog" where
  "bind f g m = bind_o (f m) (\<lambda>(a, m'). g a m')"

definition exit1 :: "string \<Rightarrow> ('a, 's) prog" where
  "exit1 e m = Exit e"

definition fault :: "fault \<Rightarrow> ('a, 's) prog" where
  "fault x m = Fault x"

definition lift :: "'a outcome \<Rightarrow> ('a, 's) prog" where
  "lift r m = bind_o r (\<lambda>a. Ret (a, m))"

named_theorems prog_simps \<open>running programs on a state\<close>

lemma prog_run [prog_simps]:
  "ret a m = Ret (a, m)"
  "exit1 e m = Exit e"
  "fault x m = Fault x"
  "bind f g m = bind_o (f m) (\<lambda>(a, m'). g a m')"
  "lift (Ret a) m = Ret (a, m)"
  "lift (Exit e) m = Exit e"
  "lift (Fault x) m = Fault x"
  "lift Diverges m = Diverges"
  by (simp_all add: ret_def bind_def exit1_def fault_def lift_def)

lemma bind_ret [simp]: "bind (ret a) g = g a" and ret_bind [simp]: "bind f ret = f"
  by (auto simp: fun_eq_iff prog_simps bind_o_def ret_def split: outcome.splits)

lemma bind_assoc: "bind (bind f g) h = bind f (\<lambda>a. bind (g a) h)"
  by (auto simp: fun_eq_iff prog_simps bind_o_def split: outcome.splits)

section \<open>Bare storage\<close>

text \<open>The cells from a pointer to the end of its block.\<close>

definition cells_at :: "'z mem_scheme \<Rightarrow> ptr \<Rightarrow> byte option list outcome" where
  "cells_at m p =
     (case p of
        Null \<Rightarrow> Fault Null_Pointer
      | Ptr i k \<Rightarrow>
          (case blocks m i of
             None \<Rightarrow> Fault Not_Allocated
           | Some (_, cs) \<Rightarrow> if k \<le> length cs then Ret (drop k cs) else Fault Out_Of_Bounds))"

text \<open>Reading \<open>n\<close> determinate cells.\<close>

fun read_cells :: "nat \<Rightarrow> byte option list \<Rightarrow> byte list outcome" where
  "read_cells 0 cs = Ret []"
| "read_cells (Suc n) cs =
     (case cs of
        [] \<Rightarrow> Fault Out_Of_Bounds
      | c # cs' \<Rightarrow>
          (case c of
             None \<Rightarrow> Fault Indeterminate
           | Some b \<Rightarrow> bind_o (read_cells n cs') (\<lambda>bs. Ret (b # bs))))"

text \<open>Reading a string up to its NUL, which is not part of the result.\<close>

fun read_string :: "byte option list \<Rightarrow> byte list outcome" where
  "read_string [] = Fault Out_Of_Bounds"
| "read_string (c # cs) =
     (case c of
        None \<Rightarrow> Fault Indeterminate
      | Some b \<Rightarrow> if b = 0 then Ret [] else bind_o (read_string cs) (\<lambda>bs. Ret (b # bs)))"

text \<open>Reading at most \<open>n\<close> characters of a string, as \<^verbatim>\<open>strncpy\<close> does.\<close>

fun read_stringn :: "nat \<Rightarrow> byte option list \<Rightarrow> byte list outcome" where
  "read_stringn 0 cs = Ret []"
| "read_stringn (Suc n) cs =
     (case cs of
        [] \<Rightarrow> Fault Out_Of_Bounds
      | c # cs' \<Rightarrow>
          (case c of
             None \<Rightarrow> Fault Indeterminate
           | Some b \<Rightarrow> if b = 0 then Ret [] else bind_o (read_stringn n cs') (\<lambda>bs. Ret (b # bs))))"

lemma read_cells_Some [simp]: "read_cells n (map Some bs @ cs) =
    (if n \<le> length bs then Ret (take n bs) else bind_o (read_cells (n - length bs) cs) (\<lambda>r. Ret (bs @ r)))"
proof (induction n arbitrary: bs)
  case 0
  then show ?case by simp
next
  case (Suc n)
  then show ?case by (cases bs) (simp_all add: bind_o_assoc)
qed

lemma read_cells_map_Some [simp]: "n \<le> length bs \<Longrightarrow> read_cells n (map Some bs) = Ret (take n bs)"
  using read_cells_Some [of n bs "[]"] by simp

lemma read_cells_replicate [simp]: "n \<le> k \<Longrightarrow> read_cells n (replicate k (Some b)) = Ret (replicate n b)"
  using read_cells_map_Some [of n "replicate k b"] by simp

lemma read_string_Some [simp]: "0 \<notin> set s \<Longrightarrow> read_string (map Some s @ Some 0 # cs) = Ret s"
  by (induction s) simp_all

lemma read_stringn_string: "read_string cs = Ret s \<Longrightarrow> read_stringn n cs = Ret (take n s)"
proof (induction n arbitrary: cs s)
  case 0
  then show ?case by simp
next
  case (Suc n)
  then show ?case
    by (cases cs) (auto simp: bind_o_eq_Ret split: option.splits if_splits)
qed

lemma read_stringn_bytes: "read_stringn (length bs) (map Some bs) = Ret (c_str bs)"
  by (induction bs) simp_all

lemma read_string_no_nul: "read_string cs = Ret s \<Longrightarrow> 0 \<notin> set s"
  by (induction cs arbitrary: s) (auto simp: bind_o_eq_Ret split: option.splits if_splits)

section \<open>Operations\<close>

definition alloc :: "allocator \<Rightarrow> byte option list \<Rightarrow> (ptr, 'z mem_scheme) prog" where
  "alloc a cs m =
     (let i = next_id m; m1 = m\<lparr>next_id := Suc i\<rparr>
      in if denied m i then Ret (Null, m1)
         else Ret (Ptr i 0, m1\<lparr>blocks := (blocks m)(i \<mapsto> (a, cs))\<rparr>))"

definition malloc :: "nat \<Rightarrow> (ptr, 'z mem_scheme) prog" where
  "malloc n = alloc Malloc (replicate n None)"

definition OPENSSL_zalloc :: "nat \<Rightarrow> (ptr, 'z mem_scheme) prog" where
  "OPENSSL_zalloc n = alloc OpenSSL (replicate n (Some 0))"

definition release :: "allocator \<Rightarrow> ptr \<Rightarrow> (unit, 'z mem_scheme) prog" where
  "release a p m =
     (case p of
        Null \<Rightarrow> Ret ((), m)
      | Ptr i k \<Rightarrow>
          (case blocks m i of
             None \<Rightarrow> Fault Invalid_Free
           | Some (a', _) \<Rightarrow>
               if k = 0 \<and> a' = a then Ret ((), m\<lparr>blocks := (blocks m)(i := None)\<rparr>)
               else Fault Invalid_Free))"

definition free :: "ptr \<Rightarrow> (unit, 'z mem_scheme) prog" where
  "free = release Malloc"

definition OPENSSL_free :: "ptr \<Rightarrow> (unit, 'z mem_scheme) prog" where
  "OPENSSL_free = release OpenSSL"

definition load :: "ptr \<Rightarrow> nat \<Rightarrow> (byte list, 'z mem_scheme) prog" where
  "load p n m = lift (bind_o (cells_at m p) (read_cells n)) m"

definition store :: "ptr \<Rightarrow> byte list \<Rightarrow> (unit, 'z mem_scheme) prog" where
  "store p bs m =
     (case p of
        Null \<Rightarrow> Fault Null_Pointer
      | Ptr i k \<Rightarrow>
          (case blocks m i of
             None \<Rightarrow> Fault Not_Allocated
           | Some (a, cs) \<Rightarrow>
               if k + length bs \<le> length cs
               then Ret ((), m\<lparr>blocks := (blocks m)(i \<mapsto> (a, splice cs k (map Some bs)))\<rparr>)
               else Fault Out_Of_Bounds))"

definition load_string :: "ptr \<Rightarrow> (byte list, 'z mem_scheme) prog" where
  "load_string p m = lift (bind_o (cells_at m p) read_string) m"

definition strlen :: "ptr \<Rightarrow> (nat, 'z mem_scheme) prog" where
  "strlen p = bind (load_string p) (\<lambda>s. ret (length s))"

text \<open>\<^verbatim>\<open>strncpy\<close> from memory, and from an array whose contents are at hand.\<close>

definition strncpy_array :: "ptr \<Rightarrow> byte list \<Rightarrow> nat \<Rightarrow> (unit, 'z mem_scheme) prog" where
  "strncpy_array dst src n =
     bind (lift (read_stringn n (map Some src))) (\<lambda>s. store dst (s @ replicate (n - length s) 0))"

definition strncpy :: "ptr \<Rightarrow> ptr \<Rightarrow> nat \<Rightarrow> (unit, 'z mem_scheme) prog" where
  "strncpy dst src n =
     bind (\<lambda>m. lift (bind_o (cells_at m src) (read_stringn n)) m)
       (\<lambda>s. store dst (s @ replicate (n - length s) 0))"

text \<open>Pointer arithmetic inside a block.\<close>

fun ptr_add :: "ptr \<Rightarrow> nat \<Rightarrow> ptr" where
  "ptr_add Null n = Null"
| "ptr_add (Ptr i k) n = Ptr i (k + n)"

section \<open>Running the operations\<close>

text \<open>
  A state is well formed when every block has a number below the next one to be
  handed out, so that a new block never replaces an old one.
\<close>

definition wf_mem :: "'z mem_scheme \<Rightarrow> bool" where
  "wf_mem m \<longleftrightarrow> (\<forall>i. next_id m \<le> i \<longrightarrow> blocks m i = None)"

text \<open>\<open>holds m p a bs\<close>: the block of \<open>p\<close> was made by \<open>a\<close> and has exactly the contents \<open>bs\<close>.\<close>

definition holds :: "'z mem_scheme \<Rightarrow> ptr \<Rightarrow> allocator \<Rightarrow> byte list \<Rightarrow> bool" where
  "holds m p a bs \<longleftrightarrow> (\<exists>i. p = Ptr i 0 \<and> blocks m i = Some (a, map Some bs))"

text \<open>\<open>string_at m p s\<close>: reading the string at \<open>p\<close> gives \<open>s\<close>.\<close>

definition string_at :: "'z mem_scheme \<Rightarrow> ptr \<Rightarrow> byte list \<Rightarrow> bool" where
  "string_at m p s \<longleftrightarrow> load_string p m = Ret (s, m)"

definition bytes_at :: "'z mem_scheme \<Rightarrow> ptr \<Rightarrow> byte list \<Rightarrow> bool" where
  "bytes_at m p bs \<longleftrightarrow> load p (length bs) m = Ret (bs, m)"

lemma lift_eq_Ret: "lift r m = Ret (a, m') \<longleftrightarrow> r = Ret a \<and> m' = m"
  by (cases r) (auto simp: prog_simps)

lemma alloc_run [prog_simps]:
  "\<not> denied m (next_id m) \<Longrightarrow> alloc a cs m =
     Ret (Ptr (next_id m) 0, m\<lparr>next_id := Suc (next_id m), blocks := (blocks m)(next_id m \<mapsto> (a, cs))\<rparr>)"
  "denied m (next_id m) \<Longrightarrow> alloc a cs m = Ret (Null, m\<lparr>next_id := Suc (next_id m)\<rparr>)"
  by (simp_all add: alloc_def Let_def)

lemma release_run [prog_simps]:
  "release a Null m = Ret ((), m)"
  "blocks m i = Some (a, cs) \<Longrightarrow> release a (Ptr i 0) m = Ret ((), m\<lparr>blocks := (blocks m)(i := None)\<rparr>)"
  by (simp_all add: release_def)

lemma store_run [prog_simps]:
  "blocks m i = Some (a, cs) \<Longrightarrow> k + length bs \<le> length cs \<Longrightarrow>
   store (Ptr i k) bs m = Ret ((), m\<lparr>blocks := (blocks m)(i \<mapsto> (a, splice cs k (map Some bs)))\<rparr>)"
  by (simp add: store_def)

lemma load_run [prog_simps]:
  "blocks m i = Some (a, cs) \<Longrightarrow> k \<le> length cs \<Longrightarrow> load (Ptr i k) n m = lift (read_cells n (drop k cs)) m"
  by (simp add: load_def cells_at_def)

lemma load_string_run [prog_simps]:
  "blocks m i = Some (a, cs) \<Longrightarrow> k \<le> length cs \<Longrightarrow> load_string (Ptr i k) m = lift (read_string (drop k cs)) m"
  by (simp add: load_string_def cells_at_def)

text \<open>Reads and writes do not depend on, and do not change, other blocks.\<close>

lemma cells_at_cong: "blocks m' i = blocks m i \<Longrightarrow> cells_at m' (Ptr i k) = cells_at m (Ptr i k)"
  by (simp add: cells_at_def)

lemma cells_at_allocated: "cells_at m p = Ret cs \<Longrightarrow> \<exists>i k. p = Ptr i k \<and> blocks m i \<noteq> None"
  by (auto simp: cells_at_def split: ptr.splits option.splits if_splits)

lemma string_at_cells: "string_at m p s \<longleftrightarrow> (\<exists>cs. cells_at m p = Ret cs \<and> read_string cs = Ret s)"
  by (simp add: string_at_def load_string_def lift_eq_Ret bind_o_eq_Ret)

lemma bytes_at_cells: "bytes_at m p bs \<longleftrightarrow> (\<exists>cs. cells_at m p = Ret cs \<and> read_cells (length bs) cs = Ret bs)"
  by (simp add: bytes_at_def load_def lift_eq_Ret bind_o_eq_Ret)

definition same_old_blocks :: "'z mem_scheme \<Rightarrow> 'y mem_scheme \<Rightarrow> bool" where
  "same_old_blocks m m' \<longleftrightarrow> (\<forall>i. blocks m i \<noteq> None \<longrightarrow> blocks m' i = blocks m i)"

lemma same_old_blocks_refl [simp]: "same_old_blocks m m"
  by (simp add: same_old_blocks_def)

lemma same_old_blocks_trans: "same_old_blocks m m' \<Longrightarrow> same_old_blocks m' m'' \<Longrightarrow> same_old_blocks m m''"
  by (auto simp: same_old_blocks_def)

lemma cells_at_old: "same_old_blocks m m' \<Longrightarrow> cells_at m p = Ret cs \<Longrightarrow> cells_at m' p = Ret cs"
  by (frule cells_at_allocated) (auto simp: same_old_blocks_def cells_at_def)

lemma string_at_old: "same_old_blocks m m' \<Longrightarrow> string_at m p s \<Longrightarrow> string_at m' p s"
  by (auto simp: string_at_cells dest: cells_at_old)

lemma bytes_at_old: "same_old_blocks m m' \<Longrightarrow> bytes_at m p bs \<Longrightarrow> bytes_at m' p bs"
  by (auto simp: bytes_at_cells dest: cells_at_old)

lemma load_bytes_at [prog_simps]: "bytes_at m p bs \<Longrightarrow> n = length bs \<Longrightarrow> load p n m = Ret (bs, m)"
  by (simp add: bytes_at_def)

lemma load_string_at [prog_simps]: "string_at m p s \<Longrightarrow> load_string p m = Ret (s, m)"
  by (simp add: string_at_def)

lemma strlen_at [prog_simps]: "string_at m p s \<Longrightarrow> strlen p m = Ret (length s, m)"
  by (simp add: strlen_def prog_simps)

lemma string_at_not_null: "string_at m p s \<Longrightarrow> p \<noteq> Null"
  by (auto simp: string_at_cells cells_at_def)

lemma string_at_no_nul: "string_at m p s \<Longrightarrow> 0 \<notin> set s"
  by (auto simp: string_at_cells dest: read_string_no_nul)

lemma strncpy_string_at [prog_simps]:
  assumes "string_at m src s" and "n = length s"
  shows "strncpy dst src n m = store dst s m"
proof -
  obtain cs where cs: "cells_at m src = Ret cs" and "read_string cs = Ret s"
    using assms(1) by (auto simp: string_at_cells)
  then have "read_stringn n cs = Ret s" using read_stringn_string [of cs s n] assms(2) by simp
  with cs assms(2) show ?thesis by (simp add: strncpy_def prog_simps)
qed

lemma strncpy_array_run [prog_simps]:
  "n = length src \<Longrightarrow> strncpy_array dst src n m = store dst (strncpy_bytes src n) m"
  by (simp add: strncpy_array_def prog_simps read_stringn_bytes strncpy_bytes_full)

lemma strncpy_bytes_at [prog_simps]:
  assumes "bytes_at m src bs" and "n = length bs"
  shows "strncpy dst src n m = store dst (strncpy_bytes bs n) m"
proof -
  obtain cs where cs: "cells_at m src = Ret cs" and r: "read_cells (length bs) cs = Ret bs"
    using assms(1) by (auto simp: bytes_at_cells)
  have "read_cells (length bs) cs = Ret bs \<Longrightarrow> read_stringn (length bs) cs = Ret (c_str bs)"
    by (induction bs arbitrary: cs) (auto simp: bind_o_eq_Ret split: list.splits option.splits)
  with cs r assms(2) show ?thesis
    by (simp add: strncpy_def prog_simps strncpy_bytes_full)
qed

section \<open>New blocks\<close>

text \<open>The state with one more block, as a successful allocation leaves it.\<close>

definition with_block :: "allocator \<Rightarrow> byte option list \<Rightarrow> 'z mem_scheme \<Rightarrow> 'z mem_scheme" where
  "with_block a cs m = m\<lparr>next_id := Suc (next_id m), blocks := (blocks m)(next_id m \<mapsto> (a, cs))\<rparr>"

lemma with_block_blocks [simp]:
  "blocks (with_block a cs m) = (blocks m)(next_id m \<mapsto> (a, cs))"
  "next_id (with_block a cs m) = Suc (next_id m)"
  "denied (with_block a cs m) = denied m"
  by (simp_all add: with_block_def)

lemma same_old_with_block [simp]: "wf_mem m \<Longrightarrow> same_old_blocks m (with_block a cs m)"
  by (auto simp: same_old_blocks_def wf_mem_def)

lemma wf_with_block [simp]: "wf_mem m \<Longrightarrow> wf_mem (with_block a cs m)"
  by (auto simp: wf_mem_def)

lemma string_at_with_block:
  "0 \<notin> set s \<Longrightarrow> string_at (with_block a (map Some s @ Some 0 # rest) m) (Ptr (next_id m) 0) s"
  by (simp add: string_at_cells cells_at_def)

lemma holds_with_block: "holds (with_block a (map Some bs) m) (Ptr (next_id m) 0) a bs"
  by (simp add: holds_def)

lemma restore_blocks: "blocks m i = None \<Longrightarrow> m\<lparr>next_id := k, blocks := (blocks m)(i := None)\<rparr> = m\<lparr>next_id := k\<rparr>"
  by (simp add: fun_upd_idem)

lemma with_block_update [simp]:
  "with_block a cs m\<lparr>blocks := (blocks m)(next_id m \<mapsto> (a', cs'))\<rparr> = with_block a' cs' m"
  "wf_mem m \<Longrightarrow> with_block a cs m\<lparr>blocks := (blocks m)(next_id m := None)\<rparr> = m\<lparr>next_id := Suc (next_id m)\<rparr>"
  by (simp_all add: with_block_def restore_blocks wf_mem_def)

lemma bytes_at_block: "blocks m i = Some (a, map Some bs) \<Longrightarrow> bytes_at m (Ptr i 0) bs"
  by (simp add: bytes_at_cells cells_at_def)

lemma splice_full [simp]: "length xs = length cs \<Longrightarrow> splice cs 0 xs = xs"
  by (simp add: splice_def)

lemma new_block_steps:
  fixes m :: "'z mem_scheme"
  shows "\<not> denied m (next_id m) \<Longrightarrow>
      malloc n m = Ret (Ptr (next_id m) 0, with_block Malloc (replicate n None) m)"
    and "\<not> denied m (next_id m) \<Longrightarrow>
      OPENSSL_zalloc n m = Ret (Ptr (next_id m) 0, with_block OpenSSL (replicate n (Some 0)) m)"
    and "denied m (next_id m) \<Longrightarrow> malloc n m = Ret (Null, m\<lparr>next_id := Suc (next_id m)\<rparr>)"
    and "denied m (next_id m) \<Longrightarrow> OPENSSL_zalloc n m = Ret (Null, m\<lparr>next_id := Suc (next_id m)\<rparr>)"
    and "length bs = length cs \<Longrightarrow>
      store (Ptr (next_id m) 0) bs (with_block a cs m) = Ret ((), with_block a (map Some bs) m)"
    and "wf_mem m \<Longrightarrow> bytes_at m p d \<Longrightarrow>
      load p (length d) (with_block a cs m) = Ret (d, with_block a cs m)"
    and "wf_mem m \<Longrightarrow>
      release a (Ptr (next_id m) 0) (with_block a cs m) = Ret ((), m\<lparr>next_id := Suc (next_id m)\<rparr>)"
proof -
  show "load p (length d) (with_block a cs m) = Ret (d, with_block a cs m)"
    if "wf_mem m" and "bytes_at m p d"
    using that bytes_at_old [of m "with_block a cs m" p d] by (simp add: load_bytes_at)
qed (simp_all add: with_block_def malloc_def OPENSSL_zalloc_def prog_simps restore_blocks wf_mem_def)

section \<open>Destructors\<close>

text \<open>
  The contract of the functions that release what a struct owns: NULL is accepted,
  owned objects are dropped from the state and the struct is left empty, and an empty
  struct is left alone.
\<close>

locale destructor =
  fixes destroy :: "'o option \<Rightarrow> ('o option, 's) prog"
    and owns :: "'o \<Rightarrow> 's \<Rightarrow> bool"
    and dropped :: "'o \<Rightarrow> 's \<Rightarrow> 's"
    and emptied :: "'o \<Rightarrow> bool"
  assumes destroy_None: "destroy None m = Ret (None, m)"
    and destroy_owned: "owns x m \<Longrightarrow> \<exists>y. destroy (Some x) m = Ret (Some y, dropped x m) \<and> emptied y"
    and destroy_emptied: "emptied y \<Longrightarrow> destroy (Some y) m = Ret (Some y, m)"
begin

lemma destroy_run:
  assumes "owns x m"
  obtains y where "destroy (Some x) m = Ret (Some y, dropped x m)" and "emptied y"
  using destroy_owned [OF assms] by blast

lemma destroy_twice:
  assumes "owns x m"
  shows "bind (destroy (Some x)) destroy m = destroy (Some x) m"
  using destroy_owned [OF assms] by (auto simp: prog_simps destroy_emptied)

end

end
