(* ===== verification/OpenSSL_Env.thy ===== *)
theory OpenSSL_Env
  imports C_Memory
begin

text \<open>
  The OpenSSL library as the client node calls it. The library is not part of the
  repository, so its functions are the fields of the record \<open>openssl\<close>, a
  parameter of every definition that calls it; \<open>'k\<close> is the type of keys. A
  field gives what the call stores and returns, \<open>None\<close> where the call fails.
  What its manual pages promise, where a result relies on it, is stated by the
  predicates of this theory. The state \<open>node_state\<close> extends the byte storage
  by the library's own objects (keys and contexts, which the program holds by
  pointer) and by the files of the process.
\<close>

record 'k openssl =
  SHA256 :: "byte list \<Rightarrow> byte list option"
  EVP_PKEY_keygen :: "nat \<Rightarrow> 'k option"
  EVP_PKEY_get_raw_private_key :: "'k \<Rightarrow> nat option \<Rightarrow> (byte list \<times> nat) option"
  EVP_PKEY_get_raw_public_key :: "'k \<Rightarrow> nat option \<Rightarrow> (byte list \<times> nat) option"
  EVP_PKEY_new_raw_private_key :: "byte list option \<Rightarrow> 'k option"
  EVP_PKEY_new_raw_public_key :: "byte list option \<Rightarrow> 'k option"
  EVP_DigestSignInit :: "'k option \<Rightarrow> bool"
  EVP_DigestSign_size :: "'k \<Rightarrow> byte list \<Rightarrow> nat option"
  EVP_DigestSign :: "'k \<Rightarrow> byte list \<Rightarrow> nat \<Rightarrow> (byte list \<times> nat) option"
  EVP_DigestVerifyInit :: "'k \<Rightarrow> bool"
  EVP_DigestVerify :: "'k \<Rightarrow> byte list \<Rightarrow> byte list \<Rightarrow> int"
  PEM_write_PrivateKey :: "'k \<Rightarrow> byte list option"
  PEM_read_PrivateKey :: "byte list \<Rightarrow> 'k option"

text \<open>
  \<open>EVP_PKEY_keygen\<close> draws its key from the number of the object it creates, which
  stands for the randomness of the generator. The raw-key functions get the capacity
  of the buffer, \<open>None\<close> for a NULL buffer, and give the bytes stored and the new
  length; the functions that build a key from raw bytes get \<open>None\<close> for a NULL
  buffer. \<open>EVP_DigestSign_size\<close> is the call with a NULL signature buffer.
\<close>

record 'k node_state = mem +
  pkeys :: "nat \<Rightarrow> 'k option"
  md_ctxs :: "nat \<Rightarrow> 'k option option"
  pkey_ctxs :: "nat \<Rightarrow> unit option"
  files :: "string \<Rightarrow> byte list option"
  readonly :: "string \<Rightarrow> bool"

section \<open>What the library promises\<close>

text \<open>\<^verbatim>\<open>SHA256\<close> computes a digest of 32 bytes.\<close>

definition sha256_digests :: "'k openssl \<Rightarrow> bool" where
  "sha256_digests ossl \<longleftrightarrow> (\<forall>d. \<exists>h. SHA256 ossl d = Some h \<and> length h = 32)"

text \<open>
  The raw public key of \<open>k\<close> is the 32 bytes \<open>pub\<close>: a NULL buffer only gets the
  length, a buffer of at least 32 bytes gets the key.
\<close>

definition raw_public_is :: "'k openssl \<Rightarrow> 'k \<Rightarrow> byte list \<Rightarrow> bool" where
  "raw_public_is ossl k pub \<longleftrightarrow> length pub = 32 \<and>
     EVP_PKEY_get_raw_public_key ossl k None = Some ([], 32) \<and>
     (\<forall>n \<ge> 32. EVP_PKEY_get_raw_public_key ossl k (Some n) = Some (pub, 32))"

text \<open>
  Signing with \<open>k\<close>: the context initialises, the size call answers 64, and for a
  buffer of at least 64 bytes the signature \<open>sign d\<close> of 64 bytes is stored.
\<close>

definition signs_with :: "'k openssl \<Rightarrow> 'k \<Rightarrow> (byte list \<Rightarrow> byte list) \<Rightarrow> bool" where
  "signs_with ossl k sign \<longleftrightarrow> EVP_DigestSignInit ossl (Some k) \<and>
     (\<forall>d. length (sign d) = 64 \<and> EVP_DigestSign_size ossl k d = Some 64 \<and>
          (\<forall>n \<ge> 64. EVP_DigestSign ossl k d n = Some (sign d, 64)))"

text \<open>
  Verification with the key \<open>v\<close> accepts the signatures that \<open>sign\<close> makes of the
  same data.
\<close>

definition verifies_with :: "'k openssl \<Rightarrow> 'k \<Rightarrow> (byte list \<Rightarrow> byte list) \<Rightarrow> bool" where
  "verifies_with ossl v sign \<longleftrightarrow> EVP_DigestVerifyInit ossl v \<and> (\<forall>d. EVP_DigestVerify ossl v (sign d) d = 1)"

section \<open>Objects of the library\<close>

text \<open>The key behind a pointer: none for NULL, and a fault for a key that was freed.\<close>

definition pkey_at :: "ptr \<Rightarrow> ('k option, ('k, 'z) node_state_scheme) prog" where
  "pkey_at p m =
     (case p of
        Null \<Rightarrow> Ret (None, m)
      | Ptr i _ \<Rightarrow> (case pkeys m i of None \<Rightarrow> Fault Not_Allocated | Some k \<Rightarrow> Ret (Some k, m)))"

definition new_pkey :: "'k \<Rightarrow> (ptr, ('k, 'z) node_state_scheme) prog" where
  "new_pkey k m =
     (let i = next_id m; m1 = m\<lparr>next_id := Suc i\<rparr>
      in if denied m i then Ret (Null, m1)
         else Ret (Ptr i 0, m1\<lparr>pkeys := (pkeys m)(i \<mapsto> k)\<rparr>))"

definition EVP_PKEY_free :: "ptr \<Rightarrow> (unit, ('k, 'z) node_state_scheme) prog" where
  "EVP_PKEY_free p m =
     (case p of
        Null \<Rightarrow> Ret ((), m)
      | Ptr i _ \<Rightarrow>
          (case pkeys m i of
             None \<Rightarrow> Fault Invalid_Free
           | Some _ \<Rightarrow> Ret ((), m\<lparr>pkeys := (pkeys m)(i := None)\<rparr>)))"

definition EVP_MD_CTX_create :: "(ptr, ('k, 'z) node_state_scheme) prog" where
  "EVP_MD_CTX_create m =
     (let i = next_id m; m1 = m\<lparr>next_id := Suc i\<rparr>
      in if denied m i then Ret (Null, m1)
         else Ret (Ptr i 0, m1\<lparr>md_ctxs := (md_ctxs m)(i \<mapsto> None)\<rparr>))"

definition md_ctx_set :: "ptr \<Rightarrow> 'k \<Rightarrow> (unit, ('k, 'z) node_state_scheme) prog" where
  "md_ctx_set p k m =
     (case p of
        Null \<Rightarrow> Fault Null_Pointer
      | Ptr i _ \<Rightarrow>
          (case md_ctxs m i of
             None \<Rightarrow> Fault Not_Allocated
           | Some _ \<Rightarrow> Ret ((), m\<lparr>md_ctxs := (md_ctxs m)(i \<mapsto> Some k)\<rparr>)))"

definition md_ctx_key :: "ptr \<Rightarrow> ('k, ('k, 'z) node_state_scheme) prog" where
  "md_ctx_key p m =
     (case p of
        Null \<Rightarrow> Fault Null_Pointer
      | Ptr i _ \<Rightarrow>
          (case md_ctxs m i of
             None \<Rightarrow> Fault Not_Allocated
           | Some None \<Rightarrow> Fault Indeterminate
           | Some (Some k) \<Rightarrow> Ret (k, m)))"

definition EVP_MD_CTX_free :: "ptr \<Rightarrow> (unit, ('k, 'z) node_state_scheme) prog" where
  "EVP_MD_CTX_free p m =
     (case p of
        Null \<Rightarrow> Ret ((), m)
      | Ptr i _ \<Rightarrow>
          (case md_ctxs m i of
             None \<Rightarrow> Fault Invalid_Free
           | Some _ \<Rightarrow> Ret ((), m\<lparr>md_ctxs := (md_ctxs m)(i := None)\<rparr>)))"

definition EVP_PKEY_CTX_new_id :: "(ptr, ('k, 'z) node_state_scheme) prog" where
  "EVP_PKEY_CTX_new_id m =
     (let i = next_id m; m1 = m\<lparr>next_id := Suc i\<rparr>
      in if denied m i then Ret (Null, m1)
         else Ret (Ptr i 0, m1\<lparr>pkey_ctxs := (pkey_ctxs m)(i \<mapsto> ())\<rparr>))"

definition EVP_PKEY_CTX_free :: "ptr \<Rightarrow> (unit, ('k, 'z) node_state_scheme) prog" where
  "EVP_PKEY_CTX_free p m =
     (case p of
        Null \<Rightarrow> Ret ((), m)
      | Ptr i _ \<Rightarrow>
          (case pkey_ctxs m i of
             None \<Rightarrow> Fault Invalid_Free
           | Some _ \<Rightarrow> Ret ((), m\<lparr>pkey_ctxs := (pkey_ctxs m)(i := None)\<rparr>)))"

text \<open>
  Well-formed states: object numbers of every kind are below the next one.
\<close>

definition wf_node :: "('k, 'z) node_state_scheme \<Rightarrow> bool" where
  "wf_node m \<longleftrightarrow> wf_mem m \<and>
     (\<forall>i. next_id m \<le> i \<longrightarrow> pkeys m i = None \<and> md_ctxs m i = None \<and> pkey_ctxs m i = None)"

text \<open>Running the object operations on a state.\<close>

lemma pkey_at_run [prog_simps]:
  "pkey_at Null m = Ret (None, m)"
  "pkeys m i = Some k \<Longrightarrow> pkey_at (Ptr i j) m = Ret (Some k, m)"
  by (simp_all add: pkey_at_def)

lemma new_pkey_run [prog_simps]:
  "\<not> denied m (next_id m) \<Longrightarrow> new_pkey k m =
     Ret (Ptr (next_id m) 0, m\<lparr>next_id := Suc (next_id m), pkeys := (pkeys m)(next_id m \<mapsto> k)\<rparr>)"
  "denied m (next_id m) \<Longrightarrow> new_pkey k m = Ret (Null, m\<lparr>next_id := Suc (next_id m)\<rparr>)"
  by (simp_all add: new_pkey_def Let_def)

lemma EVP_PKEY_free_run [prog_simps]:
  "EVP_PKEY_free Null m = Ret ((), m)"
  "pkeys m i = Some k \<Longrightarrow> EVP_PKEY_free (Ptr i j) m = Ret ((), m\<lparr>pkeys := (pkeys m)(i := None)\<rparr>)"
  by (simp_all add: EVP_PKEY_free_def)

lemma EVP_MD_CTX_create_run [prog_simps]:
  "\<not> denied m (next_id m) \<Longrightarrow> EVP_MD_CTX_create m =
     Ret (Ptr (next_id m) 0, m\<lparr>next_id := Suc (next_id m), md_ctxs := (md_ctxs m)(next_id m \<mapsto> None)\<rparr>)"
  "denied m (next_id m) \<Longrightarrow> EVP_MD_CTX_create m = Ret (Null, m\<lparr>next_id := Suc (next_id m)\<rparr>)"
  by (simp_all add: EVP_MD_CTX_create_def Let_def)

lemma md_ctx_run [prog_simps]:
  "md_ctxs m i = Some v \<Longrightarrow> md_ctx_set (Ptr i j) k m = Ret ((), m\<lparr>md_ctxs := (md_ctxs m)(i \<mapsto> Some k)\<rparr>)"
  "md_ctxs m i = Some (Some k) \<Longrightarrow> md_ctx_key (Ptr i j) m = Ret (k, m)"
  "md_ctxs m i = Some v \<Longrightarrow> EVP_MD_CTX_free (Ptr i j) m = Ret ((), m\<lparr>md_ctxs := (md_ctxs m)(i := None)\<rparr>)"
  by (simp_all add: md_ctx_set_def md_ctx_key_def EVP_MD_CTX_free_def)

lemma with_block_node_fields [simp]:
  fixes m :: "('k, 'z) node_state_scheme"
  shows "pkeys (with_block a cs m) = pkeys m" "md_ctxs (with_block a cs m) = md_ctxs m"
    "pkey_ctxs (with_block a cs m) = pkey_ctxs m" "files (with_block a cs m) = files m"
  by (simp_all add: with_block_def)

lemma wf_node_fresh:
  assumes "wf_node m" and "next_id m \<le> i"
  shows "blocks m i = None" "pkeys m i = None" "md_ctxs m i = None" "pkey_ctxs m i = None"
  using assms by (simp_all add: wf_node_def wf_mem_def)

lemma wf_node_mem: "wf_node m \<Longrightarrow> wf_mem m"
  by (simp add: wf_node_def)

section \<open>A sample library\<close>

text \<open>
  A concrete instance that keeps the promises above, for evaluating the model on
  examples: keys are numbers, the digest and the signature depend on the first byte.
\<close>

definition sample_sign :: "byte list \<Rightarrow> byte list" where
  "sample_sign d = replicate 64 (case d of [] \<Rightarrow> 1 | b # _ \<Rightarrow> b)"

definition sample_openssl :: "nat openssl" where
  "sample_openssl = \<lparr>
     SHA256 = (\<lambda>d. Some (replicate 32 (case d of [] \<Rightarrow> 7 | b # _ \<Rightarrow> b + 1))),
     EVP_PKEY_keygen = Some,
     EVP_PKEY_get_raw_private_key = (\<lambda>k c. case c of None \<Rightarrow> Some ([], 32)
        | Some n \<Rightarrow> if 32 \<le> n then Some (replicate 32 (of_nat k), 32) else None),
     EVP_PKEY_get_raw_public_key = (\<lambda>k c. case c of None \<Rightarrow> Some ([], 32)
        | Some n \<Rightarrow> if 32 \<le> n then Some (replicate 32 (of_nat k), 32) else None),
     EVP_PKEY_new_raw_private_key = (\<lambda>b. case b of None \<Rightarrow> None
        | Some bs \<Rightarrow> if length bs = 32 then Some (unat (bs ! 0)) else None),
     EVP_PKEY_new_raw_public_key = (\<lambda>b. case b of None \<Rightarrow> None
        | Some bs \<Rightarrow> if length bs = 32 then Some (unat (bs ! 0)) else None),
     EVP_DigestSignInit = (\<lambda>k. k \<noteq> None),
     EVP_DigestSign_size = (\<lambda>k d. Some 64),
     EVP_DigestSign = (\<lambda>k d n. if 64 \<le> n then Some (sample_sign d, 64) else None),
     EVP_DigestVerifyInit = (\<lambda>k. True),
     EVP_DigestVerify = (\<lambda>k s d. if s = sample_sign d then 1 else 0),
     PEM_write_PrivateKey = (\<lambda>k. Some (replicate k 65)),
     PEM_read_PrivateKey = (\<lambda>bs. Some (length bs))\<rparr>"

lemma sample_openssl_promises [simp]:
  "sha256_digests sample_openssl"
  "raw_public_is sample_openssl k (replicate 32 (of_nat k))"
  "signs_with sample_openssl k sample_sign"
  "verifies_with sample_openssl k sample_sign"
  by (simp_all add: sha256_digests_def raw_public_is_def signs_with_def verifies_with_def sample_openssl_def
      sample_sign_def)

definition sample_node :: "nat node_state" where
  "sample_node = \<lparr>
     blocks = [1 \<mapsto> (Static, map Some (replicate 32 5)), 2 \<mapsto> (Static, map Some [104, 105, 0])],
     next_id = 4, denied = (\<lambda>_. False),
     pkeys = [3 \<mapsto> 9], md_ctxs = Map.empty, pkey_ctxs = Map.empty,
     files = Map.empty, readonly = (\<lambda>_. False)\<rparr>"

lemma wf_sample_node [simp]: "wf_node sample_node" "wf_mem sample_node"
  by (auto simp: wf_node_def wf_mem_def sample_node_def)

lemma sample_node_fields [simp]:
  "next_id sample_node = 4" "\<not> denied sample_node i" "pkeys sample_node 3 = Some 9"
  by (simp_all add: sample_node_def)

lemma sample_node_bytes: "bytes_at sample_node (Ptr 1 0) (replicate 32 5)"
  by (simp add: bytes_at_cells cells_at_def sample_node_def)

lemma sample_node_string: "string_at sample_node (Ptr 2 0) [104, 105]"
  by (simp add: string_at_cells cells_at_def sample_node_def)

end
