(* ===== verification/Signature.thy ===== *)
theory Signature
  imports OpenSSL_Env
begin

text \<open>
  Signatures, \<^verbatim>\<open>src_c/client-node/signature/signature.c\<close> and
  \<^verbatim>\<open>signature.h\<close>. A \<open>Signature\<close> holds two buffers, the digest (from
  \<^verbatim>\<open>malloc\<close>) and the signature (from the OpenSSL allocator), with their
  lengths. A \<^verbatim>\<open>Signature *\<close> argument is \<open>None\<close> for NULL; an operation that
  changes the struct returns it.
\<close>

record Signature =
  digest_buffer :: ptr
  signature_buffer :: ptr
  digest_len :: nat
  signature_len :: nat

abbreviation (input) KEY_LEN :: nat where "KEY_LEN \<equiv> 32"
abbreviation (input) SIGNATURE_LEN :: nat where "SIGNATURE_LEN \<equiv> 64"

section \<open>Operations\<close>

definition Signature_free :: "Signature option \<Rightarrow> (Signature option, 'z mem_scheme) prog" where
  "Signature_free sig =
     (case sig of
        None \<Rightarrow> ret None
      | Some s \<Rightarrow>
          bind (if signature_buffer s \<noteq> Null
                then bind (OPENSSL_free (signature_buffer s)) (\<lambda>_. ret (s\<lparr>signature_buffer := Null\<rparr>))
                else ret s) (\<lambda>s.
          bind (if digest_buffer s \<noteq> Null
                then bind (free (digest_buffer s)) (\<lambda>_. ret (s\<lparr>digest_buffer := Null\<rparr>))
                else ret s) (\<lambda>s.
          ret (Some (s\<lparr>signature_len := 0, digest_len := 0\<rparr>)))))"

text \<open>The loop of \<^verbatim>\<open>digest_cmp\<close> over the next \<open>n\<close> elements of both arrays.\<close>

fun digest_cmp_loop :: "nat \<Rightarrow> byte option list \<Rightarrow> byte option list \<Rightarrow> bool outcome" where
  "digest_cmp_loop 0 as bs = Ret True"
| "digest_cmp_loop (Suc n) as bs =
     bind_o (read_cells 1 as) (\<lambda>a.
     bind_o (read_cells 1 bs) (\<lambda>b.
       if a \<noteq> b then Ret False else digest_cmp_loop n (drop 1 as) (drop 1 bs)))"

definition digest_cmp :: "ptr \<Rightarrow> ptr \<Rightarrow> (bool, 'z mem_scheme) prog" where
  "digest_cmp a b m =
     lift (bind_o (cells_at m a) (\<lambda>as. bind_o (cells_at m b) (\<lambda>bs. digest_cmp_loop 32 as bs))) m"

definition Signature_verify ::
  "'k openssl \<Rightarrow> Signature option \<Rightarrow> ptr \<Rightarrow> ptr \<Rightarrow> nat \<Rightarrow> (bool, ('k, 'z) node_state_scheme) prog" where
  "Signature_verify ossl sig pkey msg msg_len0 =
     (case sig of
        None \<Rightarrow> exit1 ''Signerature is NULL''
      | Some s \<Rightarrow>
          if signature_buffer s = Null \<or> signature_len s = 0 then exit1 ''Signature inner buffer is empty ''
          else if digest_buffer s = Null \<or> digest_len s = 0 then exit1 ''Digest inner buffer is empty ''
          else
            bind (if msg_len0 = 0 then strlen msg else ret msg_len0) (\<lambda>msg_len.
            if msg_len = 0 then exit1 ''Message of zero length cannot be signed''
            else
              bind (malloc 32) (\<lambda>digest.
              if digest = Null
              then exit1 ''Allocating memory of size [ %li ] bytes for digest buffer failed''
              else
                bind (load msg msg_len) (\<lambda>d.
                case SHA256 ossl d of
                  None \<Rightarrow> exit1 ''Hashing message failed''
                | Some h \<Rightarrow>
                    bind (store digest h) (\<lambda>_.
                    bind (digest_cmp digest (digest_buffer s)) (\<lambda>ok.
                    bind (free digest) (\<lambda>_.
                    if \<not> ok then ret False
                    else
                      bind EVP_MD_CTX_create (\<lambda>mdctx.
                      if mdctx = Null then exit1 ''Context allocation failed''
                      else if pkey = Null then exit1 ''Public key is NULL''
                      else
                        bind (pkey_at pkey) (\<lambda>ko.
                        case ko of
                          None \<Rightarrow> fault Null_Pointer
                        | Some k \<Rightarrow>
                            if \<not> EVP_DigestVerifyInit ossl k
                            then exit1 ''Public key context allocation failed.''
                            else
                              bind (md_ctx_set mdctx k) (\<lambda>_.
                              bind (md_ctx_key mdctx) (\<lambda>k'.
                              bind (load (signature_buffer s) (signature_len s)) (\<lambda>sb.
                              bind (load (digest_buffer s) (digest_len s)) (\<lambda>db.
                              bind (EVP_MD_CTX_free mdctx) (\<lambda>_.
                              ret (EVP_DigestVerify ossl k' sb db = 1)))))))))))))))"

section \<open>Messages\<close>

text \<open>
  The bytes a call means by a message pointer and a length: the string at the pointer
  when the length is zero, the given number of bytes otherwise.
\<close>

definition message_at :: "'z mem_scheme \<Rightarrow> ptr \<Rightarrow> nat \<Rightarrow> byte list \<Rightarrow> bool" where
  "message_at m p n d \<longleftrightarrow> d \<noteq> [] \<and> (if n = 0 then string_at m p d else bytes_at m p d \<and> length d = n)"

lemma read_string_read_cells: "read_string cs = Ret s \<Longrightarrow> read_cells (length s) cs = Ret s"
  by (induction cs arbitrary: s) (auto simp: bind_o_eq_Ret split: option.splits if_splits)

lemma string_at_bytes_at: "string_at m p s \<Longrightarrow> bytes_at m p s"
  by (auto simp: string_at_cells bytes_at_cells dest: read_string_read_cells)

lemma message_at_bytes: "message_at m p n d \<Longrightarrow> bytes_at m p d"
  by (auto simp: message_at_def string_at_bytes_at split: if_splits)

lemma message_at_old: "same_old_blocks m m' \<Longrightarrow> message_at m p n d \<Longrightarrow> message_at m' p n d"
  by (auto simp: message_at_def string_at_old bytes_at_old split: if_splits)

lemma message_length_run [prog_simps]:
  "message_at m p n d \<Longrightarrow> (if n = 0 then strlen p else ret n) m = Ret (length d, m)"
  by (auto simp: message_at_def prog_simps split: if_splits)

section \<open>Comparison of digests\<close>

lemma digest_cmp_loop_eq:
  assumes "length as = n" and "length bs = n"
  shows "digest_cmp_loop n (map Some as @ r) (map Some bs @ q) = Ret (as = bs)"
  using assms
proof (induction n arbitrary: as bs)
  case 0
  then show ?case by simp
next
  case (Suc n)
  then show ?case by (cases as; cases bs) simp_all
qed

lemma digest_cmp_run [prog_simps]:
  assumes "bytes_at m p as" and "bytes_at m q bs" and "length as = 32" and "length bs = 32"
  shows "digest_cmp p q m = Ret (as = bs, m)"
proof -
  have split: "\<exists>r. cs = map Some xs @ r" if "read_cells (length xs) cs = Ret xs" for xs :: "byte list" and cs
    using that
    by (induction xs arbitrary: cs) (auto simp: bind_o_eq_Ret split: list.splits option.splits)
  obtain r q' where "cells_at m p = Ret (map Some as @ r)" and "cells_at m q = Ret (map Some bs @ q')"
    using assms(1,2) split by (metis bytes_at_cells)
  then show ?thesis
    using digest_cmp_loop_eq [of as 32 bs r q'] assms(3,4) by (simp add: digest_cmp_def prog_simps)
qed

section \<open>Destruction\<close>

text \<open>
  The blocks a signature owns: a live block of the right allocator behind every
  pointer that is not NULL, and never the same block twice.
\<close>

definition owns_block :: "'z mem_scheme \<Rightarrow> allocator \<Rightarrow> ptr \<Rightarrow> bool" where
  "owns_block m a p \<longleftrightarrow> p = Null \<or> (\<exists>i cs. p = Ptr i 0 \<and> blocks m i = Some (a, cs))"

definition drop_block :: "ptr \<Rightarrow> 'z mem_scheme \<Rightarrow> 'z mem_scheme" where
  "drop_block p m = (case p of Null \<Rightarrow> m | Ptr i _ \<Rightarrow> m\<lparr>blocks := (blocks m)(i := None)\<rparr>)"

definition Signature_owns :: "Signature \<Rightarrow> 'z mem_scheme \<Rightarrow> bool" where
  "Signature_owns s m \<longleftrightarrow> owns_block m OpenSSL (signature_buffer s) \<and> owns_block m Malloc (digest_buffer s)"

definition Signature_drop :: "Signature \<Rightarrow> 'z mem_scheme \<Rightarrow> 'z mem_scheme" where
  "Signature_drop s m = drop_block (digest_buffer s) (drop_block (signature_buffer s) m)"

definition Signature_empty :: "Signature \<Rightarrow> bool" where
  "Signature_empty s \<longleftrightarrow> s = \<lparr>digest_buffer = Null, signature_buffer = Null, digest_len = 0, signature_len = 0\<rparr>"

lemma release_owned [prog_simps]: "owns_block m a p \<Longrightarrow> release a p m = Ret ((), drop_block p m)"
  by (auto simp: owns_block_def drop_block_def prog_simps)

lemma owns_block_drop: "owns_block m Malloc p \<Longrightarrow> owns_block m OpenSSL q \<Longrightarrow> owns_block (drop_block q m) Malloc p"
  by (force simp: owns_block_def drop_block_def)

lemma drop_block_Null [simp]: "drop_block Null m = m"
  by (simp add: drop_block_def)

interpretation sig: destructor Signature_free Signature_owns Signature_drop Signature_empty
proof
  show "Signature_free None m = Ret (None, m)" for m :: "'a mem_scheme"
    by (simp add: Signature_free_def prog_simps)
  show "\<exists>y. Signature_free (Some x) m = Ret (Some y, Signature_drop x m) \<and> Signature_empty y"
    if "Signature_owns x m" for x and m :: "'a mem_scheme"
    using that
    by (cases x) (auto simp: Signature_free_def Signature_owns_def Signature_drop_def Signature_empty_def
        prog_simps OPENSSL_free_def free_def owns_block_drop)
  show "Signature_free (Some y) m = Ret (Some y, m)" if "Signature_empty y" for y and m :: "'a mem_scheme"
    using that by (simp add: Signature_free_def Signature_empty_def prog_simps)
qed

section \<open>Verification\<close>

text \<open>
  What \<^verbatim>\<open>Signature_verify\<close> needs of the storage: a digest of 32 bytes and the
  signature bytes behind the pointers of the struct.
\<close>

definition Signature_holds :: "'z mem_scheme \<Rightarrow> Signature \<Rightarrow> byte list \<Rightarrow> byte list \<Rightarrow> bool" where
  "Signature_holds m s db sb \<longleftrightarrow> bytes_at m (digest_buffer s) db \<and> bytes_at m (signature_buffer s) sb \<and>
     length db = 32 \<and> digest_len s = 32 \<and> signature_len s = length sb \<and> sb \<noteq> []"

lemma bytes_at_not_null: "bytes_at m p bs \<Longrightarrow> p \<noteq> Null"
  by (auto simp: bytes_at_cells cells_at_def)

text \<open>The state after the scratch digest is released: only the object counter moved.\<close>

lemma bytes_at_cong: "blocks m' = blocks m \<Longrightarrow> bytes_at m' p bs = bytes_at m p bs"
  by (cases p) (simp_all add: bytes_at_cells cells_at_def)

lemma Signature_holds_cong: "blocks m' = blocks m \<Longrightarrow> Signature_holds m' s db sb = Signature_holds m s db sb"
  by (simp add: Signature_holds_def bytes_at_cong [of m' m])

lemma restore_md_ctxs:
  "md_ctxs m i = None \<Longrightarrow> m\<lparr>next_id := k, md_ctxs := (md_ctxs m)(i := None)\<rparr> = m\<lparr>next_id := k\<rparr>"
  by (simp add: fun_upd_idem)

lemma digest_cmp_new_block:
  assumes "wf_mem m" and "bytes_at m q db" and "length h = 32" and "length db = 32"
  shows "digest_cmp (Ptr (next_id m) 0) q (with_block a (map Some h) m) =
     Ret (h = db, with_block a (map Some h) m)"
  using assms bytes_at_old [of m "with_block a (map Some h) m" q db]
  by (intro digest_cmp_run) (auto intro: bytes_at_block)

lemma Signature_load:
  assumes "Signature_holds m s db sb" and "blocks m' = blocks m"
  shows "load (signature_buffer s) (signature_len s) m' = Ret (sb, m')"
    and "load (digest_buffer s) (digest_len s) m' = Ret (db, m')"
  using assms Signature_holds_cong [OF assms(2), of s db sb]
  by (auto simp: Signature_holds_def intro: load_bytes_at)

lemma Signature_verify_run:
  assumes "wf_node m" and "message_at m msg n d" and "SHA256 ossl d = Some h" and "length h = 32"
    and "Signature_holds m s db sb" and "pkeys m i = Some v" and "EVP_DigestVerifyInit ossl v"
  shows "Signature_verify ossl (Some s) (Ptr i 0) msg n m =
    (if denied m (next_id m) then Exit ''Allocating memory of size [ %li ] bytes for digest buffer failed''
     else if h \<noteq> db then Ret (False, m\<lparr>next_id := Suc (next_id m)\<rparr>)
     else if denied m (Suc (next_id m)) then Exit ''Context allocation failed''
     else Ret (EVP_DigestVerify ossl v sb db = 1, m\<lparr>next_id := Suc (Suc (next_id m))\<rparr>))"
proof -
  have holds: "bytes_at m (digest_buffer s) db" "length db = 32"
    "signature_buffer s \<noteq> Null" "digest_buffer s \<noteq> Null" "signature_len s \<noteq> 0" "digest_len s \<noteq> 0"
    using assms(5) by (auto simp: Signature_holds_def dest: bytes_at_not_null)
  have "d \<noteq> []" and msg: "bytes_at m msg d"
    using assms(2) message_at_bytes [OF assms(2)] by (simp_all add: message_at_def)
  note digest_steps = new_block_steps [where m = m] digest_cmp_new_block [where m = m and q = "digest_buffer s"]
  show ?thesis
    using holds \<open>d \<noteq> []\<close> msg assms(2-4,6,7) wf_node_mem [OF assms(1)] wf_node_fresh(3) [OF assms(1), of "Suc (next_id m)"]
    by (cases "denied m (next_id m)"; cases "denied m (Suc (next_id m))")
      (auto simp: Signature_verify_def prog_simps digest_steps free_def
        Signature_load [OF assms(5)] restore_md_ctxs)
qed

text \<open>
  C9: \<^verbatim>\<open>Signature_verify\<close> on a message and an intact signature struct accepts
  exactly when the stored digest is the SHA-256 digest of the message and the library
  accepts the signature of that digest. It leaves every block, key and context as it
  found them, and ends the process only where an allocation fails.
\<close>

theorem Signature_verify_behaviour:
  assumes "wf_node m" and "message_at m msg n d" and "SHA256 ossl d = Some h" and "length h = 32"
    and "Signature_holds m s db sb" and "pkeys m i = Some v" and "EVP_DigestVerifyInit ossl v"
  shows "Signature_verify ossl (Some s) (Ptr i 0) msg n m =
    (if denied m (next_id m) then Exit ''Allocating memory of size [ %li ] bytes for digest buffer failed''
     else if h \<noteq> db then Ret (False, m\<lparr>next_id := Suc (next_id m)\<rparr>)
     else if denied m (Suc (next_id m)) then Exit ''Context allocation failed''
     else Ret (EVP_DigestVerify ossl v sb db = 1, m\<lparr>next_id := Suc (Suc (next_id m))\<rparr>))"
  by (rule Signature_verify_run [OF assms])

definition sample_signed :: "nat node_state" where
  "sample_signed = sample_node\<lparr>blocks := (blocks sample_node)
     (0 \<mapsto> (Malloc, map Some (replicate 32 105)), 3 \<mapsto> (OpenSSL, map Some (replicate 64 105)))\<rparr>"

definition sample_signature :: Signature where
  "sample_signature = \<lparr>digest_buffer = Ptr 0 0, signature_buffer = Ptr 3 0, digest_len = 32, signature_len = 64\<rparr>"

lemma sample_sign_replicate [simp]: "0 < n \<Longrightarrow> sample_sign (replicate n b) = replicate 64 b"
  by (cases n) (simp_all add: sample_sign_def)

lemma sample_digests:
  "0 < n \<Longrightarrow> SHA256 sample_openssl (replicate n b) = Some (replicate 32 (b + 1))"
  "SHA256 sample_openssl (b # bs) = Some (replicate 32 (b + 1))"
  by (cases n) (simp_all add: sample_openssl_def)

lemma sample_signed_facts:
  "wf_node sample_signed" "message_at sample_signed (Ptr 2 0) 0 [104, 105]"
  "SHA256 sample_openssl [104, 105] = Some (replicate 32 105)"
  "Signature_holds sample_signed sample_signature (replicate 32 105) (replicate 64 105)"
  "pkeys sample_signed 3 = Some 9" "EVP_DigestVerifyInit sample_openssl 9"
  "\<not> denied sample_signed j" "next_id sample_signed = 4"
  "EVP_DigestVerify sample_openssl 9 (replicate 64 105) (replicate 32 105) = 1"
  "Signature_owns sample_signature sample_signed"
  by (auto simp: wf_node_def wf_mem_def message_at_def string_at_cells Signature_holds_def bytes_at_cells cells_at_def
      sample_signed_def sample_signature_def sample_node_def sample_openssl_def Signature_owns_def
      owns_block_def)

theorem Signature_verify_behaviour_witness:
  "Signature_verify sample_openssl (Some sample_signature) (Ptr 3 0) (Ptr 2 0) 0 sample_signed =
     Ret (True, sample_signed\<lparr>next_id := 6\<rparr>)"
  using Signature_verify_behaviour [OF sample_signed_facts(1-3) _ sample_signed_facts(4-6)]
  by (simp add: sample_signed_facts)

text \<open>
  The comparison of digests always looks at 32 bytes, whatever \<^verbatim>\<open>digest_len\<close>
  says: a struct whose digest block is shorter and agrees with the digest of the
  message as far as it goes makes \<^verbatim>\<open>Signature_verify\<close> read past the block.
\<close>

lemma Signature_verify_short_digest:
  assumes "wf_node m" and "\<not> denied m (next_id m)" and "message_at m msg n d"
    and "SHA256 ossl d = Some h" and "length h = 32"
    and "signature_buffer s \<noteq> Null" and "signature_len s \<noteq> 0" and "digest_len s \<noteq> 0"
    and "digest_buffer s = Ptr j 0" and "blocks m j = Some (a, map Some (take c h))" and "c < 32"
  shows "Signature_verify ossl (Some s) pkey msg n m = Fault Out_Of_Bounds"
proof -
  have prefix: "digest_cmp_loop (length xs) (map Some xs) (map Some (take k xs)) = Fault Out_Of_Bounds"
    if "k < length xs" for k and xs :: "byte list"
    using that
  proof (induction xs arbitrary: k)
    case (Cons x xs)
    then show ?case by (cases k) simp_all
  qed simp
  have "d \<noteq> []" and msg: "bytes_at m msg d"
    using assms(3) message_at_bytes [OF assms(3)] by (simp_all add: message_at_def)
  have "j \<noteq> next_id m" using assms(10) wf_node_fresh(1) [OF assms(1), of "next_id m"] by auto
  then have cmp: "digest_cmp (Ptr (next_id m) 0) (Ptr j 0) (with_block Malloc (map Some h) m) = Fault Out_Of_Bounds"
    using prefix [of c h] assms(5,10,11) by (simp add: digest_cmp_def cells_at_def prog_simps)
  show ?thesis
    using assms(2-9) \<open>d \<noteq> []\<close> msg wf_node_mem [OF assms(1)] cmp
    by (simp add: Signature_verify_def prog_simps new_block_steps [where m = m])
qed

text \<open>
  \<^verbatim>\<open>Signature_free\<close> releases both buffers of a signature to the allocators they
  came from and leaves an empty struct, so that a second call changes nothing.
\<close>

lemma Signature_free_once:
  assumes "Signature_owns s m"
  shows "Signature_free (Some s) m =
      Ret (Some \<lparr>digest_buffer = Null, signature_buffer = Null, digest_len = 0, signature_len = 0\<rparr>, Signature_drop s m) \<and>
    bind (Signature_free (Some s)) Signature_free m = Signature_free (Some s) m"
  using sig.destroy_twice [OF assms] sig.destroy_owned [OF assms] by (auto simp: Signature_empty_def)

end
