(* ===== verification/Signer.thy ===== *)
theory Signer
  imports Signature
begin

text \<open>
  Signers, \<^verbatim>\<open>src_c/client-node/signer/signer.c\<close> and \<^verbatim>\<open>signer.h\<close>: creation,
  release, saving and reading of an ed25519 key, raw keys, and signing. A
  \<^verbatim>\<open>Signer *\<close> is \<open>None\<close> for NULL. The fields of a \<open>RawCryptoKey\<close> are
  optional because two functions return the struct without initialising it.
\<close>

record Signer =
  evpkey :: ptr

record RawCryptoKey =
  rk_buffer :: "ptr option"
  rk_len :: "nat option"

section \<open>Operations\<close>

text \<open>
  \<^verbatim>\<open>Signer_new\<close> ignores the results of \<^verbatim>\<open>EVP_PKEY_keygen_init\<close> and
  \<^verbatim>\<open>EVP_PKEY_keygen\<close>: when either fails, or the context is NULL, \<^verbatim>\<open>pkey\<close> keeps
  its initial NULL.
\<close>

definition Signer_new :: "'k openssl \<Rightarrow> (Signer, ('k, 'z) node_state_scheme) prog" where
  "Signer_new ossl =
     bind EVP_PKEY_CTX_new_id (\<lambda>pctx.
     bind (\<lambda>m. if pctx = Null then Ret (Null, m)
               else case EVP_PKEY_keygen ossl (next_id m) of
                      None \<Rightarrow> Ret (Null, m)
                    | Some k \<Rightarrow> new_pkey k m) (\<lambda>pkey.
     bind (EVP_PKEY_CTX_free pctx) (\<lambda>_.
     if pkey = Null then exit1 ''EVP_PKEY_ED25519 private key generation failed.''
     else ret \<lparr>evpkey = pkey\<rparr>)))"

definition Signer_free :: "Signer option \<Rightarrow> (Signer option, ('k, 'z) node_state_scheme) prog" where
  "Signer_free s =
     (case s of
        None \<Rightarrow> ret None
      | Some sg \<Rightarrow>
          if evpkey sg = Null then ret (Some sg)
          else bind (EVP_PKEY_free (evpkey sg)) (\<lambda>_. ret (Some (sg\<lparr>evpkey := Null\<rparr>))))"

definition signer_is_ready :: "Signer option \<Rightarrow> bool" where
  "signer_is_ready s = (case s of None \<Rightarrow> False | Some sg \<Rightarrow> evpkey sg \<noteq> Null)"

definition Signer_save_pem ::
  "'k openssl \<Rightarrow> Signer option \<Rightarrow> string \<Rightarrow> (bool, ('k, 'z) node_state_scheme) prog" where
  "Signer_save_pem ossl s f =
     (if \<not> signer_is_ready s then ret False
      else (\<lambda>m.
        if readonly m f then Ret (False, m)
        else
          bind (pkey_at (evpkey (the s))) (\<lambda>ko m1.
            case ko of
              None \<Rightarrow> Fault Null_Pointer
            | Some k \<Rightarrow>
                (case PEM_write_PrivateKey ossl k of
                   None \<Rightarrow> Ret (False, m1)
                 | Some bs \<Rightarrow> Ret (True, m1\<lparr>files := (files m1)(f \<mapsto> bs)\<rparr>)))
            (m\<lparr>files := (files m)(f \<mapsto> [])\<rparr>)))"

definition Signer_read_pem ::
  "'k openssl \<Rightarrow> Signer option \<Rightarrow> string \<Rightarrow> (bool \<times> Signer option, ('k, 'z) node_state_scheme) prog" where
  "Signer_read_pem ossl s f m =
     (case files m f of
        None \<Rightarrow> Ret ((False, s), m)
      | Some bs \<Rightarrow>
          (case s of
             None \<Rightarrow> Fault Null_Pointer
           | Some sg \<Rightarrow>
               bind (case PEM_read_PrivateKey ossl bs of None \<Rightarrow> ret Null | Some k \<Rightarrow> new_pkey k)
                 (\<lambda>p. ret (p \<noteq> Null, Some (sg\<lparr>evpkey := p\<rparr>))) m))"

text \<open>
  The two accessors of raw keys differ only in the library call \<open>get\<close>. The result of
  \<^verbatim>\<open>malloc\<close> is not tested; a NULL buffer goes to the library call, which then
  stores nothing.
\<close>

definition get_raw_key ::
  "('k \<Rightarrow> nat option \<Rightarrow> (byte list \<times> nat) option) \<Rightarrow> string \<Rightarrow> Signer option
     \<Rightarrow> (RawCryptoKey, ('k, 'z) node_state_scheme) prog" where
  "get_raw_key get msg s =
     (if \<not> signer_is_ready s then ret \<lparr>rk_buffer = None, rk_len = None\<rparr>
      else
        bind (malloc KEY_LEN) (\<lambda>buf.
        bind (pkey_at (evpkey (the s))) (\<lambda>ko.
          case ko of
            None \<Rightarrow> fault Null_Pointer
          | Some k \<Rightarrow>
              (case get k (if buf = Null then None else Some KEY_LEN) of
                 None \<Rightarrow> exit1 msg
               | Some (bs, l) \<Rightarrow>
                   bind (if buf = Null then ret () else store buf bs) (\<lambda>_.
                   ret \<lparr>rk_buffer = Some buf, rk_len = Some l\<rparr>)))))"

definition Signer_get_private_key :: "'k openssl \<Rightarrow> Signer option \<Rightarrow> (RawCryptoKey, ('k, 'z) node_state_scheme) prog" where
  "Signer_get_private_key ossl s =
     get_raw_key (EVP_PKEY_get_raw_private_key ossl) ''Writing raw private key failed failed'' s"

definition Signer_get_public_key :: "'k openssl \<Rightarrow> Signer option \<Rightarrow> (RawCryptoKey, ('k, 'z) node_state_scheme) prog" where
  "Signer_get_public_key ossl s =
     get_raw_key (EVP_PKEY_get_raw_public_key ossl) ''Writing raw public key failed failed'' s"

text \<open>A field of a struct that may be uninitialised.\<close>

definition field :: "'a option \<Rightarrow> ('a, 's) prog" where
  "field v = (case v of None \<Rightarrow> fault Indeterminate | Some x \<Rightarrow> ret x)"

definition raw_to_evp ::
  "(byte list option \<Rightarrow> 'k option) \<Rightarrow> RawCryptoKey \<Rightarrow> (ptr, ('k, 'z) node_state_scheme) prog" where
  "raw_to_evp new r =
     bind (field (rk_buffer r)) (\<lambda>buf.
     bind (field (rk_len r)) (\<lambda>l.
     bind (if buf = Null then ret None else bind (load buf l) (\<lambda>bs. ret (Some bs))) (\<lambda>b.
       case new b of None \<Rightarrow> ret Null | Some k \<Rightarrow> new_pkey k)))"

definition RawCryptoKey_get_evp_public_key :: "'k openssl \<Rightarrow> RawCryptoKey \<Rightarrow> (ptr, ('k, 'z) node_state_scheme) prog" where
  "RawCryptoKey_get_evp_public_key ossl r = raw_to_evp (EVP_PKEY_new_raw_public_key ossl) r"

definition RawCryptoKey_get_evp_private_key :: "'k openssl \<Rightarrow> RawCryptoKey \<Rightarrow> (ptr, ('k, 'z) node_state_scheme) prog" where
  "RawCryptoKey_get_evp_private_key ossl r = raw_to_evp (EVP_PKEY_new_raw_private_key ossl) r"

definition RawCryptoKey_free :: "RawCryptoKey option \<Rightarrow> (RawCryptoKey option, 'z mem_scheme) prog" where
  "RawCryptoKey_free r =
     (case r of
        None \<Rightarrow> ret None
      | Some rk \<Rightarrow>
          let rk1 = rk\<lparr>rk_len := Some 0\<rparr>
          in bind (field (rk_buffer rk1)) (\<lambda>buf.
               if buf = Null then ret (Some rk1)
               else bind (free buf) (\<lambda>_. ret (Some (rk1\<lparr>rk_buffer := Some Null\<rparr>)))))"

definition Signer_sign ::
  "'k openssl \<Rightarrow> Signer option \<Rightarrow> ptr \<Rightarrow> nat \<Rightarrow> (Signature, ('k, 'z) node_state_scheme) prog" where
  "Signer_sign ossl s msg len0 =
     (case s of
        None \<Rightarrow> exit1 ''Signer is NULL''
      | Some sg \<Rightarrow>
          bind (if len0 = 0 then strlen msg else ret len0) (\<lambda>len.
          if len = 0 then exit1 ''Message of zero length cannot be signed''
          else
            bind (malloc 32) (\<lambda>digest.
            if digest = Null
            then exit1 ''Allocating memory of size [ %li ] bytes for digest buffer failed''
            else
              bind (load msg len) (\<lambda>d.
              case SHA256 ossl d of
                None \<Rightarrow> exit1 ''Hashing message failed''
              | Some h \<Rightarrow>
                  bind (store digest h) (\<lambda>_.
                  bind EVP_MD_CTX_create (\<lambda>mdctx.
                  if mdctx = Null then exit1 ''Context allocation failed''
                  else
                    bind (pkey_at (evpkey sg)) (\<lambda>ko.
                    if \<not> EVP_DigestSignInit ossl ko then exit1 ''Digest sign allocation failed''
                    else
                      case ko of
                        None \<Rightarrow> fault Null_Pointer
                      | Some k \<Rightarrow>
                          bind (md_ctx_set mdctx k) (\<lambda>_.
                          bind (load digest 32) (\<lambda>tbs.
                          bind (md_ctx_key mdctx) (\<lambda>k'.
                          case EVP_DigestSign_size ossl k' tbs of
                            None \<Rightarrow> exit1 ''Calculating signature length failed''
                          | Some sig_len0 \<Rightarrow>
                              bind (OPENSSL_zalloc sig_len0) (\<lambda>signature.
                              if signature = Null then exit1 ''Signature allocation failed''
                              else
                                case EVP_DigestSign ossl k' tbs sig_len0 of
                                  None \<Rightarrow> exit1 ''Signing digest failed''
                                | Some (sb, sig_len) \<Rightarrow>
                                    bind (store signature sb) (\<lambda>_.
                                    bind (EVP_MD_CTX_free mdctx) (\<lambda>_.
                                    ret \<lparr>digest_buffer = digest, signature_buffer = signature,
                                         digest_len = 32, signature_len = sig_len\<rparr>)))))))))))))"

section \<open>Signing\<close>

lemma Signer_sign_run:
  assumes "wf_node m" and "message_at m msg n d" and "SHA256 ossl d = Some h" and "length h = 32"
    and "pkeys m i = Some k" and "signs_with ossl k sign"
  shows "Signer_sign ossl (Some \<lparr>evpkey = Ptr i 0\<rparr>) msg n m =
    (if denied m (next_id m) then Exit ''Allocating memory of size [ %li ] bytes for digest buffer failed''
     else if denied m (next_id m + 1) then Exit ''Context allocation failed''
     else if denied m (next_id m + 2) then Exit ''Signature allocation failed''
     else Ret (\<lparr>digest_buffer = Ptr (next_id m) 0, signature_buffer = Ptr (next_id m + 2) 0,
                digest_len = 32, signature_len = 64\<rparr>,
               m\<lparr>next_id := next_id m + 3,
                 blocks := (blocks m)(next_id m \<mapsto> (Malloc, map Some h),
                                      next_id m + 2 \<mapsto> (OpenSSL, map Some (sign h)))\<rparr>))"
proof -
  let ?k = "next_id m"
  have "d \<noteq> []" and msg: "bytes_at m msg d"
    using assms(2) message_at_bytes [OF assms(2)] by (simp_all add: message_at_def)
  have sign: "EVP_DigestSignInit ossl (Some k)" "length (sign h) = 64" "EVP_DigestSign_size ossl k h = Some 64"
    "EVP_DigestSign ossl k h 64 = Some (sign h, 64)"
    using assms(6) by (simp_all add: signs_with_def)
  let ?m1 = "with_block Malloc (map Some h) m"
  let ?m2 = "\<lambda>c. ?m1\<lparr>next_id := Suc (Suc ?k), md_ctxs := (md_ctxs m)(Suc ?k \<mapsto> c)\<rparr>"
  have key: "pkey_at (Ptr i 0) (?m2 c) = Ret (Some k, ?m2 c)" for c using assms(5) by (simp add: prog_simps)
  have ctx: "\<not> denied m (Suc ?k) \<Longrightarrow> EVP_MD_CTX_create ?m1 = Ret (Ptr (Suc ?k) 0, ?m2 None)"
    "denied m (Suc ?k) \<Longrightarrow> EVP_MD_CTX_create ?m1 = Ret (Null, ?m1\<lparr>next_id := Suc (Suc ?k)\<rparr>)"
    "md_ctx_set (Ptr (Suc ?k) 0) k (?m2 None) = Ret ((), ?m2 (Some k))"
    "md_ctx_key (Ptr (Suc ?k) 0) (?m2 (Some k)) = Ret (k, ?m2 (Some k))"
    by (simp_all add: prog_simps)
  have dig: "load (Ptr ?k 0) 32 (?m2 c) = Ret (h, ?m2 c)" for c using assms(4) by (simp add: prog_simps)
  let ?m3 = "\<lambda>cs. with_block OpenSSL cs (?m2 (Some k))"
  have wf2: "blocks m (Suc (Suc ?k)) = None" "md_ctxs m (Suc ?k) = None"
    using wf_node_fresh [OF assms(1)] by simp_all
  have out: "store (Ptr (Suc (Suc ?k)) 0) (sign h) (?m3 (replicate 64 (Some 0))) = Ret ((), ?m3 (map Some (sign h)))"
    using new_block_steps(5) [of "sign h" "replicate 64 (Some 0)" "?m2 (Some k)" OpenSSL] sign(2) by simp
  have fin: "EVP_MD_CTX_free (Ptr (Suc ?k) 0) (?m3 (map Some (sign h))) =
      Ret ((), m\<lparr>next_id := ?k + 3, blocks := (blocks m)(?k \<mapsto> (Malloc, map Some h),
                 ?k + 2 \<mapsto> (OpenSSL, map Some (sign h)))\<rparr>)"
    using wf2 by (simp add: prog_simps with_block_def fun_upd_idem numeral_3_eq_3)
  note steps = prog_run new_block_steps(1,3,5,6) [where m = m] key ctx dig
    new_block_steps(2,4) [of "?m2 (Some k)"] out fin message_length_run [OF assms(2)]
  show ?thesis
    using assms(3-5) sign \<open>d \<noteq> []\<close> msg wf_node_mem [OF assms(1)]
    by (cases "denied m ?k"; cases "denied m (Suc ?k)"; cases "denied m (Suc (Suc ?k))")
      (simp_all add: Signer_sign_def steps)
qed

text \<open>
  C17: \<^verbatim>\<open>Signer_sign\<close> hashes the message, signs the digest with the key of the signer
  and returns a struct that owns a digest block of 32 bytes from \<^verbatim>\<open>malloc\<close> and a
  signature block from the OpenSSL allocator. Nothing else in the state changes; the
  context is released. The only other endings are the three failed allocations.
\<close>

theorem Signer_sign_behaviour:
  assumes "wf_node m" and "message_at m msg n d" and "SHA256 ossl d = Some h" and "length h = 32"
    and "pkeys m i = Some k" and "signs_with ossl k sign"
  shows "Signer_sign ossl (Some \<lparr>evpkey = Ptr i 0\<rparr>) msg n m =
    (if denied m (next_id m) then Exit ''Allocating memory of size [ %li ] bytes for digest buffer failed''
     else if denied m (next_id m + 1) then Exit ''Context allocation failed''
     else if denied m (next_id m + 2) then Exit ''Signature allocation failed''
     else Ret (\<lparr>digest_buffer = Ptr (next_id m) 0, signature_buffer = Ptr (next_id m + 2) 0,
                digest_len = 32, signature_len = 64\<rparr>,
               m\<lparr>next_id := next_id m + 3,
                 blocks := (blocks m)(next_id m \<mapsto> (Malloc, map Some h),
                                      next_id m + 2 \<mapsto> (OpenSSL, map Some (sign h)))\<rparr>))"
  by (rule Signer_sign_run [OF assms])

theorem Signer_sign_behaviour_witness:
  "Signer_sign sample_openssl (Some \<lparr>evpkey = Ptr 3 0\<rparr>) (Ptr 2 0) 0 sample_node =
     Ret (\<lparr>digest_buffer = Ptr 4 0, signature_buffer = Ptr 6 0, digest_len = 32, signature_len = 64\<rparr>,
       sample_node\<lparr>next_id := 7, blocks := (blocks sample_node)
         (4 \<mapsto> (Malloc, map Some (replicate 32 105)), 6 \<mapsto> (OpenSSL, map Some (replicate 64 105)))\<rparr>)"
  using Signer_sign_behaviour [of sample_node "Ptr 2 0" 0 "[104, 105]" sample_openssl "replicate 32 105" 3 9 sample_sign]
    sample_node_string by (simp add: message_at_def sample_signed_facts)

section \<open>Destruction\<close>

definition Signer_owns :: "Signer \<Rightarrow> ('k, 'z) node_state_scheme \<Rightarrow> bool" where
  "Signer_owns s m \<longleftrightarrow> evpkey s = Null \<or> (\<exists>i. evpkey s = Ptr i 0 \<and> pkeys m i \<noteq> None)"

definition Signer_drop :: "Signer \<Rightarrow> ('k, 'z) node_state_scheme \<Rightarrow> ('k, 'z) node_state_scheme" where
  "Signer_drop s m = (case evpkey s of Null \<Rightarrow> m | Ptr i _ \<Rightarrow> m\<lparr>pkeys := (pkeys m)(i := None)\<rparr>)"

interpretation sgn: destructor Signer_free Signer_owns Signer_drop "\<lambda>s. evpkey s = Null"
  by unfold_locales (auto simp: Signer_free_def Signer_owns_def Signer_drop_def prog_simps)

definition RawCryptoKey_owns :: "RawCryptoKey \<Rightarrow> 'z mem_scheme \<Rightarrow> bool" where
  "RawCryptoKey_owns r m \<longleftrightarrow> (\<exists>p. rk_buffer r = Some p \<and> owns_block m Malloc p)"

definition RawCryptoKey_drop :: "RawCryptoKey \<Rightarrow> 'z mem_scheme \<Rightarrow> 'z mem_scheme" where
  "RawCryptoKey_drop r m = drop_block (the (rk_buffer r)) m"

definition RawCryptoKey_empty :: "RawCryptoKey \<Rightarrow> bool" where
  "RawCryptoKey_empty r \<longleftrightarrow> r = \<lparr>rk_buffer = Some Null, rk_len = Some 0\<rparr>"

lemma field_run [prog_simps]: "field (Some x) m = Ret (x, m)" "field None m = Fault Indeterminate"
  by (simp_all add: field_def prog_simps)

interpretation raw: destructor RawCryptoKey_free RawCryptoKey_owns RawCryptoKey_drop RawCryptoKey_empty
  by unfold_locales
    (auto simp: RawCryptoKey_free_def RawCryptoKey_owns_def RawCryptoKey_drop_def RawCryptoKey_empty_def
      prog_simps Let_def free_def)

text \<open>
  A new signer owns a fresh key made by the generator, and \<^verbatim>\<open>Signer_new\<close>
  followed by \<^verbatim>\<open>Signer_free\<close> leaves no key and no context behind.
\<close>

lemma Signer_new_free:
  assumes "wf_node m" and "\<forall>x. \<not> denied m x" and "EVP_PKEY_keygen ossl (Suc (next_id m)) = Some k"
  shows "Signer_new ossl m = Ret (\<lparr>evpkey = Ptr (Suc (next_id m)) 0\<rparr>,
      m\<lparr>next_id := next_id m + 2, pkeys := (pkeys m)(Suc (next_id m) \<mapsto> k)\<rparr>) \<and>
    bind (Signer_new ossl) (\<lambda>s. Signer_free (Some s)) m = Ret (Some \<lparr>evpkey = Null\<rparr>, m\<lparr>next_id := next_id m + 2\<rparr>)"
proof -
  let ?m = "m\<lparr>next_id := next_id m + 2, pkeys := (pkeys m)(Suc (next_id m) \<mapsto> k)\<rparr>"
  have run: "Signer_new ossl m = Ret (\<lparr>evpkey = Ptr (Suc (next_id m)) 0\<rparr>, ?m)"
    using assms wf_node_fresh(4) [OF assms(1), of "next_id m"]
    by (simp add: Signer_new_def EVP_PKEY_CTX_new_id_def EVP_PKEY_CTX_free_def prog_simps fun_upd_idem Let_def
        numeral_2_eq_2)
  moreover have "Signer_drop \<lparr>evpkey = Ptr (Suc (next_id m)) 0\<rparr> ?m = m\<lparr>next_id := next_id m + 2\<rparr>"
    using wf_node_fresh(2) [OF assms(1), of "Suc (next_id m)"] by (simp add: Signer_drop_def fun_upd_idem)
  moreover have "Signer_owns \<lparr>evpkey = Ptr (Suc (next_id m)) 0\<rparr> ?m" by (simp add: Signer_owns_def)
  ultimately show ?thesis
    using sgn.destroy_owned [of "\<lparr>evpkey = Ptr (Suc (next_id m)) 0\<rparr>" ?m] by (auto simp: prog_simps)
qed

section \<open>Signing and verifying\<close>

lemma sign_then_verify:
  fixes m :: "('k, 'z) node_state_scheme"
  assumes "wf_node m" and "\<forall>x. \<not> denied m x" and "sha256_digests ossl"
    and "pkeys m i = Some k" and "signs_with ossl k sign" and "pkeys m j = Some v" and "verifies_with ossl v sign"
    and "message_at m msg n d" and "message_at m msg' n' d'"
  shows "\<exists>used. bind (Signer_sign ossl (Some \<lparr>evpkey = Ptr i 0\<rparr>) msg n) (\<lambda>s.
      bind (Signature_verify ossl (Some s) (Ptr j 0) msg' n') (\<lambda>ok.
      bind (Signature_free (Some s)) (\<lambda>_. ret ok))) m =
    Ret (SHA256 ossl d' = SHA256 ossl d, m\<lparr>next_id := used\<rparr>)"
proof -
  obtain h h' where h: "SHA256 ossl d = Some h" "length h = 32" and h': "SHA256 ossl d' = Some h'" "length h' = 32"
    using assms(3) by (metis sha256_digests_def)
  let ?k = "next_id m"
  let ?s = "\<lparr>digest_buffer = Ptr ?k 0, signature_buffer = Ptr (?k + 2) 0, digest_len = 32, signature_len = 64\<rparr>"
  let ?m = "m\<lparr>next_id := ?k + 3, blocks := (blocks m)(?k \<mapsto> (Malloc, map Some h),
                                      ?k + 2 \<mapsto> (OpenSSL, map Some (sign h)))\<rparr>"
  have wf: "wf_node ?m" using assms(1) by (auto simp: wf_node_def wf_mem_def)
  have fresh: "blocks m x = None" if "?k \<le> x" for x using wf_node_fresh(1) [OF assms(1) that] .
  then have old: "same_old_blocks m ?m" by (auto simp: same_old_blocks_def)
  have len: "length (sign h) = 64" using assms(5) by (simp add: signs_with_def)
  have holds: "Signature_holds ?m ?s h (sign h)"
    using h(2) len by (auto simp: Signature_holds_def bytes_at_cells cells_at_def)
  have own: "Signature_owns ?s (?m\<lparr>next_id := u\<rparr>)" for u by (simp add: Signature_owns_def owns_block_def)
  have drop: "Signature_drop ?s (?m\<lparr>next_id := u\<rparr>) = m\<lparr>next_id := u\<rparr>" for u
    using fresh by (simp add: Signature_drop_def drop_block_def fun_upd_idem fun_upd_twist)
  have free: "\<exists>y. Signature_free (Some ?s) (?m\<lparr>next_id := u\<rparr>) = Ret (y, m\<lparr>next_id := u\<rparr>)" for u
    using sig.destroy_owned [OF own [of u]] unfolding drop by blast
  have "Signer_sign ossl (Some \<lparr>evpkey = Ptr i 0\<rparr>) msg n m = Ret (?s, ?m)"
    using Signer_sign_run [OF assms(1,8) h assms(4,5)] assms(2) by simp
  moreover have "Signature_verify ossl (Some ?s) (Ptr j 0) msg' n' ?m =
      Ret (h' = h, ?m\<lparr>next_id := if h' = h then ?k + 5 else ?k + 4\<rparr>)"
    using Signature_verify_run [OF wf message_at_old [OF old assms(9)] h' holds, of j v] assms(2,6,7)
    by (simp add: verifies_with_def eval_nat_numeral)
  ultimately show ?thesis
    using free [of "if h' = h then ?k + 5 else ?k + 4"] h h' by (auto simp: prog_simps)
qed

text \<open>
  C1: A signature made by \<^verbatim>\<open>Signer_sign\<close> passes \<^verbatim>\<open>Signature_verify\<close> with a matching
  public key on a message exactly when that message has the same digest as the signed
  one, in particular on the signed message itself. Signing, verifying and releasing
  the signature leaves no block, key or context behind.
\<close>

theorem sign_verify_iff:
  fixes m :: "('k, 'z) node_state_scheme"
  assumes "wf_node m" and "\<forall>x. \<not> denied m x" and "sha256_digests ossl"
    and "pkeys m i = Some k" and "signs_with ossl k sign" and "pkeys m j = Some v" and "verifies_with ossl v sign"
    and "message_at m msg n d" and "message_at m msg' n' d'"
  shows "\<exists>used. bind (Signer_sign ossl (Some \<lparr>evpkey = Ptr i 0\<rparr>) msg n) (\<lambda>s.
      bind (Signature_verify ossl (Some s) (Ptr j 0) msg' n') (\<lambda>ok.
      bind (Signature_free (Some s)) (\<lambda>_. ret ok))) m =
    Ret (SHA256 ossl d' = SHA256 ossl d, m\<lparr>next_id := used\<rparr>)"
  using assms by (rule sign_then_verify)

theorem sign_verify_iff_witness:
  "\<exists>used. bind (Signer_sign sample_openssl (Some \<lparr>evpkey = Ptr 3 0\<rparr>) (Ptr 2 0) 0) (\<lambda>s.
      bind (Signature_verify sample_openssl (Some s) (Ptr 3 0) (Ptr 1 0) 32) (\<lambda>ok.
      bind (Signature_free (Some s)) (\<lambda>_. ret ok))) sample_node =
    Ret (False, sample_node\<lparr>next_id := used\<rparr>)"
proof -
  have "message_at sample_node (Ptr 2 0) 0 [104, 105]" "message_at sample_node (Ptr 1 0) 32 (replicate 32 5)"
    using sample_node_string sample_node_bytes by (simp_all add: message_at_def)
  moreover have "SHA256 sample_openssl (replicate 32 5) \<noteq> SHA256 sample_openssl [104, 105]"
    by (simp add: sample_digests)
  ultimately show ?thesis
    using sign_verify_iff [of sample_node sample_openssl 3 9 sample_sign 3 9 "Ptr 2 0" 0 "[104, 105]"
        "Ptr 1 0" 32 "replicate 32 5"] by simp
qed

lemma read_cells_short: "length bs < n \<Longrightarrow> read_cells n (map Some bs) = Fault Out_Of_Bounds"
  using read_cells_Some [of n bs "[]"] by (cases "n - length bs") simp_all

text \<open>
  C32: The header allows the length -1 for a string, but the parameter is unsigned:
  -1 arrives as 2^64 - 1, is not replaced by the length of the string, and the hash
  reads past the block of the message, whatever its size.
\<close>

theorem Signer_sign_minus_one:
  assumes "wf_node m" and "\<not> denied m (next_id m)" and "blocks m j = Some (a, map Some bs)" and "length bs < SIZE_MOD - 1"
  shows "Signer_sign ossl (Some s) (Ptr j 0) (SIZE_MOD - 1) m = Fault Out_Of_Bounds"
proof -
  have "j \<noteq> next_id m" using assms(3) wf_node_fresh(1) [OF assms(1), of "next_id m"] by auto
  then have "load (Ptr j 0) (SIZE_MOD - 1) (with_block Malloc cs m) = Fault Out_Of_Bounds" for cs
    using assms(3) read_cells_short [OF assms(4)] by (simp add: load_def cells_at_def prog_simps)
  then show ?thesis using assms(2,4) by (simp add: Signer_sign_def prog_simps new_block_steps(1) [where m = m])
qed

theorem Signer_sign_minus_one_witness:
  "Signer_sign sample_openssl (Some \<lparr>evpkey = Ptr 3 0\<rparr>) (Ptr 2 0) (SIZE_MOD - 1) sample_node = Fault Out_Of_Bounds"
  by (rule Signer_sign_minus_one [where a = Static and bs = "[104, 105, 0]"])
    (simp_all, simp add: sample_node_def)

section \<open>Raw keys\<close>

lemma get_raw_key_run:
  assumes "wf_node m" and "pkeys m i = Some k" and "length raw = 32"
    and "get k None = Some ([], 32)" and "get k (Some 32) = Some (raw, 32)"
  shows "get_raw_key get e (Some \<lparr>evpkey = Ptr i 0\<rparr>) m =
    (if denied m (next_id m)
     then Ret (\<lparr>rk_buffer = Some Null, rk_len = Some 32\<rparr>, m\<lparr>next_id := Suc (next_id m)\<rparr>)
     else Ret (\<lparr>rk_buffer = Some (Ptr (next_id m) 0), rk_len = Some 32\<rparr>, with_block Malloc (map Some raw) m))"
  using assms by (simp add: get_raw_key_def signer_is_ready_def prog_simps new_block_steps [where m = m])

lemma raw_to_evp_run:
  assumes "wf_mem m" and "length raw = 32" and "new (Some raw) = Some v" and "\<not> denied m (Suc (next_id m))"
  shows "raw_to_evp new \<lparr>rk_buffer = Some (Ptr (next_id m) 0), rk_len = Some 32\<rparr> (with_block Malloc (map Some raw) m) =
    Ret (Ptr (Suc (next_id m)) 0,
      (with_block Malloc (map Some raw) m)\<lparr>next_id := Suc (Suc (next_id m)), pkeys := (pkeys m)(Suc (next_id m) \<mapsto> v)\<rparr>)"
  using assms by (simp add: raw_to_evp_def prog_simps)

text \<open>
  C31: The raw public key of a signer, turned back into a key of the library and
  released, gives a new key object that holds the key the library makes of these raw
  bytes; the buffer of the raw key is gone afterwards.
\<close>

theorem public_key_roundtrip:
  assumes "wf_node m" and "\<forall>x. \<not> denied m x" and "pkeys m i = Some k" and "raw_public_is ossl k pub"
    and "EVP_PKEY_new_raw_public_key ossl (Some pub) = Some v"
  shows "bind (Signer_get_public_key ossl (Some \<lparr>evpkey = Ptr i 0\<rparr>)) (\<lambda>r.
      bind (RawCryptoKey_get_evp_public_key ossl r) (\<lambda>p.
      bind (RawCryptoKey_free (Some r)) (\<lambda>_. ret p))) m =
    Ret (Ptr (next_id m + 1) 0, m\<lparr>next_id := next_id m + 2, pkeys := (pkeys m)(next_id m + 1 \<mapsto> v)\<rparr>)"
proof -
  let ?r = "\<lparr>rk_buffer = Some (Ptr (next_id m) 0), rk_len = Some 32\<rparr>"
  let ?m = "(with_block Malloc (map Some pub) m)\<lparr>next_id := Suc (Suc (next_id m)), pkeys := (pkeys m)(Suc (next_id m) \<mapsto> v)\<rparr>"
  have pub: "length pub = 32" "EVP_PKEY_get_raw_public_key ossl k None = Some ([], 32)"
    "EVP_PKEY_get_raw_public_key ossl k (Some 32) = Some (pub, 32)"
    using assms(4) by (simp_all add: raw_public_is_def)
  have "RawCryptoKey_owns ?r ?m" by (simp add: RawCryptoKey_owns_def owns_block_def)
  moreover have "RawCryptoKey_drop ?r ?m = m\<lparr>next_id := next_id m + 2, pkeys := (pkeys m)(next_id m + 1 \<mapsto> v)\<rparr>"
    using wf_node_fresh(1) [OF assms(1), of "next_id m"]
    by (simp add: RawCryptoKey_drop_def drop_block_def with_block_def fun_upd_idem)
  ultimately obtain y where
    "RawCryptoKey_free (Some ?r) ?m = Ret (Some y, m\<lparr>next_id := next_id m + 2, pkeys := (pkeys m)(next_id m + 1 \<mapsto> v)\<rparr>)"
    using raw.destroy_owned by metis
  then show ?thesis
    using get_raw_key_run [where get = "EVP_PKEY_get_raw_public_key ossl", OF assms(1,3) pub] raw_to_evp_run [where new = "EVP_PKEY_new_raw_public_key ossl", OF wf_node_mem [OF assms(1)] pub(1) assms(5)] assms(2)
    by (simp add: Signer_get_public_key_def RawCryptoKey_get_evp_public_key_def prog_simps)
qed

theorem public_key_roundtrip_witness:
  "bind (Signer_get_public_key sample_openssl (Some \<lparr>evpkey = Ptr 3 0\<rparr>)) (\<lambda>r.
      bind (RawCryptoKey_get_evp_public_key sample_openssl r) (\<lambda>p.
      bind (RawCryptoKey_free (Some r)) (\<lambda>_. ret p))) sample_node =
    Ret (Ptr 5 0, sample_node\<lparr>next_id := 6, pkeys := (pkeys sample_node)(5 \<mapsto> 9)\<rparr>)"
  using public_key_roundtrip [of sample_node 3 9 sample_openssl "replicate 32 (of_nat 9)" 9]
    sample_openssl_promises(2) [of 9]
  by (simp add: sample_openssl_def [THEN arg_cong [where f = EVP_PKEY_new_raw_public_key]])



section \<open>Keys in files\<close>

text \<open>
  C30: A key saved with \<^verbatim>\<open>Signer_save_pem\<close> and read back with \<^verbatim>\<open>Signer_read_pem\<close>
  gives a signer with a new key object that holds the same key. The key object the
  reading signer had before is neither released nor referenced by it any more.
\<close>

theorem pem_roundtrip:
  assumes "pkeys m i = Some k" and "PEM_write_PrivateKey ossl k = Some bs" and "PEM_read_PrivateKey ossl bs = Some k"
    and "\<not> readonly m f" and "\<not> denied m (next_id m)"
  shows "bind (Signer_save_pem ossl (Some \<lparr>evpkey = Ptr i 0\<rparr>) f) (\<lambda>saved.
      bind (Signer_read_pem ossl (Some s) f) (\<lambda>(ok, s'). ret (saved, ok, s'))) m =
    Ret ((True, True, Some \<lparr>evpkey = Ptr (next_id m) 0\<rparr>),
      m\<lparr>next_id := Suc (next_id m), files := (files m)(f \<mapsto> bs), pkeys := (pkeys m)(next_id m \<mapsto> k)\<rparr>)"
  using assms by (cases s) (simp add: Signer_save_pem_def Signer_read_pem_def signer_is_ready_def prog_simps)

theorem pem_roundtrip_witness:
  "bind (Signer_save_pem sample_openssl (Some \<lparr>evpkey = Ptr 3 0\<rparr>) ''key.pem'') (\<lambda>saved.
      bind (Signer_read_pem sample_openssl (Some \<lparr>evpkey = Ptr 3 0\<rparr>) ''key.pem'') (\<lambda>(ok, s'). ret (saved, ok, s'))) sample_node =
    Ret ((True, True, Some \<lparr>evpkey = Ptr 4 0\<rparr>),
      sample_node\<lparr>next_id := 5, files := (files sample_node)(''key.pem'' \<mapsto> replicate 9 65),
        pkeys := (pkeys sample_node)(4 \<mapsto> 9)\<rparr>)"
  using pem_roundtrip [of sample_node 3 9 sample_openssl "replicate 9 65" "''key.pem''" "\<lparr>evpkey = Ptr 3 0\<rparr>"]
  by (simp add: sample_openssl_def [THEN arg_cong [where f = PEM_write_PrivateKey]]
      sample_openssl_def [THEN arg_cong [where f = PEM_read_PrivateKey]] sample_node_def [THEN arg_cong [where f = readonly]])

end
