(* ===== verification/Radix.thy ===== *)
theory Radix
  imports C_Base
begin

text \<open>
  Positional numerals. Base58 text, byte strings, the 32-bit limbs of the decoder
  and the decimal and hexadecimal printers of the test framework are all digit
  lists, most significant digit first; \<open>radix_val b ds\<close> is the number that
  the list denotes. The locale \<open>radix\<close> gathers what any base above 1 promises
  (bounds, uniqueness of fixed-length representations, the effect of leading
  zeros) and is interpreted for every base the program works in.
\<close>

definition radix_val :: "nat \<Rightarrow> nat list \<Rightarrow> nat" where
  "radix_val b ds = foldl (\<lambda>a d. a * b + d) 0 ds"

definition digits_ok :: "nat \<Rightarrow> nat list \<Rightarrow> bool" where
  "digits_ok b ds \<longleftrightarrow> (\<forall>d \<in> set ds. d < b)"

text \<open>The canonical digits of a number (none for 0), and its last \<open>n\<close> digits.\<close>

fun radix_digits :: "nat \<Rightarrow> nat \<Rightarrow> nat list" where
  "radix_digits b n = (if b < 2 \<or> n = 0 then [] else radix_digits b (n div b) @ [n mod b])"

declare radix_digits.simps [simp del]

fun radix_fixed :: "nat \<Rightarrow> nat \<Rightarrow> nat \<Rightarrow> nat list" where
  "radix_fixed b 0 n = []"
| "radix_fixed b (Suc k) n = radix_fixed b k (n div b) @ [n mod b]"

lemma foldl_radix: "foldl (\<lambda>a d. a * b + d) n ds = n * b ^ length ds + radix_val b ds"
proof (induction ds arbitrary: n)
  case Nil
  show ?case by (simp add: radix_val_def)
next
  case (Cons d ds)
  have "foldl (\<lambda>a d. a * b + d) n (d # ds) = (n * b + d) * b ^ length ds + radix_val b ds"
    by (simp add: Cons.IH)
  moreover have "radix_val b (d # ds) = d * b ^ length ds + radix_val b ds"
    using Cons.IH [of d] by (simp add: radix_val_def)
  ultimately show ?case by (simp add: algebra_simps)
qed

lemma radix_val_Nil [simp]: "radix_val b [] = 0"
  by (simp add: radix_val_def)

lemma radix_val_Cons [simp]: "radix_val b (d # ds) = d * b ^ length ds + radix_val b ds"
  using foldl_radix [of b d ds] by (simp add: radix_val_def)

lemma radix_val_append: "radix_val b (xs @ ys) = radix_val b xs * b ^ length ys + radix_val b ys"
  by (induction xs) (simp_all add: power_add algebra_simps)

lemma radix_val_snoc: "radix_val b (xs @ [d]) = radix_val b xs * b + d"
  by (simp add: radix_val_append)

lemma radix_val_replicate_0 [simp]: "radix_val b (replicate n 0) = 0"
  by (induction n) simp_all

lemma radix_val_leading [simp]: "radix_val b (replicate n 0 @ ds) = radix_val b ds"
  by (simp add: radix_val_append)

lemma digits_ok_simps [simp]:
  "digits_ok b []"
  "digits_ok b (d # ds) \<longleftrightarrow> d < b \<and> digits_ok b ds"
  "digits_ok b (xs @ ys) \<longleftrightarrow> digits_ok b xs \<and> digits_ok b ys"
  by (auto simp: digits_ok_def)

lemma digits_ok_replicate [simp]: "digits_ok b (replicate n d) \<longleftrightarrow> n = 0 \<or> d < b"
  by (auto simp: digits_ok_def)

lemma digits_ok_take: "digits_ok b ds \<Longrightarrow> digits_ok b (take n ds)"
  by (auto simp: digits_ok_def dest: in_set_takeD)

lemma digits_ok_drop: "digits_ok b ds \<Longrightarrow> digits_ok b (drop n ds)"
  by (auto simp: digits_ok_def dest: in_set_dropD)

lemma digits_ok_bytes [simp]: "digits_ok 256 (map unat (xs :: byte list))"
  by (auto simp: digits_ok_def)

lemma digits_ok_u32 [simp]: "digits_ok 4294967296 (map unat (xs :: u32 list))"
  by (auto simp: digits_ok_def)

lemma map_unat_of_nat_bytes [simp]: "digits_ok 256 ds \<Longrightarrow> map (unat \<circ> (of_nat :: nat \<Rightarrow> byte)) ds = ds"
  by (induction ds) (simp_all add: unat_of_nat_byte)

lemma map_unat_of_nat_u32 [simp]: "digits_ok 4294967296 ds \<Longrightarrow> map (unat \<circ> (of_nat :: nat \<Rightarrow> u32)) ds = ds"
  by (induction ds) (simp_all add: unat_of_nat_u32)

locale radix =
  fixes base :: nat
  assumes base_gt_1: "1 < base"
begin

lemma val_bound: "digits_ok base ds \<Longrightarrow> radix_val base ds < base ^ length ds"
proof (induction ds)
  case Nil
  show ?case by simp
next
  case (Cons d ds)
  then have "radix_val base ds < base ^ length ds" and "Suc d \<le> base" by simp_all
  then have "d * base ^ length ds + radix_val base ds < Suc d * base ^ length ds" by simp
  also have "\<dots> \<le> base * base ^ length ds" using \<open>Suc d \<le> base\<close> by (rule mult_le_mono1)
  finally show ?case by simp
qed

lemma val_inj:
  assumes "digits_ok base xs" "digits_ok base ys" "length xs = length ys"
    and "radix_val base xs = radix_val base ys"
  shows "xs = ys"
  using assms(3,1,2,4)
proof (induction xs ys rule: list_induct2)
  case Nil
  show ?case by simp
next
  case (Cons x xs y ys)
  let ?B = "base ^ length ys"
  have bx: "radix_val base xs < ?B" and bY: "radix_val base ys < ?B"
    using Cons.prems Cons.hyps val_bound [of xs] val_bound [of ys] by simp_all
  have eq: "x * ?B + radix_val base xs = y * ?B + radix_val base ys"
    using Cons.prems Cons.hyps by simp
  have pos: "0 < ?B" using base_gt_1 by simp
  from eq have "(x * ?B + radix_val base xs) div ?B = (y * ?B + radix_val base ys) div ?B" by simp
  then have "x = y" using bx bY pos by simp
  with eq Cons show ?case by simp
qed

lemma val_ge: "ds \<noteq> [] \<Longrightarrow> hd ds \<noteq> 0 \<Longrightarrow> base ^ (length ds - 1) \<le> radix_val base ds"
  by (cases ds) (auto simp: trans_le_add1)

lemma val_zero_iff: "radix_val base ds = 0 \<longleftrightarrow> (\<forall>d \<in> set ds. d = 0)"
  using base_gt_1 by (induction ds) auto

lemma hd_zero: "ds \<noteq> [] \<Longrightarrow> radix_val base ds < base ^ (length ds - 1) \<Longrightarrow> hd ds = 0"
  using val_ge [of ds] by (meson leD)

text \<open>Without leading zeros the representation is unique whatever the length.\<close>

lemma val_inj_canonical:
  assumes "digits_ok base xs" "digits_ok base ys"
    and "xs \<noteq> [] \<Longrightarrow> hd xs \<noteq> 0" "ys \<noteq> [] \<Longrightarrow> hd ys \<noteq> 0"
    and "radix_val base xs = radix_val base ys"
  shows "xs = ys"
proof -
  have le: "length us \<le> length vs"
    if "digits_ok base us" "digits_ok base vs" "us \<noteq> [] \<Longrightarrow> hd us \<noteq> 0"
      and eq: "radix_val base us = radix_val base vs" for us vs
  proof (cases "us = []")
    case False
    then have "base ^ (length us - 1) \<le> radix_val base us" using that(3) by (intro val_ge)
    also have "\<dots> < base ^ length vs" using eq val_bound that by simp
    finally have "length us - 1 < length vs"
      using base_gt_1 by (simp add: power_strict_increasing_iff)
    then show ?thesis by simp
  qed simp
  have "length xs = length ys"
    using le [of xs ys] le [of ys xs] assms by (intro antisym) auto
  with assms show ?thesis by (blast intro: val_inj)
qed

lemma digits_unfold: "radix_digits base n = (if n = 0 then [] else radix_digits base (n div base) @ [n mod base])"
  using base_gt_1 by (subst radix_digits.simps) simp

lemma digits_0 [simp]: "radix_digits base 0 = []"
  by (simp add: digits_unfold)

lemma digits_val [simp]: "radix_val base (radix_digits base n) = n"
proof (induction n rule: less_induct)
  case (less n)
  show ?case
  proof (cases "n = 0")
    case False
    then have "n div base < n" using base_gt_1 by simp
    then show ?thesis using False less by (simp add: digits_unfold [of n] radix_val_snoc)
  qed simp
qed

lemma digits_digits_ok [simp]: "digits_ok base (radix_digits base n)"
proof (induction n rule: less_induct)
  case (less n)
  show ?case
  proof (cases "n = 0")
    case False
    then have "n div base < n" using base_gt_1 by simp
    then show ?thesis using False less base_gt_1 by (simp add: digits_unfold [of n])
  qed simp
qed

lemma digits_hd: "n \<noteq> 0 \<Longrightarrow> radix_digits base n \<noteq> [] \<and> hd (radix_digits base n) \<noteq> 0"
proof (induction n rule: less_induct)
  case (less n)
  show ?case
  proof (cases "n div base = 0")
    case True
    then have "n mod base = n" using base_gt_1 by (simp add: div_eq_0_iff)
    then show ?thesis using True less.prems by (simp add: digits_unfold [of n])
  next
    case False
    then have "n div base < n" using base_gt_1 less.prems by simp
    then show ?thesis using False less by (simp add: digits_unfold [of n])
  qed
qed

lemma digits_nonempty_hd: "radix_digits base n \<noteq> [] \<Longrightarrow> hd (radix_digits base n) \<noteq> 0"
  using digits_hd [of n] by (cases "n = 0") auto

lemma digits_of_val:
  assumes "digits_ok base ds" and "ds \<noteq> [] \<Longrightarrow> hd ds \<noteq> 0"
  shows "radix_digits base (radix_val base ds) = ds"
  using assms digits_nonempty_hd by (intro val_inj_canonical) auto

lemma digits_length_le: "n < base ^ k \<Longrightarrow> length (radix_digits base n) \<le> k"
proof (cases "n = 0")
  case False
  assume "n < base ^ k"
  have "base ^ (length (radix_digits base n) - 1) \<le> n"
    using val_ge [of "radix_digits base n"] digits_hd [OF False] by simp
  also note \<open>n < base ^ k\<close>
  finally have "length (radix_digits base n) - 1 < k"
    using base_gt_1 by (simp add: power_strict_increasing_iff)
  then show ?thesis by simp
qed simp

lemma fixed_length [simp]: "length (radix_fixed base k n) = k"
  by (induction k arbitrary: n) simp_all

lemma fixed_digits_ok [simp]: "digits_ok base (radix_fixed base k n)"
  using base_gt_1 by (induction k arbitrary: n) simp_all

lemma fixed_val: "radix_val base (radix_fixed base k n) = n mod base ^ k"
  by (induction k arbitrary: n) (simp_all add: radix_val_snoc mod_mult2_eq mult.commute)

lemma fixed_of_val:
  assumes "digits_ok base ds"
  shows "radix_fixed base (length ds) (radix_val base ds) = ds"
  using assms val_bound [OF assms] by (intro val_inj) (simp_all add: fixed_val)

end

interpretation r58: radix 58
  by unfold_locales simp

interpretation r256: radix 256
  by unfold_locales simp

interpretation r32: radix 4294967296
  by unfold_locales simp

interpretation r10: radix 10
  by unfold_locales simp

interpretation r16: radix 16
  by unfold_locales simp

section \<open>Decimal numerals\<close>

definition digit_char :: "nat \<Rightarrow> byte" where
  "digit_char d = of_nat (48 + d)"

text \<open>The decimal numeral of a number, without leading zeros.\<close>

definition decimal :: "nat \<Rightarrow> byte list" where
  "decimal n = (if n = 0 then [48] else map digit_char (radix_digits 10 n))"

lemma unat_digit_char: "d < 10 \<Longrightarrow> unat (digit_char d) = 48 + d"
  by (simp add: digit_char_def unat_of_nat del: of_nat_add)

end
