(* ===== verification/Base58.thy ===== *)
theory Base58
  imports Radix
begin

text \<open>
  The base58 codec of \<^verbatim>\<open>src_c/client-node/address/base58.c\<close>: the encoder
  \<open>b58enc\<close>, the decoder \<open>b58tobin\<close> and the checksummed variants
  \<open>b58check\<close> and \<open>b58check_enc\<close>. Buffers are byte lists. A function that
  writes through a pointer returns the new contents of the buffer, and one that
  updates a size through a pointer returns the new size. The SHA-256
  implementation is installed at run time through a function pointer that starts
  as NULL; here it is the optional argument \<open>impl\<close>.
\<close>

section \<open>Alphabet\<close>

definition b58digits_map :: "int list" where
  "b58digits_map =
    [-1,-1,-1,-1,-1,-1,-1,-1, -1,-1,-1,-1,-1,-1,-1,-1,
     -1,-1,-1,-1,-1,-1,-1,-1, -1,-1,-1,-1,-1,-1,-1,-1,
     -1,-1,-1,-1,-1,-1,-1,-1, -1,-1,-1,-1,-1,-1,-1,-1,
     -1, 0, 1, 2, 3, 4, 5, 6,  7, 8,-1,-1,-1,-1,-1,-1,
     -1, 9,10,11,12,13,14,15, 16,-1,17,18,19,20,21,-1,
     22,23,24,25,26,27,28,29, 30,31,32,-1,-1,-1,-1,-1,
     -1,33,34,35,36,37,38,39, 40,41,42,43,-1,44,45,46,
     47,48,49,50,51,52,53,54, 55,56,57,-1,-1,-1,-1,-1]"

definition b58digits_ordered :: "byte list" where
  "b58digits_ordered = bytes_of ''123456789ABCDEFGHJKLMNPQRSTUVWXYZabcdefghijkmnopqrstuvwxyz''"

definition b58_almostmaxint_mask :: u32 where
  "b58_almostmaxint_mask = ucast ((push_bit 32 1 :: u64) - 1)"

section \<open>Encoder\<close>

text \<open>
  The inner loop of \<^verbatim>\<open>b58enc\<close> adds one byte to the number held in
  \<open>buf\<close>: from the last digit towards the front it multiplies by 256 and
  carries, until it is past \<open>high\<close> and the carry is used up. The result is
  the buffer and the index at which the loop stopped.
\<close>

fun b58enc_carry :: "byte list \<Rightarrow> nat \<Rightarrow> nat \<Rightarrow> nat \<Rightarrow> byte list \<times> nat" where
  "b58enc_carry buf carry j high =
     (if high < j \<or> carry \<noteq> 0 then
        let carry1 = carry + 256 * unat (buf ! j);
            buf1 = buf[j := of_nat (carry1 mod 58)]
        in if j = 0 then (buf1, j) else b58enc_carry buf1 (carry1 div 58) (j - 1) high
      else (buf, j))"

declare b58enc_carry.simps [simp del]

fun b58enc_bytes :: "byte list \<Rightarrow> byte list \<Rightarrow> nat \<Rightarrow> byte list" where
  "b58enc_bytes [] buf high = buf"
| "b58enc_bytes (b # bs) buf high =
     (let (buf1, j) = b58enc_carry buf (unat b) (length buf - 1) high
      in b58enc_bytes bs buf1 j)"

definition b58enc_size :: "nat \<Rightarrow> nat" where
  "b58enc_size n = (n * 138 mod SIZE_MOD) div 100 + 1"

definition b58enc :: "byte list \<Rightarrow> nat \<Rightarrow> byte list \<Rightarrow> nat \<Rightarrow> (bool \<times> byte list \<times> nat) outcome" where
  "b58enc b58 b58sz data binsz =
     (if length data < binsz then Fault Out_Of_Bounds
      else
        let bin = take binsz data;
            zcount = length (takeWhile (\<lambda>x. x = 0) bin);
            size = b58enc_size (binsz - zcount);
            buf = b58enc_bytes (drop zcount bin) (replicate size 0) (size - 1);
            j = length (takeWhile (\<lambda>x. x = 0) buf)
        in if b58sz \<le> zcount + size - j then Ret (False, b58, zcount + size - j + 1)
           else bind_o (array_write b58 0
                   (replicate zcount 49 @ map (\<lambda>d. b58digits_ordered ! unat d) (drop j buf) @ [0]))
                 (\<lambda>b58'. Ret (True, b58', zcount + (size - j) + 1)))"

section \<open>Decoder\<close>

text \<open>Leading \<^verbatim>\<open>'1'\<close> characters among the next \<open>n\<close>.\<close>

fun b58tobin_ones :: "nat \<Rightarrow> byte list \<Rightarrow> nat outcome" where
  "b58tobin_ones 0 xs = Ret 0"
| "b58tobin_ones (Suc n) xs =
     (case xs of
        [] \<Rightarrow> Fault Out_Of_Bounds
      | x # xs' \<Rightarrow> if x = 49 then bind_o (b58tobin_ones n xs') (\<lambda>k. Ret (Suc k)) else Ret 0)"

text \<open>The loop over \<open>outi\<close> from its last limb to its first: multiply by 58 and add.\<close>

fun b58tobin_mac :: "nat \<Rightarrow> u32 list \<Rightarrow> u32 \<Rightarrow> u32 list \<times> u32" where
  "b58tobin_mac 0 outi c = (outi, c)"
| "b58tobin_mac (Suc j) outi c =
     (let t = (ucast (outi ! j) :: u64) * 58 + ucast c
      in b58tobin_mac j (outi[j := ucast (t AND ucast b58_almostmaxint_mask)]) (ucast (drop_bit 32 t)))"

text \<open>The loop over the remaining \<open>n\<close> characters; \<open>None\<close> is \<^verbatim>\<open>return false\<close>.\<close>

fun b58tobin_digits :: "nat \<Rightarrow> byte list \<Rightarrow> u32 \<Rightarrow> u32 list \<Rightarrow> u32 list option outcome" where
  "b58tobin_digits 0 xs zeromask outi = Ret (Some outi)"
| "b58tobin_digits (Suc n) xs zeromask outi =
     (case xs of
        [] \<Rightarrow> Fault Out_Of_Bounds
      | x # xs' \<Rightarrow>
          if x AND 128 \<noteq> 0 then Ret None
          else if b58digits_map ! unat x = -1 then Ret None
          else
            let (outi1, c) = b58tobin_mac (length outi) outi (word_of_int (b58digits_map ! unat x))
            in if c \<noteq> 0 then Ret None
               else if outi1 ! 0 AND zeromask \<noteq> 0 then Ret None
               else b58tobin_digits n xs' zeromask outi1)"

text \<open>The low \<open>k\<close> bytes of a limb, most significant first.\<close>

definition limb_bytes :: "nat \<Rightarrow> u32 \<Rightarrow> byte list" where
  "limb_bytes k w = map (\<lambda>i. ucast (drop_bit (8 * (i - 1)) w AND 255)) (rev [1..<Suc k])"

definition b58tobin_bytes :: "nat \<Rightarrow> u32 list \<Rightarrow> byte list" where
  "b58tobin_bytes bytesleft outi =
     (if bytesleft \<noteq> 0 then limb_bytes bytesleft (outi ! 0) @ concat (map (limb_bytes 4) (drop 1 outi))
      else concat (map (limb_bytes 4) outi))"

definition b58tobin :: "byte list \<Rightarrow> nat \<Rightarrow> byte list \<Rightarrow> nat \<Rightarrow> (bool \<times> byte list \<times> nat) outcome" where
  "b58tobin bin binsz b58 b58sz0 =
     (let outisz = (binsz + 4 - 1) div 4;
          bytesleft = binsz mod 4;
          zeromask = (if bytesleft \<noteq> 0 then push_bit (bytesleft * 8) b58_almostmaxint_mask else 0)
      in if outisz = 0 then Fault Out_Of_Bounds
         else bind_o (if b58sz0 = 0 then strlen_array b58 else Ret b58sz0) (\<lambda>b58sz.
           bind_o (b58tobin_ones b58sz b58) (\<lambda>i.
           bind_o (b58tobin_digits (b58sz - i) (drop i b58) zeromask (replicate outisz 0)) (\<lambda>r.
             case r of
               None \<Rightarrow> Ret (False, bin, binsz)
             | Some outi \<Rightarrow>
                 bind_o (array_write bin 0 (b58tobin_bytes bytesleft outi)) (\<lambda>bin'.
                   Ret (True, bin',
                        binsz - length (takeWhile (\<lambda>x. x = 0) (take binsz bin')) + i mod 2 ^ 32))))))"

section \<open>Checksummed variants\<close>

type_synonym sha256_impl = "byte list \<Rightarrow> byte list option"

definition my_dblsha256 :: "sha256_impl option \<Rightarrow> byte list \<Rightarrow> byte list option outcome" where
  "my_dblsha256 impl data =
     (case impl of
        None \<Rightarrow> Fault Null_Pointer
      | Some f \<Rightarrow> Ret (case f data of None \<Rightarrow> None | Some buf \<Rightarrow> f buf))"

text \<open>The loop of \<^verbatim>\<open>b58check\<close> that finds the end of the zeros, reading both arrays from index \<open>i\<close>.\<close>

fun b58check_zeros :: "byte list \<Rightarrow> byte list \<Rightarrow> nat \<Rightarrow> nat outcome" where
  "b58check_zeros [] ss i = Fault Out_Of_Bounds"
| "b58check_zeros (b # bs) ss i =
     (if b \<noteq> 0 then Ret i
      else case ss of
             [] \<Rightarrow> Fault Out_Of_Bounds
           | s # ss' \<Rightarrow> if s = 49 then b58check_zeros bs ss' (Suc i) else Ret i)"

definition b58check :: "sha256_impl option \<Rightarrow> byte list \<Rightarrow> nat \<Rightarrow> byte list \<Rightarrow> int outcome" where
  "b58check impl bin binsz base58str =
     (if binsz < 4 then Ret (-4)
      else if length bin < binsz then Fault Out_Of_Bounds
      else bind_o (my_dblsha256 impl (take (binsz - 4) bin)) (\<lambda>h.
        case h of
          None \<Rightarrow> Ret (-2)
        | Some buf \<Rightarrow>
            if take 4 (drop (binsz - 4) bin) \<noteq> take 4 buf then Ret (-1)
            else bind_o (b58check_zeros bin base58str 0) (\<lambda>i.
              if bin ! i = 0 then Ret (-3)
              else bind_o (array_read base58str i) (\<lambda>c.
                if c = 49 then Ret (-3) else Ret (uint (bin ! 0))))))"

definition b58check_enc ::
  "sha256_impl option \<Rightarrow> byte list \<Rightarrow> nat \<Rightarrow> byte \<Rightarrow> byte list \<Rightarrow> nat \<Rightarrow> (bool \<times> byte list \<times> nat) outcome" where
  "b58check_enc impl b58c b58c_sz ver data datasz =
     (if length data < datasz then Fault Out_Of_Bounds
      else
        let payload = ver # take datasz data
        in bind_o (my_dblsha256 impl payload) (\<lambda>h.
             case h of
               None \<Rightarrow> Ret (False, b58c, 0)
             | Some hash \<Rightarrow> b58enc b58c b58c_sz (payload @ hash) (1 + datasz + 4)))"

end
