(* ===== verification/Base58_Encoding.thy ===== *)
theory Base58_Encoding
  imports Base58
begin

text \<open>
  Correctness of the encoder \<open>b58enc\<close> against the reference text
  \<open>b58_text\<close>: one \<^verbatim>\<open>'1'\<close> for every leading zero byte, then the
  canonical base-58 digits of the number the bytes denote. The lemmas show that
  the in-place carry loop with its \<^verbatim>\<open>high\<close> cut-off computes the same
  digits as a full multiplication, that the scratch buffer of
  \<open>n * 138 / 100 + 1\<close> digits never loses a carry, and that the encoder
  refuses a short output buffer without writing to it.
\<close>

section \<open>Reference text\<close>

definition b58_zeros :: "byte list \<Rightarrow> nat" where
  "b58_zeros bin = length (takeWhile (\<lambda>x. x = 0) bin)"

definition b58_text :: "byte list \<Rightarrow> byte list" where
  "b58_text bin = replicate (b58_zeros bin) 49 @
     map (\<lambda>d. b58digits_ordered ! d) (radix_digits 58 (radix_val 256 (map unat bin)))"

lemma radix_val_dropWhile_0 [simp]:
  "radix_val b (map unat (dropWhile (\<lambda>x. x = 0) xs)) = radix_val b (map unat (xs :: byte list))"
  by (induction xs) auto

lemma digits_ok_dropWhile: "digits_ok b (map unat xs) \<Longrightarrow> digits_ok b (map unat (dropWhile P xs))"
  by (auto simp: digits_ok_def dest: set_dropWhileD)

lemma hd_dropWhile_0: "dropWhile (\<lambda>x. x = 0) xs \<noteq> [] \<Longrightarrow> unat (hd (dropWhile (\<lambda>x. x = 0) xs)) \<noteq> 0"
  using hd_dropWhile [of "\<lambda>x. x = 0" xs] by (simp add: unsigned_eq_0_iff)

section \<open>The carry loop\<close>

lemma digits58_nth: "digits_ok 58 (map unat buf) \<Longrightarrow> j < length buf \<Longrightarrow> unat (buf ! j) < 58"
  by (auto simp: digits_ok_def)

lemma digits58_update:
  "digits_ok 58 (map unat (buf :: byte list)) \<Longrightarrow> j < length buf \<Longrightarrow>
   digits_ok 58 (map unat (buf[j := of_nat (n mod 58)]))"
  by (auto simp: digits_ok_def unat_of_nat_byte dest!: set_update_subset_insert [THEN subsetD])

lemma b58enc_carry_stop: "j \<le> high \<Longrightarrow> b58enc_carry buf 0 j high = (buf, j)"
  by (simp add: b58enc_carry.simps)

lemma b58enc_carry_0:
  "carry \<noteq> 0 \<Longrightarrow> b58enc_carry buf carry 0 high = (buf[0 := of_nat ((carry + 256 * unat (buf ! 0)) mod 58)], 0)"
  by (simp add: b58enc_carry.simps Let_def)

lemma b58enc_carry_Suc:
  "high < Suc k \<or> carry \<noteq> 0 \<Longrightarrow>
   b58enc_carry buf carry (Suc k) high =
     b58enc_carry (buf[Suc k := of_nat ((carry + 256 * unat (buf ! Suc k)) mod 58)])
       ((carry + 256 * unat (buf ! Suc k)) div 58) k high"
  by (simp add: b58enc_carry.simps [of buf carry "Suc k"] Let_def)

text \<open>
  What one run of the carry loop guarantees, if the new number fits into the digits
  up to \<open>j\<close>: the digits after \<open>j\<close> are kept, those up to \<open>j\<close> denote
  the new number, and the digits up to the stopping index are zero unless the loop
  ran into index 0.
\<close>

definition carry_post :: "byte list \<Rightarrow> nat \<Rightarrow> nat \<Rightarrow> byte list \<Rightarrow> nat \<Rightarrow> bool" where
  "carry_post buf carry j buf' j' \<longleftrightarrow>
     length buf' = length buf \<and> digits_ok 58 (map unat buf') \<and> drop (Suc j) buf' = drop (Suc j) buf
     \<and> radix_val 58 (map unat (take (Suc j) buf')) = radix_val 58 (map unat (take (Suc j) buf)) * 256 + carry
     \<and> j' \<le> j \<and> (j' \<noteq> 0 \<longrightarrow> (\<forall>i \<le> j'. buf' ! i = 0))"

lemma carry_post_stop:
  assumes "j < length buf" "digits_ok 58 (map unat buf)" "\<And>i. i \<le> j \<Longrightarrow> buf ! i = 0"
  shows "carry_post buf 0 j buf j"
proof -
  have "\<forall>x \<in> set (take (Suc j) buf). x = 0"
    using assms(1,3) by (auto simp: in_set_conv_nth)
  then have "radix_val 58 (map unat (take (Suc j) buf)) = 0"
    by (auto simp: r58.val_zero_iff)
  with assms show ?thesis by (simp add: carry_post_def)
qed

lemma carry_post_Suc:
  assumes len: "Suc k < length buf"
    and c: "c = carry + 256 * unat (buf ! Suc k)"
    and post: "carry_post (buf[Suc k := of_nat (c mod 58)]) (c div 58) k buf' j'"
  shows "carry_post buf carry (Suc k) buf' j'"
proof -
  let ?V = "radix_val 58 (map unat (take (Suc k) buf))"
  have l: "length buf' = length buf" and d: "drop (Suc k) buf' = of_nat (c mod 58) # drop (Suc (Suc k)) buf"
    using post len by (simp_all add: carry_post_def drop_update_swap Cons_nth_drop_Suc [symmetric])
  then have nth: "buf' ! Suc k = of_nat (c mod 58)" and d': "drop (Suc (Suc k)) buf' = drop (Suc (Suc k)) buf"
    using len by (simp_all add: Cons_nth_drop_Suc [symmetric])
  have "radix_val 58 (map unat (take (Suc (Suc k)) buf')) = (?V * 256 + c div 58) * 58 + c mod 58"
    using post len l nth by (simp add: carry_post_def take_Suc_snoc [of "Suc k"] radix_val_snoc unat_of_nat_byte)
  also have "\<dots> = radix_val 58 (map unat (take (Suc (Suc k)) buf)) * 256 + carry"
    using len c by (simp add: take_Suc_snoc [of "Suc k" buf] radix_val_snoc algebra_simps)
  finally show ?thesis using post l d' by (simp add: carry_post_def)
qed

lemma b58enc_carry_correct:
  assumes "b58enc_carry buf carry j high = (buf', j')"
    and "j < length buf" and "digits_ok 58 (map unat buf)"
    and "\<And>i. i \<le> j \<Longrightarrow> i \<le> high \<Longrightarrow> buf ! i = 0"
    and "radix_val 58 (map unat (take (Suc j) buf)) * 256 + carry < 58 ^ Suc j"
  shows "carry_post buf carry j buf' j'"
  using assms
proof (induction j arbitrary: buf carry)
  case 0
  show ?case
  proof (cases "carry = 0")
    case True
    with 0 show ?thesis using carry_post_stop [of 0 buf] by (simp add: b58enc_carry_stop)
  next
    case False
    let ?c = "carry + 256 * unat (buf ! 0)"
    have "?c < 58" using 0 by (simp add: take_Suc_snoc)
    with 0 False digits58_update [of buf 0 ?c] show ?thesis
      by (auto simp: b58enc_carry_0 carry_post_def take_Suc_snoc unat_of_nat_byte)
  qed
next
  case (Suc k)
  show ?case
  proof (cases "high < Suc k \<or> carry \<noteq> 0")
    case False
    with Suc.prems show ?thesis using carry_post_stop [of "Suc k" buf] by (simp add: b58enc_carry_stop)
  next
    case True
    let ?c = "carry + 256 * unat (buf ! Suc k)"
    let ?b = "buf[Suc k := of_nat (?c mod 58)]"
    have "58 * (radix_val 58 (map unat (take (Suc k) buf)) * 256 + ?c div 58)
        \<le> radix_val 58 (map unat (take (Suc (Suc k)) buf)) * 256 + carry"
      using Suc.prems(2) by (simp add: take_Suc_snoc [of "Suc k"] radix_val_snoc algebra_simps)
    also have "\<dots> < 58 * 58 ^ Suc k" using Suc.prems(5) by simp
    finally have "carry_post ?b (?c div 58) k buf' j'"
      using Suc.IH [of ?b "?c div 58"] Suc.prems True digits58_update [of buf "Suc k" ?c]
      by (simp add: b58enc_carry_Suc)
    with Suc.prems(2) show ?thesis by (rule carry_post_Suc [OF _ refl])
  qed
qed

section \<open>The loop over the bytes\<close>

lemma b58enc_bytes_correct:
  assumes "digits_ok 58 (map unat buf)" and "buf \<noteq> []"
    and "\<And>i. i < length buf \<Longrightarrow> i \<le> high \<Longrightarrow> buf ! i = 0"
    and "radix_val 58 (map unat buf) * 256 ^ length bs + radix_val 256 (map unat bs) < 58 ^ length buf"
  shows "length (b58enc_bytes bs buf high) = length buf
    \<and> digits_ok 58 (map unat (b58enc_bytes bs buf high))
    \<and> radix_val 58 (map unat (b58enc_bytes bs buf high)) =
        radix_val 58 (map unat buf) * 256 ^ length bs + radix_val 256 (map unat bs)"
  using assms
proof (induction bs arbitrary: buf high)
  case Nil
  then show ?case by simp
next
  case (Cons b bs)
  let ?V = "radix_val 58 (map unat buf)"
  let ?N = "?V * 256 + unat b"
  obtain buf' j' where run: "b58enc_carry buf (unat b) (length buf - 1) high = (buf', j')"
    by fastforce
  have total: "?N * 256 ^ length bs + radix_val 256 (map unat bs) < 58 ^ length buf"
    using Cons.prems(4) by (simp add: algebra_simps)
  have "?N \<le> ?N * 256 ^ length bs" by simp
  then have fits: "?N < 58 ^ length buf" using total by linarith
  have post: "carry_post buf (unat b) (length buf - 1) buf' j'"
  proof (rule b58enc_carry_correct [OF run])
    show "buf ! i = 0" if "i \<le> length buf - 1" "i \<le> high" for i
      using that Cons.prems(2) by (intro Cons.prems(3)) (cases buf, auto)
  qed (use Cons.prems(1,2) fits in simp_all)
  then have len: "length buf' = length buf" and ok: "digits_ok 58 (map unat buf')"
    and val: "radix_val 58 (map unat buf') = ?N"
    using Cons.prems(2) by (auto simp: carry_post_def)
  show ?case
  proof (cases bs)
    case Nil
    then show ?thesis using run len ok val by simp
  next
    case (Cons b' bs')
    have "(256::nat) \<le> 256 ^ length bs" using Cons by simp
    then have "?N * 256 \<le> ?N * 256 ^ length bs" by (rule mult_le_mono2)
    then have "?N * 256 < 58 * 58 ^ (length buf - 1)"
      using total Cons.prems(2) by (cases buf) (simp_all del: mult_le_cancel1 mult_le_cancel2)
    then have "?N < 58 ^ (length buf - 1)" by simp
    then have "hd (map unat buf') = 0"
      using val len Cons.prems(2) by (intro r58.hd_zero) auto
    then have "buf' ! 0 = 0"
      using len Cons.prems(2) by (cases buf') (auto simp: unsigned_eq_0_iff)
    then have "\<And>i. i < length buf' \<Longrightarrow> i \<le> j' \<Longrightarrow> buf' ! i = 0"
      using post by (cases "j' = 0") (auto simp: carry_post_def)
    moreover have "buf' \<noteq> []" using len Cons.prems(2) by auto
    ultimately show ?thesis
      using Cons.IH [of buf' j'] ok len val total Cons.prems(2) run by (auto simp: algebra_simps)
  qed
qed

section \<open>The scratch buffer is large enough\<close>

lemma pow256_le_pow58:
  assumes "137 * n \<le> 100 * m"
  shows "(256::nat) ^ n \<le> 58 ^ m"
proof -
  have "((256::nat) ^ n) ^ 100 = (256 ^ 100) ^ n" by (simp only: power_mult [symmetric] mult.commute)
  also have "\<dots> \<le> (58 ^ 137) ^ n" by (rule power_mono) simp_all
  also have "\<dots> = 58 ^ (137 * n)" by (simp only: power_mult [symmetric])
  also have "\<dots> \<le> 58 ^ (100 * m)" using assms by (intro power_increasing) simp_all
  also have "\<dots> = (58 ^ m) ^ 100" by (simp only: power_mult [symmetric] mult.commute)
  finally show ?thesis by (rule power_mono_iff [THEN iffD1, rotated 3]) simp_all
qed

lemma b58enc_size_enough:
  assumes "n * 138 < SIZE_MOD"
  shows "(256::nat) ^ n \<le> 58 ^ b58enc_size n"
proof -
  have "b58enc_size n = n * 138 div 100 + 1" using assms by (simp add: b58enc_size_def)
  then have "137 * n \<le> 100 * b58enc_size n"
    using div_mult_mod_eq [of "n * 138" 100] mod_less_divisor [of 100 "n * 138"] by linarith
  then show ?thesis by (rule pow256_le_pow58)
qed

lemma b58enc_size_le: "n * 138 < SIZE_MOD \<Longrightarrow> b58enc_size n \<le> n * 138 div 100 + 1"
  by (simp add: b58enc_size_def)

section \<open>The encoder\<close>

text \<open>The digits in the scratch buffer, without their leading zeros, are the canonical digits.\<close>

lemma b58enc_scratch:
  assumes "length bs * 138 < SIZE_MOD"
  defines "buf \<equiv> b58enc_bytes bs (replicate (b58enc_size (length bs)) 0) (b58enc_size (length bs) - 1)"
  shows "map unat (dropWhile (\<lambda>x. x = 0) buf) = radix_digits 58 (radix_val 256 (map unat bs))"
    and "length buf = b58enc_size (length bs)"
proof -
  let ?size = "b58enc_size (length bs)"
  let ?zeros = "replicate ?size 0 :: byte list"
  have size: "?size \<noteq> 0" by (simp add: b58enc_size_def)
  have "radix_val 256 (map unat bs) < 256 ^ length bs"
    using r256.val_bound [of "map unat bs"] by simp
  also have "\<dots> \<le> 58 ^ ?size" using assms(1) by (rule b58enc_size_enough)
  finally have fits: "radix_val 256 (map unat bs) < 58 ^ ?size" .
  have run: "length buf = ?size \<and> digits_ok 58 (map unat buf) \<and>
      radix_val 58 (map unat buf) = radix_val 256 (map unat bs)"
    unfolding buf_def
    using b58enc_bytes_correct [of ?zeros "?size - 1" bs] fits size by simp
  let ?ds = "map unat (dropWhile (\<lambda>x. x = 0) buf)"
  have "radix_digits 58 (radix_val 58 ?ds) = ?ds"
    using run hd_dropWhile_0 [of buf]
    by (intro r58.digits_of_val) (simp_all add: digits_ok_dropWhile hd_map)
  then show "?ds = radix_digits 58 (radix_val 256 (map unat bs))"
    using run by simp
  show "length buf = ?size" using run by simp
qed

lemma b58enc_eq:
  assumes "binsz \<le> length data" and "binsz * 138 < SIZE_MOD" and "b58sz \<le> length b58"
  shows "b58enc b58 b58sz data binsz =
    (let s = b58_text (take binsz data)
     in if b58sz \<le> length s then Ret (False, b58, length s + 1)
        else Ret (True, splice b58 0 (s @ [0]), length s + 1))"
proof -
  define bin where "bin = take binsz data"
  define z where "z = length (takeWhile (\<lambda>x. x = 0) bin)"
  define bs where "bs = drop z bin"
  define size where "size = b58enc_size (length bs)"
  define buf where "buf = b58enc_bytes bs (replicate size 0) (size - 1)"
  define j where "j = length (takeWhile (\<lambda>x. x = 0) buf)"
  have len_bs: "length bs = binsz - z" using assms(1) by (simp add: bs_def bin_def)
  then have small: "length bs * 138 < SIZE_MOD" using assms(2) by simp
  have val: "radix_val 256 (map unat bin) = radix_val 256 (map unat bs)"
    using radix_val_dropWhile_0 [of 256 bin] by (simp add: bs_def z_def dropWhile_eq_drop)
  have digits: "map unat (drop j buf) = radix_digits 58 (radix_val 256 (map unat bin))"
    and size_buf: "length buf = size"
    using b58enc_scratch [OF small] unfolding val size_def buf_def j_def
    by (simp_all add: dropWhile_eq_drop)
  have text_eq: "b58_text bin = replicate z 49 @ map (\<lambda>d. b58digits_ordered ! unat d) (drop j buf)"
    unfolding b58_text_def digits [symmetric] by (simp add: b58_zeros_def z_def comp_def)
  have "j \<le> size" using size_buf by (metis j_def length_takeWhile_le)
  then have len: "length (b58_text bin) = z + size - j" and len': "z + (size - j) = z + size - j"
    using size_buf by (simp_all add: text_eq)
  have text0: "replicate z 49 @ map (\<lambda>d. b58digits_ordered ! unat d) (drop j buf) @ [0] = b58_text bin @ [0]"
    by (simp add: text_eq)
  have unfold: "b58enc b58 b58sz data binsz =
      (if b58sz \<le> length (b58_text bin) then Ret (False, b58, length (b58_text bin) + 1)
       else bind_o (array_write b58 0 (b58_text bin @ [0])) (\<lambda>b58'. Ret (True, b58', length (b58_text bin) + 1)))"
    using assms(1)
    unfolding b58enc_def Let_def bin_def [symmetric] z_def [symmetric] len_bs [symmetric] bs_def [symmetric]
      size_def [symmetric] buf_def [symmetric] j_def [symmetric] len' len [symmetric] text0
    by simp
  show ?thesis
    using assms(3) by (simp add: unfold Let_def flip: bin_def)
qed

text \<open>How long the text can get.\<close>

lemma length_b58_text:
  assumes "length bin * 138 < SIZE_MOD"
  shows "length (b58_text bin) \<le> length bin * 138 div 100 + 1"
proof -
  let ?z = "b58_zeros bin" and ?N = "radix_val 256 (map unat bin)"
  let ?bs = "dropWhile (\<lambda>x. x = 0) bin"
  have lens: "length bin = ?z + length ?bs"
    unfolding b58_zeros_def by (metis length_append takeWhile_dropWhile_id)
  have "?N < 256 ^ length ?bs" using r256.val_bound [of "map unat ?bs"] by simp
  also have "\<dots> \<le> 58 ^ b58enc_size (length ?bs)"
    using assms lens by (intro b58enc_size_enough) simp
  finally have "length (radix_digits 58 ?N) \<le> b58enc_size (length ?bs)"
    by (rule r58.digits_length_le)
  also have "\<dots> \<le> length ?bs * 138 div 100 + 1" using assms lens by (intro b58enc_size_le) simp
  finally have "length (b58_text bin) \<le> ?z + (length ?bs * 138 div 100 + 1)"
    by (simp add: b58_text_def)
  also have "\<dots> = (?z * 100 + length ?bs * 138) div 100 + 1" by simp
  also have "\<dots> \<le> length bin * 138 div 100 + 1"
    unfolding lens by (intro add_le_mono1 div_le_mono) simp
  finally show ?thesis .
qed

end
