(* ===== verification/Base58_Decoding.thy ===== *)
theory Base58_Decoding
  imports Base58_Encoding
begin

text \<open>
  Correctness of the decoder \<open>b58tobin\<close> against the reference
  \<open>b58_decode\<close>: the text is accepted exactly if all its characters are in the
  alphabet and the number it denotes fits into \<^verbatim>\<open>binsz\<close> bytes, and the
  result is that number as \<^verbatim>\<open>binsz\<close> bytes, most significant first. The
  lemmas follow the limb arithmetic (64-bit products of 32-bit limbs), the two
  overflow tests and the writing out of the limbs.
\<close>

section \<open>Reference decoder\<close>

definition b58_char_ok :: "byte \<Rightarrow> bool" where
  "b58_char_ok x \<longleftrightarrow> x \<in> set b58digits_ordered"

definition b58_digit :: "byte \<Rightarrow> nat" where
  "b58_digit x = length (takeWhile (\<lambda>y. y \<noteq> x) b58digits_ordered)"

definition b58_number :: "byte list \<Rightarrow> nat" where
  "b58_number s = radix_val 58 (map b58_digit s)"

definition b58_ones :: "byte list \<Rightarrow> nat" where
  "b58_ones s = length (takeWhile (\<lambda>x. x = 49) s)"

definition b58_decode :: "nat \<Rightarrow> byte list \<Rightarrow> byte list option" where
  "b58_decode binsz s =
     (if list_all b58_char_ok s \<and> b58_number s < 256 ^ binsz
      then Some (map of_nat (radix_fixed 256 binsz (b58_number s))) else None)"

section \<open>The two alphabet tables agree\<close>

lemma b58digits_ordered_eq:
  "b58digits_ordered =
    [49, 50, 51, 52, 53, 54, 55, 56, 57, 65, 66, 67, 68, 69, 70, 71, 72, 74, 75, 76, 77, 78, 80, 81, 82, 83,
     84, 85, 86, 87, 88, 89, 90, 97, 98, 99, 100, 101, 102, 103, 104, 105, 106, 107, 109, 110, 111, 112, 113,
     114, 115, 116, 117, 118, 119, 120, 121, 122]"
  by (simp add: b58digits_ordered_def bytes_of_def)

lemma length_b58digits_ordered [simp]: "length b58digits_ordered = 58"
  by (simp add: b58digits_ordered_eq)

lemma b58digits_map_ordered:
  "map (\<lambda>x. b58digits_map ! unat x) b58digits_ordered = map int [0..<58]"
  by (simp add: b58digits_map_def b58digits_ordered_eq upt_rec)

lemma b58digits_ordered_map:
  "list_all (\<lambda>(i, v). v = -1 \<or> nat v < 58 \<and> b58digits_ordered ! nat v = of_nat i) (zip [0..<128] b58digits_map)"
  by (simp add: b58digits_map_def b58digits_ordered_eq upt_rec)

lemma length_b58digits_map [simp]: "length b58digits_map = 128"
  by (simp add: b58digits_map_def)

lemma b58digits_ordered_range: "x \<in> set b58digits_ordered \<Longrightarrow> 48 < unat x \<and> unat x < 128"
  by (auto simp: b58digits_ordered_eq)

lemma distinct_b58digits_ordered: "distinct b58digits_ordered"
  by (simp add: b58digits_ordered_eq)

lemma b58_digit_less: "b58_char_ok x \<Longrightarrow> b58_digit x < 58"
  using length_takeWhile_neq [of x b58digits_ordered]
  by (simp add: b58_char_ok_def b58_digit_def)

lemma b58_alphabet_digit: "b58_char_ok x \<Longrightarrow> b58digits_ordered ! b58_digit x = x"
  using nth_length_takeWhile [of "\<lambda>y. y \<noteq> x" b58digits_ordered] b58_digit_less [of x]
  by (simp add: b58_digit_def)

lemma b58_char_ok_nth: "d < 58 \<Longrightarrow> b58_char_ok (b58digits_ordered ! d)"
  by (simp add: b58_char_ok_def)

lemma b58_digit_alphabet: "d < 58 \<Longrightarrow> b58_digit (b58digits_ordered ! d) = d"
  using b58_alphabet_digit [OF b58_char_ok_nth, of d] b58_digit_less [OF b58_char_ok_nth, of d]
    nth_eq_iff_index_eq [OF distinct_b58digits_ordered] by simp

lemma b58_digit_one [simp]: "b58_digit 49 = 0" "b58_char_ok 49"
  by (simp_all add: b58_digit_def b58_char_ok_def b58digits_ordered_eq)

lemma b58_digit_eq_0_iff: "b58_char_ok x \<Longrightarrow> b58_digit x = 0 \<longleftrightarrow> x = 49"
  by (metis b58_alphabet_digit b58_digit_one(1) b58_digit_one(2))

lemma high_bits_zero_iff:
  fixes x :: "'a::len word"
  assumes "n < LENGTH('a)"
  shows "x AND NOT (mask n) = 0 \<longleftrightarrow> unat x < 2 ^ n"
proof -
  have "bit (x AND NOT (mask n)) m \<longleftrightarrow> n \<le> m \<and> bit x m" for m
    by (auto simp: bit_simps dest: bit_imp_le_length)
  then have "x AND NOT (mask n) = 0 \<longleftrightarrow> (\<forall>m. n \<le> m \<longrightarrow> \<not> bit x m)"
    unfolding bit_eq_iff [of _ 0] by (auto dest: bit_imp_le_length)
  also have "\<dots> \<longleftrightarrow> (\<forall>m. \<not> bit x (n + m))" by (auto simp: le_iff_add)
  also have "\<dots> \<longleftrightarrow> drop_bit n x = 0"
    unfolding bit_eq_iff [of _ 0]
    by (auto simp: bit_drop_bit_eq) (metis add.commute add_lessD1 bit_imp_le_length)
  also have "\<dots> \<longleftrightarrow> unat x div 2 ^ n = 0"
    unfolding unat_eq_zero [symmetric] unat_drop_bit_eq by (simp add: drop_bit_eq_div)
  also have "\<dots> \<longleftrightarrow> unat x < 2 ^ n" by (simp add: div_eq_0_iff)
  finally show ?thesis .
qed

lemma high_bit_iff: "(x :: byte) AND 128 = 0 \<longleftrightarrow> unat x < 128"
proof -
  have "(128 :: byte) = NOT (mask 7)" by (simp add: mask_eq_exp_minus_1)
  then show ?thesis using high_bits_zero_iff [of 7 x] by simp
qed

text \<open>What the two tests of the loop and the table say of a character.\<close>

lemma b58digits_map_char:
  assumes "unat x < 128"
  shows "b58digits_map ! unat x = (if b58_char_ok x then int (b58_digit x) else -1)"
proof (cases "b58_char_ok x")
  case True
  then have "map (\<lambda>x. b58digits_map ! unat x) b58digits_ordered ! b58_digit x = int (b58_digit x)"
    unfolding b58digits_map_ordered by (simp add: b58_digit_less)
  then show ?thesis using True by (simp add: b58_digit_less b58_alphabet_digit)
next
  case False
  have "(unat x, b58digits_map ! unat x) \<in> set (zip [0..<128] b58digits_map)"
    using assms unfolding in_set_zip by (intro exI [of _ "unat x"]) simp
  then have "b58digits_map ! unat x = -1 \<or>
      nat (b58digits_map ! unat x) < 58 \<and> b58digits_ordered ! nat (b58digits_map ! unat x) = x"
    using b58digits_ordered_map by (auto simp: list_all_iff)
  then show ?thesis using False b58_char_ok_nth by metis
qed

lemma b58_char_rejected_iff:
  "(x AND 128 \<noteq> 0 \<or> b58digits_map ! unat x = -1) \<longleftrightarrow> \<not> b58_char_ok x"
  using b58digits_map_char [of x] b58digits_ordered_range [of x] high_bit_iff [of x]
  by (auto simp: b58_char_ok_def split: if_splits)

lemma b58_char_value:
  "b58_char_ok x \<Longrightarrow> unat (word_of_int (b58digits_map ! unat x) :: u32) = b58_digit x"
  using b58digits_map_char [of x] b58digits_ordered_range [of x] b58_digit_less [of x]
  by (simp add: b58_char_ok_def unat_of_nat_u32)

section \<open>Limb arithmetic\<close>

lemma limb_step:
  fixes x c :: u32
  defines "t \<equiv> (ucast x :: u64) * 58 + ucast c"
  shows "unat (ucast (t AND ucast b58_almostmaxint_mask) :: u32) = (unat x * 58 + unat c) mod 4294967296"
    and "unat (ucast (drop_bit 32 t) :: u32) = (unat x * 58 + unat c) div 4294967296"
proof -
  have x: "unat x < 4294967296" and c: "unat c < 4294967296" by simp_all
  have "unat t = (unat x * 58 + unat c) mod 2 ^ 64"
    by (simp add: t_def unat_word_ariths unsigned_ucast_eq take_bit_eq_mod mod_simps)
  then have t: "unat t = unat x * 58 + unat c" using x c by simp
  have "t AND ucast b58_almostmaxint_mask = take_bit 32 t"
    by (simp add: b58_almostmaxint_mask_def take_bit_eq_mask mask_eq_exp_minus_1 and.commute)
  then show "unat (ucast (t AND ucast b58_almostmaxint_mask) :: u32) = (unat x * 58 + unat c) mod 4294967296"
    using t by (simp only: unsigned_ucast_eq unsigned_take_bit_eq) (simp add: take_bit_eq_mod)
  have "(unat x * 58 + unat c) div 4294967296 < 4294967296"
    using x c by (intro less_mult_imp_div_less) linarith
  then show "unat (ucast (drop_bit 32 t) :: u32) = (unat x * 58 + unat c) div 4294967296"
    using t by (simp only: unsigned_ucast_eq unat_drop_bit_eq) (simp add: drop_bit_eq_div take_bit_eq_mod)
qed

lemma limb_recombine:
  "(V * 58 + (d * 58 + c) div b) * b + (d * 58 + c) mod b = (V * b + d) * 58 + (c :: nat)"
proof -
  have "(V * 58 + (d * 58 + c) div b) * b + (d * 58 + c) mod b =
      V * 58 * b + ((d * 58 + c) div b * b + (d * 58 + c) mod b)"
    by (simp only: distrib_right add.assoc)
  also have "\<dots> = (V * b + d) * 58 + c"
    unfolding div_mult_mod_eq by (simp add: algebra_simps)
  finally show ?thesis .
qed

lemma b58tobin_mac_correct:
  assumes "b58tobin_mac j outi c = (outi', c')" and "j \<le> length outi"
  shows "length outi' = length outi \<and> drop j outi' = drop j outi \<and>
    radix_val 4294967296 (map unat (take j outi')) + 4294967296 ^ j * unat c' =
      radix_val 4294967296 (map unat (take j outi)) * 58 + unat c"
  using assms
proof (induction j arbitrary: outi c)
  case 0
  then show ?case by simp
next
  case (Suc j)
  let ?t = "(ucast (outi ! j) :: u64) * 58 + ucast c"
  let ?m = "unat (outi ! j) * 58 + unat c"
  let ?o = "outi[j := ucast (?t AND ucast b58_almostmaxint_mask)]"
  have IH: "length outi' = length outi \<and> drop j outi' = drop j ?o \<and>
    radix_val 4294967296 (map unat (take j outi')) + 4294967296 ^ j * unat c' =
      radix_val 4294967296 (map unat (take j outi)) * 58 + ?m div 4294967296"
    using Suc.IH [of ?o "ucast (drop_bit 32 ?t)"] Suc.prems limb_step(2) [of "outi ! j" c]
    by (simp add: Let_def)
  then have l: "length outi' = length outi" by simp
  from IH have d: "drop j outi' = ucast (?t AND ucast b58_almostmaxint_mask) # drop (Suc j) outi"
    using Suc.prems(2) by (simp add: Cons_nth_drop_Suc [symmetric])
  then have nth: "unat (outi' ! j) = ?m mod 4294967296" and d': "drop (Suc j) outi' = drop (Suc j) outi"
    using limb_step(1) [of "outi ! j" c] by (simp_all add: drop_eq_ConsD)
  have "radix_val 4294967296 (map unat (take (Suc j) outi')) + 4294967296 ^ Suc j * unat c' =
      (radix_val 4294967296 (map unat (take j outi')) + 4294967296 ^ j * unat c') * 4294967296 + ?m mod 4294967296"
    using Suc.prems(2) l nth by (simp add: take_Suc_snoc radix_val_snoc distrib_right)
  also have "\<dots> = (radix_val 4294967296 (map unat (take j outi)) * 58 + ?m div 4294967296) * 4294967296
      + ?m mod 4294967296"
    using IH by simp
  also have "\<dots> = (radix_val 4294967296 (map unat (take j outi)) * 4294967296 + unat (outi ! j)) * 58 + unat c"
    by (rule limb_recombine)
  finally show ?case using Suc.prems(2) IH d' by (simp add: take_Suc_snoc [of j outi] radix_val_snoc)
qed

section \<open>The overflow test on the first limb\<close>

text \<open>
  \<open>fits_test outisz bound zeromask\<close> says that the mask separates the numbers below
  \<open>bound\<close> from the other ones that \<open>outisz\<close> limbs can hold.
\<close>

definition fits_test :: "nat \<Rightarrow> nat \<Rightarrow> u32 \<Rightarrow> bool" where
  "fits_test outisz bound zeromask \<longleftrightarrow> bound \<le> 4294967296 ^ outisz \<and>
     (\<forall>outi. length outi = outisz \<longrightarrow>
        (outi ! 0 AND zeromask = 0 \<longleftrightarrow> radix_val 4294967296 (map unat outi) < bound))"

lemma pow256_limbs: "(256::nat) ^ (4 * k + r) = 256 ^ r * 4294967296 ^ k"
  by (simp add: power_add power_mult)

lemma zeromask_iff:
  assumes "r \<noteq> 0" "r < 4"
  shows "w AND push_bit (r * 8) b58_almostmaxint_mask = 0 \<longleftrightarrow> unat w < 256 ^ r"
proof -
  have mask: "b58_almostmaxint_mask = -1" by (simp add: b58_almostmaxint_mask_def)
  have "push_bit (r * 8) b58_almostmaxint_mask = NOT (mask (r * 8))"
    unfolding mask by (rule push_bit_minus_one_eq_not_mask)
  moreover have "(256::nat) ^ r = 2 ^ (r * 8)" by (subst mult.commute) (simp add: power_mult)
  ultimately show ?thesis using assms high_bits_zero_iff [of "r * 8" w] by simp
qed

lemma zeromask_fits_test:
  assumes "0 < binsz"
  shows "fits_test ((binsz + 4 - 1) div 4) (256 ^ binsz)
    (if binsz mod 4 \<noteq> 0 then push_bit (binsz mod 4 * 8) b58_almostmaxint_mask else 0)"
proof (cases "binsz mod 4 = 0")
  case True
  define k where "k = binsz div 4"
  with True have k: "binsz = 4 * k" by presburger
  then have "(binsz + 4 - 1) div 4 = k" by simp
  moreover have "(256::nat) ^ binsz = 4294967296 ^ k" using k by (simp add: power_mult)
  ultimately show ?thesis
    using True r32.val_bound [OF digits_ok_u32] unfolding fits_test_def by fastforce
next
  case False
  define k r where "k = binsz div 4" and "r = binsz mod 4"
  have b: "binsz = 4 * k + r" and r: "r \<noteq> 0" "r < 4" using False by (simp_all add: k_def r_def)
  have sz: "(binsz + 4 - 1) div 4 = Suc k" using b r by presburger
  have bound: "(256::nat) ^ binsz = 256 ^ r * 4294967296 ^ k" unfolding b by (rule pow256_limbs)
  have "(256::nat) ^ r \<le> 256 ^ 4" using r by (intro power_increasing) simp_all
  then have "(256::nat) ^ binsz \<le> 4294967296 ^ Suc k" unfolding bound by simp
  moreover have "w # ws \<noteq> [] \<and> (unat w < 256 ^ r \<longleftrightarrow> radix_val 4294967296 (map unat (w # ws)) < 256 ^ binsz)"
    if "length ws = k" for w :: u32 and ws
  proof -
    have "radix_val 4294967296 (map unat ws) < 4294967296 ^ k"
      using r32.val_bound [of "map unat ws"] that by simp
    then have "(unat w * 4294967296 ^ k + radix_val 4294967296 (map unat ws)) div 4294967296 ^ k = unat w"
      by simp
    then have "unat w * 4294967296 ^ k + radix_val 4294967296 (map unat ws) < 256 ^ r * 4294967296 ^ k
        \<longleftrightarrow> unat w < 256 ^ r"
      by (metis div_less_iff_less_mult zero_less_numeral zero_less_power)
    then show ?thesis using that by (simp add: bound)
  qed
  ultimately show ?thesis
    using False r zeromask_iff [of r] unfolding fits_test_def sz r_def [symmetric]
    by (auto simp: length_Suc_conv)
qed

section \<open>The loop over the characters\<close>

lemma b58_number_append: "b58_number (xs @ ys) = b58_number xs * 58 ^ length ys + b58_number ys"
  by (simp add: b58_number_def radix_val_append)

lemma b58_number_Cons: "b58_number (x # xs) = b58_digit x * 58 ^ length xs + b58_number xs"
  by (simp add: b58_number_def)

lemma b58_number_Nil [simp]: "b58_number [] = 0"
  by (simp add: b58_number_def)

lemma map_unat_radix_fixed_u32:
  "length outi = k \<Longrightarrow> radix_val 4294967296 (map unat outi) = n \<Longrightarrow>
   (outi :: u32 list) = map of_nat (radix_fixed 4294967296 k n)"
  using r32.fixed_of_val [OF digits_ok_u32, of outi] by (auto simp: comp_def)

text \<open>One character: the two overflow tests pass exactly if the new number is below the bound.\<close>

lemma b58tobin_mac_fits:
  assumes run: "b58tobin_mac (length outi) outi (word_of_int (b58digits_map ! unat x)) = (outi1, c)"
    and ft: "fits_test (length outi) bound zeromask" and ok: "b58_char_ok x"
    and W: "W = radix_val 4294967296 (map unat outi) * 58 + b58_digit x"
  shows "c = 0 \<and> outi1 ! 0 AND zeromask = 0 \<longleftrightarrow> W < bound"
    and "length outi1 = length outi"
    and "W < bound \<Longrightarrow> radix_val 4294967296 (map unat outi1) = W"
proof -
  show len: "length outi1 = length outi" using b58tobin_mac_correct [OF run] by simp
  have val: "radix_val 4294967296 (map unat outi1) + 4294967296 ^ length outi * unat c = W"
    using b58tobin_mac_correct [OF run] ok by (auto simp: b58_char_value W)
  have c: "c = 0" if "W < bound"
  proof (rule ccontr)
    assume "c \<noteq> 0"
    then have "1 \<le> unat c" by (simp add: unat_gt_0 Suc_le_eq)
    then have "4294967296 ^ length outi * 1 \<le> 4294967296 ^ length outi * unat c" by (rule mult_le_mono2)
    moreover have "bound \<le> 4294967296 ^ length outi" using ft by (simp add: fits_test_def)
    ultimately show False using val that by linarith
  qed
  then show "W < bound \<Longrightarrow> radix_val 4294967296 (map unat outi1) = W" using val by simp
  show "c = 0 \<and> outi1 ! 0 AND zeromask = 0 \<longleftrightarrow> W < bound"
    using c val len ft by (auto simp: fits_test_def)
qed

lemma b58tobin_digits_correct:
  assumes "fits_test (length outi) bound zeromask" and "outi \<noteq> []"
    and "radix_val 4294967296 (map unat outi) < bound"
  shows "b58tobin_digits (length xs) (xs @ rest) zeromask outi =
    (let n = radix_val 4294967296 (map unat outi) * 58 ^ length xs + b58_number xs
     in Ret (if list_all b58_char_ok xs \<and> n < bound
             then Some (map of_nat (radix_fixed 4294967296 (length outi) n)) else None))"
  using assms
proof (induction xs arbitrary: outi)
  case Nil
  then show ?case by (simp add: Let_def map_unat_radix_fixed_u32 [symmetric])
next
  case (Cons x xs)
  let ?V = "radix_val 4294967296 (map unat outi)"
  let ?n = "?V * 58 ^ length (x # xs) + b58_number (x # xs)"
  let ?W = "?V * 58 + b58_digit x"
  obtain outi1 c where run: "b58tobin_mac (length outi) outi (word_of_int (b58digits_map ! unat x)) = (outi1, c)"
    by fastforce
  have n: "?n = ?W * 58 ^ length xs + b58_number xs" by (simp add: b58_number_Cons algebra_simps)
  then have n_ge: "?W \<le> ?n" by (simp add: trans_le_add1)
  have step: "b58tobin_digits (length (x # xs)) ((x # xs) @ rest) zeromask outi =
      (if b58_char_ok x \<and> ?W < bound then b58tobin_digits (length xs) (xs @ rest) zeromask outi1 else Ret None)"
    using b58tobin_mac_fits(1) [OF run Cons.prems(1) _ refl] b58_char_rejected_iff [of x] run by auto
  show ?case
  proof (cases "b58_char_ok x \<and> ?W < bound")
    case False
    then show ?thesis unfolding step using n_ge by (auto simp: Let_def)
  next
    case True
    have len: "length outi1 = length outi" and val: "radix_val 4294967296 (map unat outi1) = ?W"
      using b58tobin_mac_fits(2,3) [OF run Cons.prems(1) _ refl] True by simp_all
    then have "outi1 \<noteq> []" using Cons.prems(2) by auto
    then show ?thesis
      unfolding step using Cons.IH [of outi1] Cons.prems(1) len val True n by (simp add: Let_def)
  qed
qed

lemma b58tobin_ones_correct: "b58tobin_ones (length xs) (xs @ rest) = Ret (b58_ones xs)"
  by (induction xs) (simp_all add: b58_ones_def)

section \<open>Writing out the limbs\<close>

lemma limb_bytes_Suc: "limb_bytes (Suc k) w = ucast (drop_bit (8 * k) w AND 255) # limb_bytes k w"
  by (simp add: limb_bytes_def)

lemma length_limb_bytes [simp]: "length (limb_bytes k w) = k"
  by (simp add: limb_bytes_def)

lemma unat_byte_of_limb: "unat (ucast (drop_bit n (w :: u32) AND 255) :: byte) = unat w div 2 ^ n mod 256"
proof -
  have "drop_bit n w AND 255 = take_bit 8 (drop_bit n w)"
    by (simp add: take_bit_eq_mask mask_eq_exp_minus_1)
  then show ?thesis
    by (simp only: unsigned_ucast_eq unsigned_take_bit_eq unat_drop_bit_eq)
       (simp add: take_bit_eq_mod drop_bit_eq_div)
qed

lemma limb_bytes_val: "radix_val 256 (map unat (limb_bytes k w)) = unat w mod 256 ^ k"
proof (induction k)
  case 0
  show ?case by (simp add: limb_bytes_def)
next
  case (Suc k)
  have "(2::nat) ^ (8 * k) = 256 ^ k" by (simp add: power_mult)
  then have "radix_val 256 (map unat (limb_bytes (Suc k) w)) =
      256 ^ k * (unat w div 256 ^ k mod 256) + unat w mod 256 ^ k"
    using Suc.IH by (simp add: limb_bytes_Suc unat_byte_of_limb mult.commute)
  also have "\<dots> = unat w mod (256 ^ k * 256)" by (rule mod_mult2_eq [symmetric])
  finally show ?case by (simp add: mult.commute)
qed

lemma length_limbs [simp]: "length (concat (map (limb_bytes 4) outi)) = 4 * length outi"
  by (induction outi) simp_all

lemma limbs_val:
  "radix_val 256 (map unat (concat (map (limb_bytes 4) outi))) = radix_val 4294967296 (map unat outi)"

proof (induction outi)
  case (Cons w ws)
  then show ?case
    using length_limbs [of ws]
    by (simp only: list.map concat.simps map_append radix_val_append radix_val_Cons length_map)
       (simp add: limb_bytes_val power_mult)
qed simp

lemma b58tobin_bytes_correct:
  assumes "0 < binsz" and "length outi = (binsz + 4 - 1) div 4"
    and "radix_val 4294967296 (map unat outi) < 256 ^ binsz"
  shows "b58tobin_bytes (binsz mod 4) outi =
    map of_nat (radix_fixed 256 binsz (radix_val 4294967296 (map unat outi)))"
proof -
  let ?bs = "b58tobin_bytes (binsz mod 4) outi"
  have "length ?bs = binsz \<and> radix_val 256 (map unat ?bs) = radix_val 4294967296 (map unat outi)"
  proof (cases "binsz mod 4 = 0")
    case True
    then have "4 * length outi = binsz" using assms(2) by presburger
    with True show ?thesis by (simp add: b58tobin_bytes_def limbs_val)
  next
    case False
    define k r where "k = binsz div 4" and "r = binsz mod 4"
    have b: "binsz = 4 * k + r" and r: "r \<noteq> 0" "r < 4" using False by (simp_all add: k_def r_def)
    then have "length outi = Suc k" using assms(2) by presburger
    then obtain w ws where o: "outi = w # ws" "length ws = k" by (auto simp: length_Suc_conv)
    have "unat w * 4294967296 ^ k + radix_val 4294967296 (map unat ws) < 256 ^ r * 4294967296 ^ k"
      using assms(3) o unfolding b pow256_limbs by simp
    then have "unat w * 4294967296 ^ k < 256 ^ r * 4294967296 ^ k" by (rule add_lessD1)
    then have "unat w < 256 ^ r" by (rule mult_less_cancel2 [THEN iffD1, THEN conjunct2])
    then show ?thesis
      using o b r by (simp add: b58tobin_bytes_def radix_val_append limbs_val limb_bytes_val power_mult
          flip: r_def)
  qed
  then show ?thesis
    using r256.fixed_of_val [OF digits_ok_bytes, of ?bs] by (auto simp: comp_def)
qed

section \<open>The decoder\<close>

text \<open>The characters a call looks at: \<^verbatim>\<open>b58sz\<close> of them, or the whole string for size 0.\<close>

definition b58_input :: "byte list \<Rightarrow> nat \<Rightarrow> byte list" where
  "b58_input b58 b58sz = (if b58sz = 0 then c_str b58 else take b58sz b58)"

definition b58_readable :: "byte list \<Rightarrow> nat \<Rightarrow> bool" where
  "b58_readable b58 b58sz \<longleftrightarrow> (if b58sz = 0 then terminated b58 else b58sz \<le> length b58)"

lemma b58_input_prefix:
  "b58_readable b58 b58sz \<Longrightarrow> b58 = b58_input b58 b58sz @ drop (length (b58_input b58 b58sz)) b58"
  using c_str_prefix [of b58] by (auto simp: b58_input_def b58_readable_def)

lemma b58_ones_split: "s = replicate (b58_ones s) 49 @ drop (b58_ones s) s"
  using split_leading [of s 49] by (simp add: b58_ones_def dropWhile_eq_drop)

lemma b58_number_drop_ones: "b58_number (drop (b58_ones s) s) = b58_number s"
  using b58_number_append [of "replicate (b58_ones s) 49" "drop (b58_ones s) s"]
  by (simp add: b58_number_def map_replicate_const flip: b58_ones_split)

lemma list_all_drop_ones: "list_all b58_char_ok (drop (b58_ones s) s) \<longleftrightarrow> list_all b58_char_ok s"
  using list_all_append [of b58_char_ok "replicate (b58_ones s) 49" "drop (b58_ones s) s"]
  by (simp add: list_all_length flip: b58_ones_split)

lemma b58tobin_eq:
  assumes "0 < binsz" and "binsz \<le> length bin" and "b58_readable b58 b58sz"
  shows "b58tobin bin binsz b58 b58sz =
    (let s = b58_input b58 b58sz
     in case b58_decode binsz s of
          None \<Rightarrow> Ret (False, bin, binsz)
        | Some bs \<Rightarrow> Ret (True, splice bin 0 bs, binsz - b58_zeros bs + b58_ones s mod 2 ^ 32))"
proof -
  define s where "s = b58_input b58 b58sz"
  define rest where "rest = drop (length s) b58"
  have b58: "b58 = s @ rest" unfolding s_def rest_def using assms(3) by (rule b58_input_prefix)
  define outisz where "outisz = (binsz + 4 - 1) div 4"
  define zm where "zm = (if binsz mod 4 \<noteq> 0 then push_bit (binsz mod 4 * 8) b58_almostmaxint_mask else 0)"
  define zeros where "zeros = (replicate outisz 0 :: u32 list)"
  define tl where "tl = drop (b58_ones s) s"
  have osz: "0 < outisz" using assms(1) by (simp add: outisz_def)
  have ft: "fits_test (length zeros) (256 ^ binsz) zm"
    unfolding outisz_def zm_def zeros_def using assms(1) zeromask_fits_test by simp
  have size: "(if b58sz = 0 then strlen_array b58 else Ret b58sz) = Ret (length s)"
    using assms(3) by (auto simp: s_def b58_input_def b58_readable_def strlen_array_def)
  have ones: "b58tobin_ones (length s) b58 = Ret (b58_ones s)"
    unfolding b58 by (rule b58tobin_ones_correct)
  have le: "b58_ones s \<le> length s" by (simp add: b58_ones_def length_takeWhile_le)
  have digits: "b58tobin_digits (length s - b58_ones s) (drop (b58_ones s) b58) zm zeros =
      Ret (if list_all b58_char_ok s \<and> b58_number s < 256 ^ binsz
           then Some (map of_nat (radix_fixed 4294967296 outisz (b58_number s))) else None)"
    using b58tobin_digits_correct [OF ft, of tl rest] osz le
    by (simp add: b58 tl_def zeros_def Let_def b58_number_drop_ones list_all_drop_ones)
  have unfold: "b58tobin bin binsz b58 b58sz =
      bind_o (Ret (if list_all b58_char_ok s \<and> b58_number s < 256 ^ binsz
           then Some (map of_nat (radix_fixed 4294967296 outisz (b58_number s)) :: u32 list) else None)) (\<lambda>r.
        case r of None \<Rightarrow> Ret (False, bin, binsz)
        | Some outi \<Rightarrow> bind_o (array_write bin 0 (b58tobin_bytes (binsz mod 4) outi)) (\<lambda>bin'.
            Ret (True, bin', binsz - length (takeWhile (\<lambda>x. x = 0) (take binsz bin')) + b58_ones s mod 2 ^ 32)))"
    using osz unfolding b58tobin_def Let_def outisz_def [symmetric] zm_def [symmetric] size bind_o_simps ones
      zeros_def [symmetric] digits by simp
  show ?thesis
  proof (cases "list_all b58_char_ok s \<and> b58_number s < 256 ^ binsz")
    case False
    then show ?thesis unfolding unfold s_def [symmetric] by (auto simp: b58_decode_def Let_def)
  next
    case True
    let ?outi = "map of_nat (radix_fixed 4294967296 outisz (b58_number s)) :: u32 list"
    let ?bs = "map of_nat (radix_fixed 256 binsz (b58_number s)) :: byte list"
    have "b58_number s < 4294967296 ^ outisz" using True ft by (simp add: fits_test_def zeros_def)
    then have "radix_val 4294967296 (map unat ?outi) = b58_number s" by (simp add: r32.fixed_val)
    then have "b58tobin_bytes (binsz mod 4) ?outi = ?bs"
      using b58tobin_bytes_correct [OF assms(1), of ?outi] True by (simp add: outisz_def)
    then show ?thesis
      unfolding unfold s_def [symmetric] using True assms(2)
      by (simp add: b58_decode_def Let_def b58_zeros_def splice_def)
  qed
qed

end
