(* ===== verification/Base58_Codec.thy ===== *)
theory Base58_Codec
  imports Base58_Decoding
begin

text \<open>
  The base58 codec as its clients see it: the encoder and the decoder form a
  codec on byte strings of every length, the encoded text fits a buffer of
  \<open>n * 138 / 100 + 2\<close> bytes, and the checksummed variants accept what they
  produce. The properties of the component are stated here over \<open>b58enc\<close>,
  \<open>b58tobin\<close>, \<open>b58check\<close> and \<open>b58check_enc\<close> themselves.
\<close>

section \<open>Text and reference decoder\<close>

lemma b58_text_chars: "list_all b58_char_ok (b58_text bin)"
  using r58.digits_digits_ok
  by (auto simp: b58_text_def list_all_iff digits_ok_def intro!: b58_char_ok_nth)

lemma digits_of_chars:
  "digits_ok 58 ds \<Longrightarrow> map (b58_digit \<circ> (!) b58digits_ordered) ds = ds"
  by (induction ds) (simp_all add: b58_digit_alphabet)

lemma b58_number_text: "b58_number (b58_text bin) = radix_val 256 (map unat bin)"
  by (simp add: b58_number_def b58_text_def map_replicate_const digits_of_chars)

lemma b58_char_nonzero: "b58_char_ok x \<Longrightarrow> x \<noteq> 0"
  using b58digits_ordered_range [of x] by (auto simp: b58_char_ok_def)

lemma zero_notin_b58_text: "0 \<notin> set (b58_text bin)"
  using b58_text_chars [of bin] b58_char_nonzero by (auto simp: list_all_iff)

lemma b58_text_digits_start:
  assumes "radix_digits 58 n = d # ds"
  shows "b58digits_ordered ! d \<noteq> 49"
proof -
  have "d \<noteq> 0" and "d < 58"
    using assms r58.digits_nonempty_hd [of n] r58.digits_digits_ok [of n] by auto
  then show ?thesis using b58_digit_alphabet [of d] by auto
qed

lemma b58_ones_text: "b58_ones (b58_text bin) = b58_zeros bin"
  using b58_text_digits_start
  by (cases "radix_digits 58 (radix_val 256 (map unat bin))") (auto simp: b58_ones_def b58_text_def)

lemma b58_decode_text: "length bin = n \<Longrightarrow> b58_decode n (b58_text bin) = Some bin"
  using r256.val_bound [OF digits_ok_bytes, of bin] r256.fixed_of_val [OF digits_ok_bytes, of bin]
  by (auto simp: b58_decode_def b58_text_chars b58_number_text comp_def)

interpretation b58: codec b58_text "b58_decode n" "\<lambda>bin. length bin = n" for n
  by unfold_locales (rule b58_decode_text)

text \<open>Text without leading zeros bytes pins the length down as well.\<close>

lemma b58_text_inject:
  assumes "b58_text xs = b58_text ys"
  shows "xs = ys"
proof -
  have z: "b58_zeros xs = b58_zeros ys" using assms b58_ones_text by metis
  have "radix_val 256 (map unat xs) = radix_val 256 (map unat ys)" using assms b58_number_text by metis
  then have "map unat (dropWhile (\<lambda>x. x = 0) xs) = map unat (dropWhile (\<lambda>x. x = 0) ys)"
    using hd_dropWhile_0 [of xs] hd_dropWhile_0 [of ys]
    by (intro r256.val_inj_canonical) (simp_all add: hd_map)
  then have "dropWhile (\<lambda>x. x = 0) xs = dropWhile (\<lambda>x. x = 0) ys" by (simp only: map_unat_inject)
  then show ?thesis
    using split_leading [of xs 0] split_leading [of ys 0] z by (simp add: b58_zeros_def)
qed

section \<open>Runs of the encoder followed by the decoder\<close>

lemma c_str_splice_text:
  "length (b58_text bin) < length b58 \<Longrightarrow> c_str (splice b58 0 (b58_text bin @ [0])) = b58_text bin"
  by (simp add: splice_0 c_str_append_nul zero_notin_b58_text)

lemma b58enc_run:
  assumes "n \<le> length data" and "n * 138 < SIZE_MOD" and "b58sz \<le> length b58"
    and "length (b58_text (take n data)) < b58sz"
  shows "b58enc b58 b58sz data n =
    Ret (True, splice b58 0 (b58_text (take n data) @ [0]), length (b58_text (take n data)) + 1)"
  using assms by (simp add: b58enc_eq Let_def)

lemma b58tobin_run:
  assumes "0 < n" and "n \<le> length bin" and "n < 2 ^ 32" and "length data = n"
    and "b58_readable b58 b58sz" and "b58_input b58 b58sz = b58_text data"
  shows "b58tobin bin n b58 b58sz = Ret (True, splice bin 0 data, n)"
proof -
  have "b58_zeros data \<le> n" using assms(4) by (simp add: b58_zeros_def length_takeWhile_le flip: assms(4))
  then have "n - b58_zeros data + b58_ones (b58_text data) mod 2 ^ 32 = n"
    using assms(3) by (simp add: b58_ones_text)
  then show ?thesis
    using assms b58.dec_enc [OF assms(4)] by (simp add: b58tobin_eq Let_def)
qed

section \<open>Checksummed variants\<close>


lemma b58check_zeros_exact:
  "b \<noteq> 0 \<Longrightarrow> b58check_zeros (replicate z 0 @ b # bs) (replicate z 49 @ ss) i = Ret (i + z)"
  by (induction z arbitrary: i) simp_all

text \<open>A byte string that is not all zeros: its text goes on after the ones with another character.\<close>

lemma b58_text_nonzero_split:
  assumes "\<exists>b \<in> set bin. b \<noteq> 0"
  obtains b bs c cs where "bin = replicate (b58_zeros bin) 0 @ b # bs" and "b \<noteq> 0"
    and "b58_text bin = replicate (b58_zeros bin) 49 @ c # cs" and "c \<noteq> 49"
proof -
  have "dropWhile (\<lambda>x. x = 0) bin \<noteq> []" using assms by auto
  then obtain b bs where d: "dropWhile (\<lambda>x. x = 0) bin = b # bs" by (cases "dropWhile (\<lambda>x. x = 0) bin") auto
  then have "b \<noteq> 0" using hd_dropWhile [of "\<lambda>x. x = 0" bin] by simp
  moreover have "bin = replicate (b58_zeros bin) 0 @ b # bs"
    using split_leading [of bin 0] d by (simp add: b58_zeros_def)
  moreover have "radix_val 256 (map unat bin) \<noteq> 0"
    using assms by (auto simp: r256.val_zero_iff unsigned_eq_0_iff)
  then obtain d ds where "radix_digits 58 (radix_val 256 (map unat bin)) = d # ds"
    using r58.digits_hd by (cases "radix_digits 58 (radix_val 256 (map unat bin))") auto
  then have "b58_text bin = replicate (b58_zeros bin) 49 @ b58digits_ordered ! d # map ((!) b58digits_ordered) ds"
    and "b58digits_ordered ! d \<noteq> 49"
    using b58_text_digits_start by (simp_all add: b58_text_def)
  ultimately show thesis using that by blast
qed

lemma b58check_accepts:
  assumes f: "f (take (n - 4) bin) = Some h0" "f h0 = Some h" "take 4 (drop (n - 4) bin) = take 4 h"
    and n: "4 \<le> n" "length bin = n" and nz: "\<exists>b \<in> set bin. b \<noteq> 0"
  shows "b58check (Some f) bin n (b58_text bin @ rest) = Ret (uint (bin ! 0))"
proof -
  obtain b bs c cs where bin: "bin = replicate (b58_zeros bin) 0 @ b # bs" and b: "b \<noteq> 0"
    and tx: "b58_text bin = replicate (b58_zeros bin) 49 @ c # cs" and c: "c \<noteq> 49"
    using nz by (rule b58_text_nonzero_split)
  have "b58check_zeros bin (b58_text bin @ rest) 0 = Ret (b58_zeros bin)"
    using b58check_zeros_exact [OF b, of "b58_zeros bin" bs "c # cs @ rest" 0] bin tx by simp
  moreover have "bin ! b58_zeros bin = b" by (metis bin length_replicate nth_append_length)
  moreover have "(b58_text bin @ rest) ! b58_zeros bin = c" and "b58_zeros bin < length (b58_text bin @ rest)"
    by (simp_all add: tx nth_append)
  ultimately show ?thesis using f n b c by (simp add: b58check_def my_dblsha256_def)
qed

section \<open>Properties\<close>

text \<open>
  C6: the encoder computes the reference text. On every input that can be sized, and
  for an output buffer of at least the announced size, \<open>b58enc\<close> returns: it either
  refuses without touching the buffer and reports the size needed, or stores the text
  with its NUL at the start of the buffer and reports the size used. So the carry loop
  with its \<^verbatim>\<open>high\<close> cut-off is the plain conversion, and no carry is lost.
\<close>

theorem b58enc_refines_text:
  assumes "binsz \<le> length data" and "binsz * 138 < SIZE_MOD" and "b58sz \<le> length b58"
  shows "b58enc b58 b58sz data binsz =
    (let s = b58_text (take binsz data)
     in if b58sz \<le> length s then Ret (False, b58, length s + 1)
        else Ret (True, splice b58 0 (s @ [0]), length s + 1))"
  using assms by (rule b58enc_eq)

theorem b58enc_refines_text_witness:
  "b58enc [9, 9] 2 [0, 255] 2 =
    (let s = b58_text (take 2 [0, 255])
     in if 2 \<le> length s then Ret (False, [9, 9], length s + 1)
        else Ret (True, splice [9, 9] 0 (s @ [0]), length s + 1))"
  using b58enc_refines_text [of 2 "[0, 255]" 2 "[9, 9]"] by simp

text \<open>
  C7: the decoder computes the reference decoding. For a text it can read,
  \<open>b58tobin\<close> returns true exactly if all characters are base58 digits and the
  number fits into \<open>binsz\<close> bytes; it then stores that number and reports the
  length without leading zero bytes plus the count of leading ones. Otherwise it
  returns false and leaves the buffer and the size alone.
\<close>

theorem b58tobin_refines_decode:
  assumes "0 < binsz" and "binsz \<le> length bin" and "b58_readable b58 b58sz"
  shows "b58tobin bin binsz b58 b58sz =
    (let s = b58_input b58 b58sz
     in case b58_decode binsz s of
          None \<Rightarrow> Ret (False, bin, binsz)
        | Some bs \<Rightarrow> Ret (True, splice bin 0 bs, binsz - b58_zeros bs + b58_ones s mod 2 ^ 32))"
  using assms by (rule b58tobin_eq)

theorem b58tobin_refines_decode_witness:
  "b58tobin [7, 7] 2 [49, 50, 0] 0 =
    (case b58_decode 2 (b58_input [49, 50, 0] 0) of
       None \<Rightarrow> Ret (False, [7, 7], 2)
     | Some bs \<Rightarrow> Ret (True, splice [7, 7] 0 bs, 2 - b58_zeros bs + b58_ones (b58_input [49, 50, 0] 0) mod 2 ^ 32))"
  using b58tobin_refines_decode [of 2 "[7, 7]" "[49, 50, 0]" 0] by (simp add: b58_readable_def terminated_def Let_def)

text \<open>
  C5: round trip. A buffer of more than \<open>n * 138 / 100 + 1\<close> bytes is always enough
  to encode \<open>n\<close> bytes, and decoding the stored text, as a string or with its
  length, gives the bytes and the length back, leading zeros included.
\<close>

theorem b58_roundtrip:
  assumes "0 < n" and "n < 2 ^ 32" and "n \<le> length data" and "n \<le> length bin"
    and "n * 138 div 100 + 1 < b58sz" and "b58sz \<le> length b58"
  shows "\<exists>b58' sz. b58enc b58 b58sz data n = Ret (True, b58', sz) \<and> sz \<le> b58sz \<and>
    b58tobin bin n b58' 0 = Ret (True, splice bin 0 (take n data), n) \<and>
    b58tobin bin n b58' (sz - 1) = Ret (True, splice bin 0 (take n data), n)"
proof -
  let ?s = "b58_text (take n data)"
  let ?b = "splice b58 0 (?s @ [0])"
  have n: "n * 138 < SIZE_MOD" and len: "length (take n data) = n" using assms by simp_all
  have "length ?s \<le> n * 138 div 100 + 1" using length_b58_text [of "take n data"] n len by simp
  then have short: "length ?s < b58sz" using assms(5) by simp
  then have enc: "b58enc b58 b58sz data n = Ret (True, ?b, length ?s + 1)"
    using assms n by (intro b58enc_run)
  have str: "b58_readable ?b 0" "b58_input ?b 0 = ?s"
    using short assms(6) c_str_splice_text [of "take n data" b58]
    by (simp_all add: b58_readable_def b58_input_def terminated_def splice_0)
  have run0: "b58tobin bin n ?b 0 = Ret (True, splice bin 0 (take n data), n)"
    using assms len str by (intro b58tobin_run)
  have run: "b58tobin bin n ?b (length ?s) = Ret (True, splice bin 0 (take n data), n)"
  proof (cases "length ?s = 0")
    case False
    then show ?thesis
      using assms len short by (intro b58tobin_run) (auto simp: b58_readable_def b58_input_def splice_0)
  qed (use run0 in simp)
  show ?thesis using enc short run0 run by (intro exI [of _ ?b] exI [of _ "length ?s + 1"]) simp
qed

theorem b58_roundtrip_witness:
  "\<exists>b58' sz. b58enc (replicate 6 9) 6 [0, 1, 2] 3 = Ret (True, b58', sz) \<and> sz \<le> 6 \<and>
    b58tobin [7, 7, 7] 3 b58' 0 = Ret (True, splice [7, 7, 7] 0 (take 3 [0, 1, 2]), 3) \<and>
    b58tobin [7, 7, 7] 3 b58' (sz - 1) = Ret (True, splice [7, 7, 7] 0 (take 3 [0, 1, 2]), 3)"
  by (rule b58_roundtrip) simp_all

text \<open>
  different byte strings, of whatever lengths, have different encodings: if two
  calls of the encoder succeed and store the same string, the inputs were equal.
\<close>

lemma b58enc_injective:
  assumes "n * 138 < SIZE_MOD" "n \<le> length data" "b58sz \<le> length b58"
    and "m * 138 < SIZE_MOD" "m \<le> length data'" "b58sz' \<le> length b58'"
    and "b58enc b58 b58sz data n = Ret (True, out, sz)"
    and "b58enc b58' b58sz' data' m = Ret (True, out', sz')"
    and "c_str out = c_str out'"
  shows "take n data = take m data'"
proof -
  have out: "c_str out = b58_text (take n data)" and out': "c_str out' = b58_text (take m data')"
    using assms by (auto simp: b58enc_eq Let_def c_str_splice_text split: if_splits)
  with assms(9) show ?thesis by (auto intro: b58_text_inject)
qed

text \<open>
  C16: \<open>b58check\<close> accepts what \<open>b58check_enc\<close> produces and returns the version
  byte, for a hash function that is installed and succeeds, and a payload with
  checksum that is not all zeros; and decoding the text gives back version, data and
  the first four bytes of the double hash.
\<close>

theorem b58check_roundtrip:
  assumes "n < 2 ^ 31" and "n \<le> length data"
    and "(n + 5) * 138 div 100 + 1 < b58c_sz" and "b58c_sz \<le> length b58c"
    and "f (ver # take n data) = Some h0" and "f h0 = Some h" and "length h = 32"
    and "\<exists>b \<in> set (ver # take n data @ take 4 h). b \<noteq> 0"
  shows "\<exists>s sz. b58check_enc (Some f) b58c b58c_sz ver data n = Ret (True, s, sz) \<and>
    b58check (Some f) (ver # take n data @ take 4 h) (n + 5) s = Ret (uint ver) \<and>
    b58tobin (replicate (n + 5) 0) (n + 5) s 0 = Ret (True, ver # take n data @ take 4 h, n + 5)"
proof -
  let ?bin = "ver # take n data @ take 4 h"
  have len: "length ?bin = n + 5" using assms by simp
  have "n + 5 = Suc (n + 4)" by simp
  then have whole: "take (n + 5) (ver # take n data @ h) = ?bin"
    using assms(2) by (simp only: take_Suc_Cons) simp
  let ?s = "splice b58c 0 (b58_text ?bin @ [0])"
  have short: "length (b58_text ?bin) < b58c_sz"
    using length_b58_text [of ?bin] len assms(1,3) by simp
  have "b58enc b58c b58c_sz (ver # take n data @ h) (n + 5) = Ret (True, ?s, length (b58_text ?bin) + 1)"
    using b58enc_run [of "n + 5" "ver # take n data @ h" b58c_sz b58c] assms short whole by simp
  then have enc: "b58check_enc (Some f) b58c b58c_sz ver data n = Ret (True, ?s, length (b58_text ?bin) + 1)"
    using assms by (simp add: b58check_enc_def my_dblsha256_def add.commute)
  have chk: "b58check (Some f) ?bin (n + 5) (b58_text ?bin @ (0 # drop (Suc (length (b58_text ?bin))) b58c)) = Ret (uint (?bin ! 0))"
    using assms len by (intro b58check_accepts) simp_all
  have "b58tobin (replicate (n + 5) 0) (n + 5) ?s 0 = Ret (True, splice (replicate (n + 5) 0) 0 ?bin, n + 5)"
    using assms(1,4) len short c_str_splice_text [of ?bin b58c]
    by (intro b58tobin_run) (simp_all add: b58_readable_def b58_input_def terminated_def splice_0)
  then show ?thesis
    using enc chk len by (intro exI [of _ ?s] exI [of _ "length (b58_text ?bin) + 1"]) (simp add: splice_0)
qed

theorem b58check_roundtrip_witness:
  "\<exists>s sz. b58check_enc (Some (\<lambda>_. Some (replicate 32 1))) (replicate 20 0) 20 0 [4, 5] 2 = Ret (True, s, sz) \<and>
    b58check (Some (\<lambda>_. Some (replicate 32 1))) (0 # take 2 [4, 5] @ take 4 (replicate 32 1)) (2 + 5) s = Ret (uint (0 :: byte)) \<and>
    b58tobin (replicate (2 + 5) 0) (2 + 5) s 0 = Ret (True, 0 # take 2 [4, 5] @ take 4 (replicate 32 1), 2 + 5)"
  by (rule b58check_roundtrip) simp_all



end
