(* ===== verification/Address.thy ===== *)
theory Address
  imports Base58_Codec OpenSSL_Env
begin

text \<open>
  Wallet addresses, \<^verbatim>\<open>src_c/client-node/address/address.c\<close>: an address is the
  base58 text of a version byte, a 32-byte public key and the first four bytes of
  the double SHA-256 of both. The encoder and the decoder work on the byte storage;
  local arrays are byte lists. \<^verbatim>\<open>memcpy\<close> returns its destination, so the tests
  of its result against NULL never fire and have no branch here.
\<close>

abbreviation PUBLIC_KEY_LEN :: nat where "PUBLIC_KEY_LEN \<equiv> 32"
abbreviation ADDRESS_LEN :: nat where "ADDRESS_LEN \<equiv> 56"
abbreviation CHECKSUM_LEN :: nat where "CHECKSUM_LEN \<equiv> 4"
abbreviation SHA256_DIGEST_LENGTH :: nat where "SHA256_DIGEST_LENGTH \<equiv> 32"

section \<open>Operations\<close>

text \<open>\<^verbatim>\<open>checksum(payload, dest, payload_len, dest_len)\<close>: the bytes stored in \<^verbatim>\<open>dest\<close>.\<close>

definition checksum :: "'k openssl \<Rightarrow> byte list \<Rightarrow> nat \<Rightarrow> byte list outcome" where
  "checksum ossl payload dest_len =
     (if SHA256_DIGEST_LENGTH < dest_len
      then Exit ''checksum payload cannot be performad on destination length bigger than [ %i ] ''
      else
        case SHA256 ossl payload of
          None \<Rightarrow> Exit ''Hashing payload failed''
        | Some digest_0 \<Rightarrow>
            (case SHA256 ossl digest_0 of
               None \<Rightarrow> Exit ''Hashing digest_0 failed''
             | Some digest_1 \<Rightarrow> Ret (take dest_len digest_1)))"

text \<open>
  The buffer for the text comes from \<^verbatim>\<open>malloc\<close> and is indeterminate; \<open>b58enc\<close>
  stores the first \<^verbatim>\<open>b58_len\<close> bytes of it and the rest stays
  indeterminate.
\<close>

definition encode_address_from_raw ::
  "'k openssl \<Rightarrow> byte \<Rightarrow> ptr \<Rightarrow> nat \<Rightarrow> (ptr, 'z mem_scheme) prog" where
  "encode_address_from_raw ossl wallet_version raw len =
     (if len \<noteq> PUBLIC_KEY_LEN
      then exit1 ''Public private key length is not valid, expected: [ %i ], got: [ %li ]''
      else
        bind (load raw PUBLIC_KEY_LEN) (\<lambda>key.
        bind (lift (checksum ossl (wallet_version # key) CHECKSUM_LEN)) (\<lambda>actual_checksum.
        bind (malloc ADDRESS_LEN) (\<lambda>b58.
          if b58 = Null then exit1 ''Failed to allocate [ %li ] bytes''
          else
            bind (lift (b58enc (replicate ADDRESS_LEN 0) ADDRESS_LEN (wallet_version # key @ actual_checksum)
                     (1 + PUBLIC_KEY_LEN + CHECKSUM_LEN))) (\<lambda>(ok, text, b58_len).
              if \<not> ok then exit1 ''Base58 encoding faild''
              else bind (store b58 (take b58_len text)) (\<lambda>_. ret b58))))))"

text \<open>
  The result is the returned \<^verbatim>\<open>int\<close> and the value of \<^verbatim>\<open>*raw\<close> afterwards; a
  \<^verbatim>\<open>size_t\<close> returned as \<^verbatim>\<open>int\<close> keeps its low 32 bits.
\<close>

definition decode_address_to_raw ::
  "'k openssl \<Rightarrow> byte \<Rightarrow> ptr \<Rightarrow> ptr \<Rightarrow> (int \<times> ptr, 'z mem_scheme) prog" where
  "decode_address_to_raw ossl wallet_version str raw =
     bind (load_string str) (\<lambda>s.
     bind (lift (b58tobin (replicate (PUBLIC_KEY_LEN + CHECKSUM_LEN + 1) 0) (PUBLIC_KEY_LEN + CHECKSUM_LEN + 1)
              (s @ [0]) (length s))) (\<lambda>(ok, decoded, len).
       if \<not> ok then exit1 ''Base58 decoding faild''
       else
         let actual_checksum = take CHECKSUM_LEN (drop (1 + PUBLIC_KEY_LEN) decoded)
         in if decoded ! 0 \<noteq> wallet_version then ret (0, raw)
            else
              bind (malloc PUBLIC_KEY_LEN) (\<lambda>raw'.
                if raw' = Null then exit1 ''Failed to allocate [ %i ] bytes''
                else
                  let key = take PUBLIC_KEY_LEN (drop 1 decoded)
                  in bind (store raw' key) (\<lambda>_.
                     bind (lift (checksum ossl (wallet_version # key) CHECKSUM_LEN)) (\<lambda>target_checksum.
                     bind (lift (strncmp_bytes actual_checksum target_checksum CHECKSUM_LEN)) (\<lambda>equality.
                       if equality \<noteq> 0 then bind (free raw') (\<lambda>_. ret (0, Null))
                       else ret (sint (of_nat len :: 32 word), raw')))))))"

section \<open>The checksum\<close>

text \<open>The checksum the format asks for, and the payload of an address.\<close>

definition address_checksum :: "'k openssl \<Rightarrow> byte list \<Rightarrow> byte list" where
  "address_checksum ossl payload = take CHECKSUM_LEN (the (SHA256 ossl (the (SHA256 ossl payload))))"

definition address_payload :: "'k openssl \<Rightarrow> byte \<Rightarrow> byte list \<Rightarrow> byte list" where
  "address_payload ossl ver key = ver # key @ address_checksum ossl (ver # key)"

definition address_text :: "'k openssl \<Rightarrow> byte \<Rightarrow> byte list \<Rightarrow> byte list" where
  "address_text ossl ver key = b58_text (address_payload ossl ver key)"

lemma sha256_Some: "sha256_digests ossl \<Longrightarrow> SHA256 ossl d = Some (the (SHA256 ossl d)) \<and> length (the (SHA256 ossl d)) = 32"
  unfolding sha256_digests_def by (metis option.sel)

lemma checksum_run: "sha256_digests ossl \<Longrightarrow> checksum ossl payload CHECKSUM_LEN = Ret (address_checksum ossl payload)"
  using sha256_Some [of ossl payload] sha256_Some [of ossl "the (SHA256 ossl payload)"]
  by (auto simp: checksum_def address_checksum_def split: option.splits)

lemma length_address_checksum [simp]: "sha256_digests ossl \<Longrightarrow> length (address_checksum ossl payload) = 4"
  using sha256_Some [of ossl "the (SHA256 ossl payload)"] by (simp add: address_checksum_def)

lemma length_address_payload [simp]:
  "sha256_digests ossl \<Longrightarrow> length key = 32 \<Longrightarrow> length (address_payload ossl ver key) = 37"
  by (simp add: address_payload_def)

lemma length_address_text: "sha256_digests ossl \<Longrightarrow> length key = 32 \<Longrightarrow> length (address_text ossl ver key) \<le> 52"
  using length_b58_text [of "address_payload ossl ver key"] by (simp add: address_text_def)

lemma address_text_no_nul: "0 \<notin> set (address_text ossl ver key)"
  by (simp add: address_text_def zero_notin_b58_text)

section \<open>Encoding\<close>

text \<open>Storage after a new block of \<open>a\<close> with contents \<open>cs\<close>.\<close>

definition address_cells :: "byte list \<Rightarrow> byte option list" where
  "address_cells s = map Some s @ Some 0 # replicate (55 - length s) None"

lemma encode_address_run:
  assumes "sha256_digests ossl" and "bytes_at m raw key" and "length key = 32" and "\<not> denied m (next_id m)"
  shows "encode_address_from_raw ossl ver raw 32 m =
    Ret (Ptr (next_id m) 0, with_block Malloc (address_cells (address_text ossl ver key)) m)"
proof -
  let ?p = "address_payload ossl ver key" and ?s = "address_text ossl ver key"
  have len: "length ?s < 56" using length_address_text [OF assms(1,3), of ver] by simp
  have enc: "b58enc (replicate 56 0) 56 ?p 37 = Ret (True, splice (replicate 56 0) 0 (?s @ [0]), length ?s + 1)"
    using b58enc_run [of 37 ?p 56 "replicate 56 0"] len assms by (simp add: address_text_def)
  have "take (length ?s + 1) (splice (replicate 56 0) 0 (?s @ [0])) = ?s @ [0]"
    using len by (simp add: splice_0)
  moreover have "splice (replicate 56 None) 0 (map Some (?s @ [0])) = address_cells ?s"
    using len by (simp add: splice_0 address_cells_def)
  ultimately show ?thesis
    using assms enc len
    by (simp add: encode_address_from_raw_def prog_simps checksum_run malloc_def with_block_def
        flip: address_payload_def)
qed

section \<open>Decoding\<close>

text \<open>The fields of the 37 decoded bytes.\<close>

definition field_key :: "byte list \<Rightarrow> byte list" where
  "field_key bs = take 32 (drop 1 bs)"

definition field_checksum :: "byte list \<Rightarrow> byte list" where
  "field_checksum bs = take 4 (drop 33 bs)"

lemma field_folds:
  "take 32 (drop (Suc 0) bs) = field_key bs"
  "take 4 (drop 33 bs) = field_checksum bs"
  by (simp_all add: field_key_def field_checksum_def)

text \<open>When the decoder takes the checksum for right: the two agree up to their first NUL.\<close>

definition checksum_accepted :: "'k openssl \<Rightarrow> byte \<Rightarrow> byte list \<Rightarrow> bool" where
  "checksum_accepted ossl ver bs \<longleftrightarrow> c_str (field_checksum bs) = c_str (address_checksum ossl (ver # field_key bs))"

text \<open>The number the decoder returns for a text it accepts.\<close>

definition reported_len :: "byte list \<Rightarrow> byte list \<Rightarrow> int" where
  "reported_len s bs = sint (of_nat (37 - b58_zeros bs + b58_ones s mod 2 ^ 32) :: 32 word)"

lemma b58_input_string: "0 \<notin> set s \<Longrightarrow> b58_input (s @ [0]) (length s) = s \<and> b58_readable (s @ [0]) (length s)"
  by (auto simp: b58_input_def b58_readable_def terminated_def)

lemma length_b58_decode: "b58_decode n s = Some bs \<Longrightarrow> length bs = n"
  by (auto simp: b58_decode_def split: if_splits)

lemma strncmp_checksum:
  assumes "sha256_digests ossl" and "length bs = 37"
  obtains d where "strncmp_bytes (field_checksum bs) (address_checksum ossl p) 4 = Ret d"
    and "d = 0 \<longleftrightarrow> c_str (field_checksum bs) = c_str (address_checksum ossl p)"
proof -
  have len: "length (field_checksum bs) = 4" "length (address_checksum ossl p) = 4"
    using assms by (simp_all add: field_checksum_def)
  then obtain d where d: "strncmp_bytes (field_checksum bs) (address_checksum ossl p) 4 = Ret d"
    using strncmp_bytes_returns [of 4 "field_checksum bs" "address_checksum ossl p"] by auto
  moreover have "strncmp_bytes (field_checksum bs) (address_checksum ossl p) 4 = Ret 0 \<longleftrightarrow>
      c_str (field_checksum bs) = c_str (address_checksum ossl p)"
    using strncmp_bytes_zero_iff [of 4 "field_checksum bs" "address_checksum ossl p"] len by simp
  ultimately show thesis using that by simp
qed

lemma decode_address_run:
  assumes "sha256_digests ossl" and "string_at m str s" and "\<not> denied m (next_id m)" and "wf_mem m"
  shows "decode_address_to_raw ossl ver str raw m =
    (case b58_decode 37 s of
       None \<Rightarrow> Exit ''Base58 decoding faild''
     | Some bs \<Rightarrow>
         if bs ! 0 \<noteq> ver then Ret ((0, raw), m)
         else if checksum_accepted ossl ver bs
         then Ret ((reported_len s bs, Ptr (next_id m) 0), with_block Malloc (map Some (field_key bs)) m)
         else Ret ((0, Null), m\<lparr>next_id := Suc (next_id m)\<rparr>))"
proof -
  have in_s: "b58_input (s @ [0]) (length s) = s" "b58_readable (s @ [0]) (length s)"
    using b58_input_string string_at_no_nul [OF assms(2)] by simp_all
  have tobin: "b58tobin (replicate 37 0) 37 (s @ [0]) (length s) =
      (case b58_decode 37 s of None \<Rightarrow> Ret (False, replicate 37 0, 37)
       | Some bs \<Rightarrow> Ret (True, splice (replicate 37 0) 0 bs, 37 - b58_zeros bs + b58_ones s mod 2 ^ 32))"
    using b58tobin_eq [of 37 "replicate 37 0" "s @ [0]" "length s"] in_s by (simp add: Let_def)
  show ?thesis
  proof (cases "b58_decode 37 s")
    case None
    then show ?thesis using assms(2) tobin by (simp add: decode_address_to_raw_def prog_simps)
  next
    case (Some bs)
    have len: "length bs = 37" using Some by (rule length_b58_decode)
    then have dec: "splice (replicate 37 0) 0 bs = bs" by (simp add: splice_0)
    obtain d where d: "strncmp_bytes (field_checksum bs) (address_checksum ossl (ver # field_key bs)) 4 = Ret d"
      and d0: "d = 0 \<longleftrightarrow> checksum_accepted ossl ver bs"
      unfolding checksum_accepted_def using assms(1) len by (rule strncmp_checksum)
    have key: "length (field_key bs) = 32" using len by (simp add: field_key_def)
    then have sp: "splice (replicate 32 None) 0 (map Some (field_key bs)) = map Some (field_key bs)"
      by (simp add: splice_0)
    have gone: "(blocks m)(next_id m := None) = blocks m" using assms(4) by (auto simp: wf_mem_def)
    show ?thesis
      using assms(1-3) tobin Some dec d d0 key sp gone
      by (simp add: decode_address_to_raw_def prog_simps malloc_def free_def checksum_run with_block_def Let_def
          reported_len_def field_folds)
  qed
qed

section \<open>Addresses as a codec\<close>

definition address_key :: "'k openssl \<Rightarrow> byte \<Rightarrow> byte list \<Rightarrow> byte list option" where
  "address_key ossl ver s =
     (case b58_decode 37 s of
        None \<Rightarrow> None
      | Some bs \<Rightarrow> if bs ! 0 = ver \<and> checksum_accepted ossl ver bs then Some (field_key bs) else None)"

lemma payload_fields:
  assumes "length key = 32"
  shows "address_payload ossl ver key ! 0 = ver" "field_key (address_payload ossl ver key) = key"
  using assms by (simp_all add: address_payload_def field_key_def)

lemma payload_accepted:
  assumes "sha256_digests ossl" and "length key = 32"
  shows "checksum_accepted ossl ver (address_payload ossl ver key)"
proof -
  have "field_checksum (address_payload ossl ver key) = address_checksum ossl (ver # key)"
    using assms by (simp add: field_checksum_def address_payload_def)
  then show ?thesis using assms by (simp add: checksum_accepted_def payload_fields)
qed

lemma decode_address_text:
  "sha256_digests ossl \<Longrightarrow> length key = 32 \<Longrightarrow>
   b58_decode 37 (address_text ossl ver key) = Some (address_payload ossl ver key)"
  by (simp add: address_text_def b58.dec_enc)

interpretation addr: codec "address_text ossl ver" "address_key ossl ver"
  "\<lambda>key. sha256_digests ossl \<and> length key = 32" for ossl ver
  by unfold_locales (simp add: address_key_def decode_address_text payload_fields payload_accepted)

lemma reported_len_text:
  assumes "sha256_digests ossl" and "length key = 32"
  shows "reported_len (address_text ossl ver key) (address_payload ossl ver key) = 37"
proof -
  have "b58_zeros (address_payload ossl ver key) \<le> 37"
    using length_takeWhile_le [of "\<lambda>x. x = 0" "address_payload ossl ver key"] assms
    by (simp add: b58_zeros_def)
  then show ?thesis by (simp add: reported_len_def address_text_def b58_ones_text)
qed

text \<open>Leading ones do not change the number a text denotes.\<close>

lemma b58_decode_ones: "b58_decode n (replicate j 49 @ s) = b58_decode n s"
proof -
  have "list_all b58_char_ok (replicate j 49)" by (simp add: list_all_length)
  then show ?thesis by (simp add: b58_decode_def b58_number_def map_replicate_const)
qed

lemma b58_ones_prefix: "b58_ones (replicate j 49 @ s) = j + b58_ones s"
  by (simp add: b58_ones_def)

section \<open>Properties\<close>

text \<open>
  C14: \<open>encode_address_from_raw\<close> on every branch. A length other than 32 and a refused
  allocation end the process; otherwise the function returns a new block of 56 bytes
  that starts with the address text and its NUL, and no other storage changes. The
  base58 failure branch is never taken: the text has at most 52 characters.
\<close>

theorem encode_address_behaviour:
  assumes "sha256_digests ossl" and "bytes_at m raw key" and "length key = 32"
  shows "encode_address_from_raw ossl ver raw len m =
     (if len \<noteq> 32 then Exit ''Public private key length is not valid, expected: [ %i ], got: [ %li ]''
      else if denied m (next_id m) then Exit ''Failed to allocate [ %li ] bytes''
      else Ret (Ptr (next_id m) 0, with_block Malloc (address_cells (address_text ossl ver key)) m))
    \<and> length (address_text ossl ver key) \<le> 52"
proof -
  have "denied m (next_id m) \<Longrightarrow> encode_address_from_raw ossl ver raw 32 m = Exit ''Failed to allocate [ %li ] bytes''"
    using assms by (simp add: encode_address_from_raw_def prog_simps checksum_run malloc_def)
  then show ?thesis
    using encode_address_run [OF assms] length_address_text [OF assms(1,3)]
    by (simp add: encode_address_from_raw_def prog_simps)
qed

theorem encode_address_behaviour_witness:
  "encode_address_from_raw sample_openssl 0 (Ptr 1 0) 32 sample_node =
     Ret (Ptr 4 0, with_block Malloc (address_cells (address_text sample_openssl 0 (replicate 32 5))) sample_node)"
  using encode_address_behaviour [OF _ sample_node_bytes, of sample_openssl 0 32] by simp

text \<open>
  C4: round trip of addresses through storage: the address of a 32-byte key is a
  string that decodes, with the same version, to a new block with exactly the key,
  reported as 37; all storage that was there before is unchanged.
\<close>

theorem address_roundtrip:
  assumes "sha256_digests ossl" and "wf_mem m" and "\<And>i. \<not> denied m i"
    and "bytes_at m raw key" and "length key = 32"
  shows "\<exists>p m1 p' m2. encode_address_from_raw ossl ver raw 32 m = Ret (p, m1) \<and>
    string_at m1 p (address_text ossl ver key) \<and>
    decode_address_to_raw ossl ver p r m1 = Ret ((37, p'), m2) \<and>
    holds m2 p' Malloc key \<and> same_old_blocks m m2"
proof -
  let ?s = "address_text ossl ver key"
  let ?m1 = "with_block Malloc (address_cells ?s) m"
  let ?m2 = "with_block Malloc (map Some key) ?m1"
  have enc: "encode_address_from_raw ossl ver raw 32 m = Ret (Ptr (next_id m) 0, ?m1)"
    using assms by (intro encode_address_run)
  have str: "string_at ?m1 (Ptr (next_id m) 0) ?s"
    unfolding address_cells_def by (rule string_at_with_block) (rule address_text_no_nul)
  have dec: "decode_address_to_raw ossl ver (Ptr (next_id m) 0) r ?m1 = Ret ((37, Ptr (next_id ?m1) 0), ?m2)"
    using decode_address_run [OF assms(1) str, of ver r] assms
    by (simp add: wf_with_block decode_address_text payload_fields payload_accepted reported_len_text)
  have "same_old_blocks m ?m2"
    using assms(2) by (blast intro: same_old_blocks_trans same_old_with_block wf_with_block)
  then show ?thesis using enc str dec holds_with_block [of Malloc key ?m1] by blast
qed

theorem address_roundtrip_witness:
  "\<exists>p m1 p' m2. encode_address_from_raw sample_openssl 0 (Ptr 1 0) 32 sample_node = Ret (p, m1) \<and>
    string_at m1 p (address_text sample_openssl 0 (replicate 32 5)) \<and>
    decode_address_to_raw sample_openssl 0 p Null m1 = Ret ((37, p'), m2) \<and>
    holds m2 p' Malloc (replicate 32 5) \<and> same_old_blocks sample_node m2"
  by (rule address_roundtrip [OF _ _ _ sample_node_bytes]) simp_all



text \<open>
  different keys, also under different versions, have different addresses, and
  the address determines the key that the decoder returns.
\<close>

lemma address_injective:
  assumes "sha256_digests ossl" and "length key = 32" and "length key' = 32"
  shows "(address_text ossl ver key = address_text ossl ver' key' \<longleftrightarrow> ver = ver' \<and> key = key')
    \<and> address_key ossl ver (address_text ossl ver key) = Some key"
proof -
  have "key = key'" if "address_text ossl ver key = address_text ossl ver key'"
    using that addr.enc_inject [of ossl key key' ver] assms by simp
  moreover have "ver = ver'" if "address_text ossl ver key = address_text ossl ver' key'"
    using that b58_text_inject unfolding address_text_def address_payload_def by blast
  moreover have "address_key ossl ver (address_text ossl ver key) = Some key"
    using assms addr.dec_enc [of ossl key ver] by simp
  ultimately show ?thesis by blast
qed

text \<open>
  C21: the checksum test is weaker than the format. Where the right checksum starts with
  a NUL byte, the decoder accepts every four checksum bytes that start with NUL,
  because \<^verbatim>\<open>strncmp\<close> stops at the common NUL: a corrupted address passes.
\<close>

theorem decode_accepts_wrong_checksum:
  assumes "sha256_digests ossl" and "length key = 32" and "wf_mem m" and "\<not> denied m (next_id m)"
    and "address_checksum ossl (ver # key) ! 0 = 0"
    and "string_at m str (b58_text (ver # key @ [0, x, y, z]))"
  shows "\<exists>p m'. decode_address_to_raw ossl ver str raw m = Ret ((37, p), m') \<and> holds m' p Malloc key"
proof -
  let ?bs = "ver # key @ [0, x, y, z]"
  have dec: "b58_decode 37 (b58_text ?bs) = Some ?bs" using assms(2) by (intro b58.dec_enc) simp
  have key: "field_key ?bs = key" and sum: "field_checksum ?bs = [0, x, y, z]"
    using assms(2) by (simp_all add: field_key_def field_checksum_def)
  obtain c cs where "address_checksum ossl (ver # key) = c # cs"
    using length_address_checksum [OF assms(1), of "ver # key"] by (cases "address_checksum ossl (ver # key)") auto
  then have ok: "checksum_accepted ossl ver ?bs" using assms(5) key sum by (simp add: checksum_accepted_def)
  have "b58_zeros ?bs \<le> length ?bs" unfolding b58_zeros_def by (rule length_takeWhile_le)
  then have "reported_len (b58_text ?bs) ?bs = 37" using assms(2) by (simp add: reported_len_def b58_ones_text)
  then show ?thesis
    using decode_address_run [OF assms(1,6,4,3), of ver raw] dec ok key holds_with_block [of Malloc key m] by simp
qed

text \<open>A library whose digests start with NUL, and a state with such an address.\<close>

definition nul_openssl :: "nat openssl" where
  "nul_openssl = sample_openssl\<lparr>SHA256 := (\<lambda>_. Some (replicate 32 0))\<rparr>"

definition nul_node :: "nat node_state" where
  "nul_node = sample_node\<lparr>blocks := [1 \<mapsto>
     (Static, map Some (b58_text (1 # replicate 32 5 @ [0, 1, 2, 3])) @ [Some 0])]\<rparr>"

theorem decode_accepts_wrong_checksum_witness:
  "\<exists>p m'. decode_address_to_raw nul_openssl 1 (Ptr 1 0) Null nul_node = Ret ((37, p), m')
     \<and> holds m' p Malloc (replicate 32 5)"
proof (rule decode_accepts_wrong_checksum)
  show "sha256_digests nul_openssl" by (simp add: sha256_digests_def nul_openssl_def)
  show "wf_mem nul_node" by (simp add: wf_mem_def nul_node_def)
  show "address_checksum nul_openssl (1 # replicate 32 5) ! 0 = 0"
    by (simp add: address_checksum_def nul_openssl_def)
  show "string_at nul_node (Ptr 1 0) (b58_text (1 # replicate 32 5 @ [0, 1, 2, 3]))"
    by (simp add: string_at_cells cells_at_def nul_node_def zero_notin_b58_text)
qed (simp_all add: nul_node_def)

text \<open>
  addresses are not unique. A text that the decoder accepts is accepted with any
  number of further leading ones as well, with the same key; only the reported
  length grows, so that it is neither the length of the key nor that of the payload.
\<close>

lemma decode_ignores_leading_ones:
  assumes "address_key ossl ver s = Some key" and "b58_decode 37 s = Some bs"
    and "b58_ones s + j < 2 ^ 30"
  shows "address_key ossl ver (replicate j 49 @ s) = Some key
    \<and> reported_len (replicate j 49 @ s) bs = reported_len s bs + int j"
proof -
  have len: "reported_len t bs = int (37 - b58_zeros bs + b58_ones t)" if "b58_ones t < 2 ^ 30" for t
  proof -
    let ?n = "37 - b58_zeros bs + b58_ones t"
    have "?n < 2147483648" using that by simp
    then have "sint (word_of_nat ?n :: u32) = int ?n" by (rule sint_of_nat_u32)
    moreover have "b58_ones t mod 2 ^ 32 = b58_ones t" using that by simp
    ultimately show ?thesis by (simp only: reported_len_def)
  qed
  have "address_key ossl ver (replicate j 49 @ s) = Some key"
    using assms(1) by (simp add: address_key_def b58_decode_ones)
  then show ?thesis using assms(3) by (simp add: len b58_ones_prefix)
qed

end
