(* ===== verification/Transaction.thy ===== *)
theory Transaction
  imports Signer Address
begin

text \<open>
  Transactions, \<^verbatim>\<open>src_c/client-node/transaction/transaction.c\<close> and
  \<^verbatim>\<open>transaction.h\<close>. A transaction is a struct on the heap whose pointer fields own
  their blocks. The structs live in the map \<open>trxs\<close> of the state; a field is
  \<open>None\<close> until it is assigned. \<^verbatim>\<open>Transaction_new\<close> is written in the phases its
  comments name.
\<close>

record timeval =
  tv_sec :: int
  tv_usec :: int

record Transaction =
  created_at :: "timeval option"
  issuer_address :: "ptr option"
  receiver_address :: "ptr option"
  subject :: "ptr option"
  data :: "ptr option"
  issuer_signature :: "ptr option"
  receiver_signature :: "ptr option"
  hash :: "ptr option"

record 'k trx_state = "'k node_state" +
  trxs :: "nat \<Rightarrow> Transaction option"

abbreviation (input) WalletVersion :: byte where "WalletVersion \<equiv> 0"

section \<open>Structs on the heap\<close>

definition blank_transaction :: Transaction where
  "blank_transaction = \<lparr>created_at = None, issuer_address = None, receiver_address = None, subject = None,
     data = None, issuer_signature = None, receiver_signature = None, hash = None\<rparr>"

text \<open>\<^verbatim>\<open>malloc(sizeof(Transaction))\<close>, access through the pointer, and \<^verbatim>\<open>free\<close> of the struct.\<close>

definition malloc_transaction :: "(ptr, ('k, 'z) trx_state_scheme) prog" where
  "malloc_transaction m =
     (let i = next_id m; m1 = m\<lparr>next_id := Suc i\<rparr>
      in if denied m i then Ret (Null, m1)
         else Ret (Ptr i 0, m1\<lparr>trxs := (trxs m)(i \<mapsto> blank_transaction)\<rparr>))"

definition trx_get :: "ptr \<Rightarrow> (Transaction, ('k, 'z) trx_state_scheme) prog" where
  "trx_get p m =
     (case p of
        Null \<Rightarrow> Fault Null_Pointer
      | Ptr i _ \<Rightarrow> (case trxs m i of None \<Rightarrow> Fault Not_Allocated | Some t \<Rightarrow> Ret (t, m)))"

definition trx_set :: "ptr \<Rightarrow> (Transaction \<Rightarrow> Transaction) \<Rightarrow> (unit, ('k, 'z) trx_state_scheme) prog" where
  "trx_set p f m =
     (case p of
        Null \<Rightarrow> Fault Null_Pointer
      | Ptr i _ \<Rightarrow>
          (case trxs m i of
             None \<Rightarrow> Fault Not_Allocated
           | Some t \<Rightarrow> Ret ((), m\<lparr>trxs := (trxs m)(i \<mapsto> f t)\<rparr>)))"

definition free_transaction :: "ptr \<Rightarrow> (unit, ('k, 'z) trx_state_scheme) prog" where
  "free_transaction p m =
     (case p of
        Null \<Rightarrow> Ret ((), m)
      | Ptr i _ \<Rightarrow>
          (case trxs m i of
             None \<Rightarrow> Fault Invalid_Free
           | Some _ \<Rightarrow> Ret ((), m\<lparr>trxs := (trxs m)(i := None)\<rparr>)))"

section \<open>Creation\<close>

text \<open>The eight bytes the loop stores for the time, most significant first.\<close>

definition convertToCharArrayLittleEndian :: "64 word \<Rightarrow> byte list" where
  "convertToCharArrayLittleEndian a =
     map (\<lambda>i. ucast (and (drop_bit (56 - 8 * i) a) 0xFF)) [0..<8]"

text \<open>The test \<^verbatim>\<open>p == NULL || strlen(p) == 0\<close>.\<close>

definition is_empty :: "ptr \<Rightarrow> (bool, 'z mem_scheme) prog" where
  "is_empty p = (if p = Null then ret True else bind (strlen p) (\<lambda>n. ret (n = 0)))"

record trx_draft =
  d_raw_key :: RawCryptoKey
  d_issuer :: ptr
  d_buffer :: ptr
  d_buf_len :: nat
  d_subject_len :: nat
  d_data_len :: nat
  d_issuer_len :: nat
  d_receiver_len :: nat

text \<open>
  The buffer phase, with the values of the local variables the later phases use.
\<close>

definition prepare_buffer ::
  "'k openssl \<Rightarrow> timeval \<Rightarrow> ptr \<Rightarrow> ptr \<Rightarrow> ptr \<Rightarrow> Signer option \<Rightarrow> (trx_draft, ('k, 'z) node_state_scheme) prog" where
  "prepare_buffer ossl now subj dat receiver s =
     bind (Signer_get_public_key ossl s) (\<lambda>raw_key.
     bind (field (rk_buffer raw_key)) (\<lambda>raw_buffer.
     bind (field (rk_len raw_key)) (\<lambda>raw_len.
     bind (encode_address_from_raw ossl WalletVersion raw_buffer raw_len) (\<lambda>issuer.
     bind (is_empty issuer) (\<lambda>e.
     if e then exit1 ''Failed to read issuer address''
     else
       bind (strlen subj) (\<lambda>subject_len.
       bind (strlen dat) (\<lambda>data_len.
       bind (strlen issuer) (\<lambda>issuer_len.
       bind (strlen receiver) (\<lambda>receiver_len.
       let ts_len = 8;
           buf_len = (subject_len + data_len + issuer_len + receiver_len + ts_len) mod SIZE_MOD;
           ts = convertToCharArrayLittleEndian (word_of_int (tv_sec now + tv_usec now))
       in bind (malloc buf_len) (\<lambda>buffer.
          if buffer = Null then exit1 ''Failed to allocate [ %li ] bytes''
          else
            bind (strncpy buffer subj subject_len) (\<lambda>_.
            bind (strncpy (ptr_add buffer subject_len) dat data_len) (\<lambda>_.
            bind (strncpy (ptr_add buffer (subject_len + data_len)) issuer issuer_len) (\<lambda>_.
            bind (strncpy (ptr_add buffer (subject_len + data_len + issuer_len)) receiver receiver_len) (\<lambda>_.
            bind (strncpy_array (ptr_add buffer (subject_len + data_len + issuer_len + receiver_len)) ts ts_len) (\<lambda>_.
            ret \<lparr>d_raw_key = raw_key, d_issuer = issuer, d_buffer = buffer, d_buf_len = buf_len,
                 d_subject_len = subject_len, d_data_len = data_len, d_issuer_len = issuer_len,
                 d_receiver_len = receiver_len\<rparr>)))))))))))))))"

text \<open>One pointer field of the struct: allocate, assign, test for NULL.\<close>

definition alloc_field ::
  "ptr \<Rightarrow> (ptr option \<Rightarrow> Transaction \<Rightarrow> Transaction) \<Rightarrow> nat \<Rightarrow> string \<Rightarrow> (ptr, ('k, 'z) trx_state_scheme) prog" where
  "alloc_field trx assign n e =
     bind (malloc (n mod SIZE_MOD)) (\<lambda>p.
     bind (trx_set trx (assign (Some p))) (\<lambda>_.
     if p = Null then exit1 e else ret p))"

text \<open>The phase that creates the struct; the size of a pointer is 8.\<close>

definition create_transaction ::
  "timeval \<Rightarrow> ptr \<Rightarrow> ptr \<Rightarrow> ptr \<Rightarrow> trx_draft \<Rightarrow> Signature \<Rightarrow> (ptr, ('k, 'z) trx_state_scheme) prog" where
  "create_transaction now subj dat receiver d sg =
     bind malloc_transaction (\<lambda>trx.
     bind (trx_set trx (\<lambda>t. t\<lparr>created_at := Some now\<rparr>)) (\<lambda>_.
     bind (alloc_field trx (\<lambda>p t. t\<lparr>issuer_address := p\<rparr>) (8 * d_issuer_len d) ''Failed to allocate [ %li ] bytes'') (\<lambda>p.
     bind (strncpy p (d_issuer d) (d_issuer_len d)) (\<lambda>_.
     bind (alloc_field trx (\<lambda>p t. t\<lparr>receiver_address := p\<rparr>) (8 * d_issuer_len d) ''Failed to allocate [ %li ] bytes'') (\<lambda>p.
     bind (strncpy p receiver (d_receiver_len d)) (\<lambda>_.
     bind (alloc_field trx (\<lambda>p t. t\<lparr>subject := p\<rparr>) (d_subject_len d) ''Failed to allocate [ %li ] bytes'') (\<lambda>p.
     bind (strncpy p subj (d_subject_len d)) (\<lambda>_.
     bind (alloc_field trx (\<lambda>p t. t\<lparr>data := p\<rparr>) (d_data_len d) ''Failed to allocate [ %li ] bytes'') (\<lambda>p.
     bind (strncpy p dat (d_data_len d)) (\<lambda>_.
     if signature_len sg \<noteq> SIGNATURE_LEN
     then exit1 ''Wrong signature_len, expected: [ %i ], received: [ %li ]''
     else
       bind (alloc_field trx (\<lambda>p t. t\<lparr>issuer_signature := p\<rparr>) SIGNATURE_LEN ''Failed to allocate [ %i ] bytes'') (\<lambda>p.
       bind (strncpy p (signature_buffer sg) SIGNATURE_LEN) (\<lambda>_.
       bind (trx_set trx (\<lambda>t. t\<lparr>receiver_signature := Some Null\<rparr>)) (\<lambda>_.
       if digest_len sg \<noteq> SHA256_DIGEST_LENGTH
       then exit1 ''Wrong digest_len, expected: [ %i ], received: [ %li ]''
       else
         bind (alloc_field trx (\<lambda>p t. t\<lparr>hash := p\<rparr>) SHA256_DIGEST_LENGTH ''Failed to allocate [ %i ] bytes'') (\<lambda>p.
         bind (strncpy p (digest_buffer sg) SHA256_DIGEST_LENGTH) (\<lambda>_.
         ret trx)))))))))))))))"

definition Transaction_new ::
  "'k openssl \<Rightarrow> timeval \<Rightarrow> ptr \<Rightarrow> ptr \<Rightarrow> ptr \<Rightarrow> Signer option \<Rightarrow> (ptr, ('k, 'z) trx_state_scheme) prog" where
  "Transaction_new ossl now subj dat receiver s =
     bind (is_empty receiver) (\<lambda>e.
     if e then exit1 ''Given receiver address is empty''
     else bind (is_empty subj) (\<lambda>e.
     if e then exit1 ''Given subject is empty''
     else bind (is_empty dat) (\<lambda>e.
     if e then exit1 ''Given data is empty''
     else
       bind (prepare_buffer ossl now subj dat receiver s) (\<lambda>d.
       bind (Signer_sign ossl s (d_buffer d) (d_buf_len d)) (\<lambda>sg.
       bind (create_transaction now subj dat receiver d sg) (\<lambda>trx.
       bind (free (d_issuer d)) (\<lambda>_.
       bind (RawCryptoKey_free (Some (d_raw_key d))) (\<lambda>_.
       bind (free (d_buffer d)) (\<lambda>_.
       bind (Signature_free (Some sg)) (\<lambda>_.
       ret trx))))))))))"

section \<open>Destruction\<close>

definition free_field ::
  "ptr \<Rightarrow> (Transaction \<Rightarrow> ptr option) \<Rightarrow> (ptr option \<Rightarrow> Transaction \<Rightarrow> Transaction) \<Rightarrow> (unit, ('k, 'z) trx_state_scheme) prog" where
  "free_field trx get assign =
     bind (trx_get trx) (\<lambda>t.
     bind (field (get t)) (\<lambda>p.
       if p = Null then ret ()
       else bind (free p) (\<lambda>_. trx_set trx (assign (Some Null)))))"

text \<open>\<^verbatim>\<open>Transaction_free(&trx)\<close>: the result is the value of \<^verbatim>\<open>trx\<close> afterwards.\<close>

definition Transaction_free :: "ptr \<Rightarrow> (ptr, ('k, 'z) trx_state_scheme) prog" where
  "Transaction_free trx =
     (if trx = Null then ret Null
      else
        bind (free_field trx data (\<lambda>p t. t\<lparr>data := p\<rparr>)) (\<lambda>_.
        bind (free_field trx subject (\<lambda>p t. t\<lparr>subject := p\<rparr>)) (\<lambda>_.
        bind (free_field trx issuer_address (\<lambda>p t. t\<lparr>issuer_address := p\<rparr>)) (\<lambda>_.
        bind (free_field trx receiver_address (\<lambda>p t. t\<lparr>receiver_address := p\<rparr>)) (\<lambda>_.
        bind (free_field trx issuer_signature (\<lambda>p t. t\<lparr>issuer_signature := p\<rparr>)) (\<lambda>_.
        bind (free_field trx receiver_signature (\<lambda>p t. t\<lparr>receiver_signature := p\<rparr>)) (\<lambda>_.
        bind (free_field trx hash (\<lambda>p t. t\<lparr>hash := p\<rparr>)) (\<lambda>_.
        bind (free_transaction trx) (\<lambda>_. ret Null)))))))))"

section \<open>Filling a block piece by piece\<close>

lemma splice_fill:
  "off = length pre \<Longrightarrow> length bs \<le> n \<Longrightarrow>
   splice (map Some pre @ replicate n None) off (map Some bs) = map Some (pre @ bs) @ replicate (n - length bs) None"
  by (simp add: splice_def)

lemma store_fill:
  assumes "off = length pre" and "length bs \<le> n"
  shows "store (Ptr (next_id m) off) bs (with_block a (map Some pre @ replicate n None) m) =
    Ret ((), with_block a (map Some (pre @ bs) @ replicate (n - length bs) None) m)"
  using assms by (simp add: prog_simps splice_fill)

lemma strncpy_fill:
  assumes "wf_mem m" and "string_at m src s" and "off = length pre" and "k = length s" and "length s \<le> n"
  shows "strncpy (Ptr (next_id m) off) src k (with_block a (map Some pre @ replicate n None) m) =
    Ret ((), with_block a (map Some (pre @ s) @ replicate (n - length s) None) m)"
  using assms string_at_old [OF same_old_with_block [OF assms(1)] assms(2)]
  by (simp add: strncpy_string_at [where s = s] store_fill)

lemma strncpy_array_fill:
  assumes "off = length pre" and "k = length bs" and "length bs \<le> n"
  shows "strncpy_array (Ptr (next_id m) off) bs k (with_block a (map Some pre @ replicate n None) m) =
    Ret ((), with_block a (map Some (pre @ strncpy_bytes bs k) @ replicate (n - length bs) None) m)"
  using assms by (simp add: strncpy_array_run store_fill)

lemma strncpy_bytes_fill:
  assumes "wf_mem m" and "bytes_at m src bs" and "k = length bs"
  shows "strncpy (Ptr (next_id m) 0) src k (with_block a (replicate k None) m) =
    Ret ((), with_block a (map Some (strncpy_bytes bs k)) m)"
  using assms bytes_at_old [OF same_old_with_block [OF assms(1)] assms(2)]
    store_fill [of 0 "[]" "strncpy_bytes bs k" k m a]
  by (simp add: strncpy_bytes_at [where bs = bs])

lemma is_empty_run [prog_simps]: "string_at m p s \<Longrightarrow> is_empty p m = Ret (s = [], m)"
  using string_at_not_null by (auto simp: is_empty_def prog_simps)

section \<open>The signed message\<close>

definition timestamp_bytes :: "timeval \<Rightarrow> byte list" where
  "timestamp_bytes now = convertToCharArrayLittleEndian (word_of_int (tv_sec now + tv_usec now))"

lemma length_timestamp_bytes [simp]: "length (timestamp_bytes now) = 8"
  by (simp add: timestamp_bytes_def convertToCharArrayLittleEndian_def)

definition issuer_text :: "'k openssl \<Rightarrow> byte list \<Rightarrow> byte list" where
  "issuer_text ossl pub = address_text ossl WalletVersion pub"

lemma issuer_text_not_empty: "issuer_text ossl pub \<noteq> []"
proof
  assume "issuer_text ossl pub = []"
  then have "b58_ones (b58_text (address_payload ossl 0 pub)) = 0"
    by (simp add: issuer_text_def address_text_def b58_ones_def)
  then show False by (simp add: b58_ones_text b58_zeros_def address_payload_def)
qed

definition trx_message :: "'k openssl \<Rightarrow> timeval \<Rightarrow> byte list \<Rightarrow> byte list \<Rightarrow> byte list \<Rightarrow> byte list \<Rightarrow> byte list" where
  "trx_message ossl now pub sb db rb =
     sb @ db @ issuer_text ossl pub @ rb @ strncpy_bytes (timestamp_bytes now) 8"

definition prepared :: "'k openssl \<Rightarrow> byte list \<Rightarrow> 'z mem_scheme \<Rightarrow> 'z mem_scheme" where
  "prepared ossl pub m = with_block Malloc (address_cells (issuer_text ossl pub)) (with_block Malloc (map Some pub) m)"

lemma prepared_fields [simp]:
  "next_id (prepared ossl pub m) = Suc (Suc (next_id m))"
  "denied (prepared ossl pub m) = denied m"
  "wf_mem m \<Longrightarrow> wf_mem (prepared ossl pub m)"
  "wf_mem m \<Longrightarrow> same_old_blocks m (prepared ossl pub m)"
  using same_old_blocks_trans [of m "with_block Malloc (map Some pub) m" "prepared ossl pub m"]
  by (simp_all add: prepared_def)

lemma prepared_issuer: "string_at (prepared ossl pub m) (Ptr (Suc (next_id m)) 0) (issuer_text ossl pub)"
  unfolding prepared_def address_cells_def issuer_text_def
  using string_at_with_block [OF address_text_no_nul, of Malloc ossl 0 pub _ "with_block Malloc (map Some pub) m"] by simp

definition trx_strings :: "'z mem_scheme \<Rightarrow> ptr \<Rightarrow> byte list \<Rightarrow> ptr \<Rightarrow> byte list \<Rightarrow> ptr \<Rightarrow> byte list \<Rightarrow> bool" where
  "trx_strings m subj sb dat db receiver rb \<longleftrightarrow>
     string_at m subj sb \<and> string_at m dat db \<and> string_at m receiver rb \<and> sb \<noteq> [] \<and> db \<noteq> [] \<and> rb \<noteq> [] \<and>
     length sb + length db + length rb + 64 < SIZE_MOD"

lemma prepare_buffer_run:
  fixes m :: "('k, 'z) node_state_scheme"
  assumes "wf_node m" and "\<forall>x < next_id m + 3. \<not> denied m x" and "sha256_digests ossl" and "pkeys m i = Some k"
    and "raw_public_is ossl k pub" and "trx_strings m subj sb dat db receiver rb"
  shows "prepare_buffer ossl now subj dat receiver (Some \<lparr>evpkey = Ptr i 0\<rparr>) m =
    Ret (\<lparr>d_raw_key = \<lparr>rk_buffer = Some (Ptr (next_id m) 0), rk_len = Some 32\<rparr>,
          d_issuer = Ptr (next_id m + 1) 0, d_buffer = Ptr (next_id m + 2) 0,
          d_buf_len = length (trx_message ossl now pub sb db rb),
          d_subject_len = length sb, d_data_len = length db, d_issuer_len = length (issuer_text ossl pub),
          d_receiver_len = length rb\<rparr>,
         with_block Malloc (map Some (trx_message ossl now pub sb db rb)) (prepared ossl pub m))"
proof -
  let ?m1 = "with_block Malloc (map Some pub) m" and ?m2 = "prepared ossl pub m" and ?a = "issuer_text ossl pub"
  have pub: "length pub = 32" "EVP_PKEY_get_raw_public_key ossl k None = Some ([], 32)"
    "EVP_PKEY_get_raw_public_key ossl k (Some 32) = Some (pub, 32)"
    using assms(5) by (simp_all add: raw_public_is_def)
  have wf: "wf_mem m" using assms(1) by (rule wf_node_mem)
  have raw: "Signer_get_public_key ossl (Some \<lparr>evpkey = Ptr i 0\<rparr>) m =
      Ret (\<lparr>rk_buffer = Some (Ptr (next_id m) 0), rk_len = Some 32\<rparr>, ?m1)"
    using get_raw_key_run [where get = "EVP_PKEY_get_raw_public_key ossl", OF assms(1,4) pub] assms(2)
    by (simp add: Signer_get_public_key_def)
  have "bytes_at ?m1 (Ptr (next_id m) 0) pub" by (rule bytes_at_block) simp
  then have enc: "encode_address_from_raw ossl 0 (Ptr (next_id m) 0) 32 ?m1 = Ret (Ptr (Suc (next_id m)) 0, ?m2)"
    using encode_address_run [OF assms(3) _ pub(1), of ?m1 "Ptr (next_id m) 0" 0] assms(2)
    by (simp add: prepared_def issuer_text_def)
  have str: "string_at ?m2 subj sb" "string_at ?m2 dat db" "string_at ?m2 receiver rb"
    using assms(6) wf by (auto simp: trx_strings_def intro: string_at_old [of m])
  have a: "string_at ?m2 (Ptr (Suc (next_id m)) 0) ?a" by (rule prepared_issuer)
  have "length ?a \<le> 52" using length_address_text [OF assms(3) pub(1)] by (simp add: issuer_text_def)
  then have len: "length sb + length db + length ?a + length rb + 8 < SIZE_MOD"
    using assms(6) by (simp add: trx_strings_def)
  let ?n = "length sb + length db + length ?a + length rb + 8" and ?p = "Ptr (Suc (Suc (next_id m)))"
  define W where "W bs = with_block Malloc (map Some bs @ replicate (?n - length bs) None) ?m2" for bs
  have fill: "strncpy (?p (length pre)) src (length s) (W pre) = Ret ((), W (pre @ s))"
    if "string_at ?m2 src s" and "length pre + length s \<le> ?n" for src s pre
    using strncpy_fill [of ?m2 src s "length pre" pre "length s" "?n - length pre" Malloc] that wf by (simp add: W_def)
  have copies:
    "strncpy (?p 0) subj (length sb) (with_block Malloc (replicate ?n None) ?m2) = Ret ((), W sb)"
    "strncpy (?p (length sb)) dat (length db) (W sb) = Ret ((), W (sb @ db))"
    "strncpy (?p (length sb + length db)) (Ptr (Suc (next_id m)) 0) (length ?a) (W (sb @ db)) =
       Ret ((), W (sb @ db @ ?a))"
    "strncpy (?p (length sb + length db + length ?a)) receiver (length rb) (W (sb @ db @ ?a)) =
       Ret ((), W (sb @ db @ ?a @ rb))"
    using fill [OF str(1), of "[]"] fill [OF str(2), of sb] fill [OF a, of "sb @ db"] fill [OF str(3), of "sb @ db @ ?a"]
    by (simp_all add: add.assoc W_def [of "[]"])
  have ts: "strncpy_array (?p (length sb + length db + length ?a + length rb)) (timestamp_bytes now) 8
      (W (sb @ db @ ?a @ rb)) = Ret ((), with_block Malloc (map Some (trx_message ossl now pub sb db rb)) ?m2)"
    using strncpy_array_fill [of "length sb + length db + length ?a + length rb" "sb @ db @ ?a @ rb" 8
        "timestamp_bytes now" 8 ?m2 Malloc]
    by (simp add: trx_message_def add.assoc W_def)
  have n: "length (trx_message ossl now pub sb db rb) = ?n" by (simp add: trx_message_def)
  note steps = prog_run field_run raw enc is_empty_run [OF a] strlen_at [OF str(1)] strlen_at [OF str(2)]
    strlen_at [OF str(3)] strlen_at [OF a] new_block_steps(1) [of ?m2]
  show ?thesis
    using assms(2) len issuer_text_not_empty [of ossl pub]
    by (simp add: prepare_buffer_def steps Let_def n copies ts timestamp_bytes_def [symmetric] del: of_int_add)
qed

section \<open>The struct phase\<close>

definition upd_trx :: "nat \<Rightarrow> (Transaction \<Rightarrow> Transaction) \<Rightarrow> ('k, 'z) trx_state_scheme \<Rightarrow> ('k, 'z) trx_state_scheme" where
  "upd_trx i f m = m\<lparr>trxs := (trxs m)(i := map_option f (trxs m i))\<rparr>"

lemma upd_trx_fields [simp]:
  "blocks (upd_trx i f m) = blocks m" "next_id (upd_trx i f m) = next_id m" "denied (upd_trx i f m) = denied m"
  "wf_mem (upd_trx i f m) = wf_mem m" "trxs (upd_trx i f m) = (trxs m)(i := map_option f (trxs m i))"
  by (simp_all add: upd_trx_def wf_mem_def)

lemma string_at_upd_trx [simp]: "string_at (upd_trx i f m) p s = string_at m p s"
  by (cases p) (simp_all add: string_at_cells cells_at_def)

lemma bytes_at_upd_trx [simp]: "bytes_at (upd_trx i f m) p s = bytes_at m p s"
  by (rule bytes_at_cong) simp

lemma string_at_with_block_old [simp]: "wf_mem m \<Longrightarrow> string_at m p s \<Longrightarrow> string_at (with_block a cs m) p s"
  by (rule string_at_old [OF same_old_with_block])

lemma bytes_at_with_block_old [simp]: "wf_mem m \<Longrightarrow> bytes_at m p s \<Longrightarrow> bytes_at (with_block a cs m) p s"
  by (rule bytes_at_old [OF same_old_with_block])

lemma trxs_with_block [simp]:
  fixes m :: "('k, 'z) trx_state_scheme"
  shows "trxs (with_block a cs m) = trxs m"
  by (simp add: with_block_def)

lemma trx_access_run [prog_simps]:
  "trxs m i = Some t \<Longrightarrow> trx_get (Ptr i j) m = Ret (t, m)"
  "trxs m i \<noteq> None \<Longrightarrow> trx_set (Ptr i j) f m = Ret ((), upd_trx i f m)"
  by (auto simp: trx_get_def trx_set_def upd_trx_def)

lemma trx_set_bind: "trxs m i \<noteq> None \<Longrightarrow> bind (trx_set (Ptr i j) f) (\<lambda>_. g) m = g (upd_trx i f m)"
  by (simp add: prog_run trx_access_run)

text \<open>A field that is allocated and gets a copy of a string, or of a fixed number of bytes.\<close>

definition add_field ::
  "nat \<Rightarrow> (ptr option \<Rightarrow> Transaction \<Rightarrow> Transaction) \<Rightarrow> byte option list \<Rightarrow> ('k, 'z) trx_state_scheme
     \<Rightarrow> ('k, 'z) trx_state_scheme" where
  "add_field i assign cs m = with_block Malloc cs (upd_trx i (assign (Some (Ptr (next_id m) 0))) m)"

lemma add_field_fields [simp]:
  "next_id (add_field i f cs m) = Suc (next_id m)" "denied (add_field i f cs m) = denied m"
  "wf_mem m \<Longrightarrow> wf_mem (add_field i f cs m)"
  "trxs (add_field i f cs m) = (trxs m)(i := map_option (f (Some (Ptr (next_id m) 0))) (trxs m i))"
  "wf_mem m \<Longrightarrow> string_at m p s \<Longrightarrow> string_at (add_field i f cs m) p s"
  "wf_mem m \<Longrightarrow> bytes_at m p s \<Longrightarrow> bytes_at (add_field i f cs m) p s"
  by (simp_all add: add_field_def)

lemma alloc_field_run:
  assumes "trxs m i \<noteq> None" and "\<not> denied m (next_id m)" and "n < SIZE_MOD"
  shows "alloc_field (Ptr i 0) f n e m = Ret (Ptr (next_id m) 0, add_field i f (replicate n None) m)"
proof -
  have "upd_trx i g (with_block Malloc cs m) = with_block Malloc cs (upd_trx i g m)" for g cs
    by (simp add: upd_trx_def with_block_def)
  then show ?thesis
    using assms by (simp add: alloc_field_def prog_simps new_block_steps(1) [of m] add_field_def)
qed

lemma copy_string_field:
  assumes "trxs m i \<noteq> None" and "\<not> denied m (next_id m)" and "n < SIZE_MOD"
    and "wf_mem m" and "string_at m src s" and "k = length s" and "length s \<le> n"
  shows "bind (alloc_field (Ptr i 0) f n e) (\<lambda>p. bind (strncpy p src k) (\<lambda>_. g)) m =
    g (add_field i f (map Some s @ replicate (n - length s) None) m)"
  using assms alloc_field_run [OF assms(1-3)]
    strncpy_fill [of "upd_trx i (f (Some (Ptr (next_id m) 0))) m" src s 0 "[]" k n Malloc]
  by (simp add: prog_run add_field_def)

lemma copy_bytes_field:
  assumes "trxs m i \<noteq> None" and "\<not> denied m (next_id m)" and "n < SIZE_MOD"
    and "wf_mem m" and "bytes_at m src bs" and "n = length bs"
  shows "bind (alloc_field (Ptr i 0) f n e) (\<lambda>p. bind (strncpy p src n) (\<lambda>_. g)) m =
    g (add_field i f (map Some (strncpy_bytes bs n)) m)"
  using assms alloc_field_run [OF assms(1-3)]
    strncpy_bytes_fill [of "upd_trx i (f (Some (Ptr (next_id m) 0))) m" src bs n Malloc]
  by (simp add: prog_run add_field_def)

text \<open>The cells of a copied string in a block of \<open>n\<close> bytes.\<close>

definition copied :: "byte list \<Rightarrow> nat \<Rightarrow> byte option list" where
  "copied s n = map Some s @ replicate (n - length s) None"

definition with_transaction :: "('k, 'z) trx_state_scheme \<Rightarrow> ('k, 'z) trx_state_scheme" where
  "with_transaction m = m\<lparr>next_id := Suc (next_id m), trxs := (trxs m)(next_id m \<mapsto> blank_transaction)\<rparr>"

lemma with_transaction_fields [simp]:
  "next_id (with_transaction m) = Suc (next_id m)" "denied (with_transaction m) = denied m"
  "wf_mem m \<Longrightarrow> wf_mem (with_transaction m)"
  "trxs (with_transaction m) = (trxs m)(next_id m \<mapsto> blank_transaction)"
  "string_at (with_transaction m) p s = string_at m p s" "bytes_at (with_transaction m) p s = bytes_at m p s"
  by (cases p; simp add: with_transaction_def wf_mem_def string_at_cells bytes_at_cells cells_at_def)+

definition created ::
  "timeval \<Rightarrow> byte list \<Rightarrow> byte list \<Rightarrow> byte list \<Rightarrow> byte list \<Rightarrow> byte list \<Rightarrow> byte list
     \<Rightarrow> ('k, 'z) trx_state_scheme \<Rightarrow> ('k, 'z) trx_state_scheme" where
  "created now ib rb sb db sigb h m =
     (let i = next_id m
      in add_field i (\<lambda>p t. t\<lparr>hash := p\<rparr>) (map Some (strncpy_bytes h 32))
         (upd_trx i (\<lambda>t. t\<lparr>receiver_signature := Some Null\<rparr>)
         (add_field i (\<lambda>p t. t\<lparr>issuer_signature := p\<rparr>) (map Some (strncpy_bytes sigb 64))
         (add_field i (\<lambda>p t. t\<lparr>data := p\<rparr>) (copied db (length db))
         (add_field i (\<lambda>p t. t\<lparr>subject := p\<rparr>) (copied sb (length sb))
         (add_field i (\<lambda>p t. t\<lparr>receiver_address := p\<rparr>) (copied rb (8 * length ib))
         (add_field i (\<lambda>p t. t\<lparr>issuer_address := p\<rparr>) (copied ib (8 * length ib))
         (upd_trx i (\<lambda>t. t\<lparr>created_at := Some now\<rparr>) (with_transaction m)))))))))"

lemma create_transaction_run:
  fixes m :: "('k, 'z) trx_state_scheme"
  assumes "wf_mem m" and "\<forall>x. \<not> denied m x"
    and "string_at m subj sb" "string_at m dat db" "string_at m receiver rb" "string_at m (d_issuer d) ib"
    and "d_subject_len d = length sb" "d_data_len d = length db" "d_receiver_len d = length rb" "d_issuer_len d = length ib"
    and "length sb < SIZE_MOD" "length db < SIZE_MOD" "8 * length ib < SIZE_MOD" "length rb \<le> 8 * length ib"
    and "bytes_at m (signature_buffer sg) sigb" "length sigb = 64" "signature_len sg = 64"
    and "bytes_at m (digest_buffer sg) h" "length h = 32" "digest_len sg = 32"
  shows "create_transaction now subj dat receiver d sg m = Ret (Ptr (next_id m) 0, created now ib rb sb db sigb h m)"
proof -
  have "malloc_transaction m = Ret (Ptr (next_id m) 0, with_transaction m)"
    using assms(2) by (simp add: malloc_transaction_def with_transaction_def Let_def)
  then show ?thesis
    using assms
    by (simp add: create_transaction_def prog_run(4) [of malloc_transaction] prog_run(1) trx_set_bind
        copy_string_field [where s = sb] copy_string_field [where s = db] copy_string_field [where s = rb]
        copy_string_field [where s = ib] copy_bytes_field [where bs = sigb] copy_bytes_field [where bs = h]
        created_def copied_def Let_def)
qed

definition full_transaction :: "timeval \<Rightarrow> nat \<Rightarrow> Transaction" where
  "full_transaction now i = \<lparr>created_at = Some now, issuer_address = Some (Ptr (i + 1) 0),
     receiver_address = Some (Ptr (i + 2) 0), subject = Some (Ptr (i + 3) 0), data = Some (Ptr (i + 4) 0),
     issuer_signature = Some (Ptr (i + 5) 0), receiver_signature = Some Null, hash = Some (Ptr (i + 6) 0)\<rparr>"

text \<open>The blocks of a transaction with number \<open>i\<close>.\<close>

definition trx_blocks ::
  "byte list \<Rightarrow> byte list \<Rightarrow> byte list \<Rightarrow> byte list \<Rightarrow> byte list \<Rightarrow> byte list \<Rightarrow> nat
     \<Rightarrow> (nat \<Rightarrow> (allocator \<times> byte option list) option) \<Rightarrow> nat \<Rightarrow> (allocator \<times> byte option list) option" where
  "trx_blocks ib rb sb db sigb h i bl = bl(
     i + 1 \<mapsto> (Malloc, copied ib (8 * length ib)),
     i + 2 \<mapsto> (Malloc, copied rb (8 * length ib)),
     i + 3 \<mapsto> (Malloc, map Some sb),
     i + 4 \<mapsto> (Malloc, map Some db),
     i + 5 \<mapsto> (Malloc, map Some (strncpy_bytes sigb 64)),
     i + 6 \<mapsto> (Malloc, map Some (strncpy_bytes h 32)))"

lemma created_eq:
  "created now ib rb sb db sigb h m = m\<lparr>next_id := next_id m + 7,
     blocks := trx_blocks ib rb sb db sigb h (next_id m) (blocks m),
     trxs := (trxs m)(next_id m \<mapsto> full_transaction now (next_id m))\<rparr>"
  by (simp add: created_def add_field_def upd_trx_def with_block_def with_transaction_def blank_transaction_def
      full_transaction_def trx_blocks_def copied_def Let_def eval_nat_numeral)

definition wf_trx :: "('k, 'z) trx_state_scheme \<Rightarrow> bool" where
  "wf_trx m \<longleftrightarrow> wf_node m \<and> (\<forall>i. next_id m \<le> i \<longrightarrow> trxs m i = None)"

lemma wf_node_with_block [simp]: "wf_node m \<Longrightarrow> wf_node (with_block a cs m)"
  by (auto simp: wf_node_def with_block_def wf_mem_def)

lemma wf_node_prepared [simp]: "wf_node m \<Longrightarrow> wf_node (prepared ossl pub m)"
  by (simp add: prepared_def)

text \<open>
  The state of \<^verbatim>\<open>Transaction_new\<close> before the cleanup: besides the blocks of the
  transaction there are five of its own, which the cleanup releases.
\<close>

definition working_blocks ::
  "byte list \<Rightarrow> byte option list \<Rightarrow> byte list \<Rightarrow> byte list \<Rightarrow> byte list \<Rightarrow> nat
     \<Rightarrow> (nat \<Rightarrow> (allocator \<times> byte option list) option) \<Rightarrow> nat \<Rightarrow> (allocator \<times> byte option list) option" where
  "working_blocks pub addr msg h sigb k bl = bl(
     k \<mapsto> (Malloc, map Some pub), Suc k \<mapsto> (Malloc, addr), Suc (Suc k) \<mapsto> (Malloc, map Some msg),
     k + 3 \<mapsto> (Malloc, map Some h), k + 5 \<mapsto> (OpenSSL, map Some sigb))"

definition cleanup_blocks ::
  "nat \<Rightarrow> (nat \<Rightarrow> (allocator \<times> byte option list) option) \<Rightarrow> nat \<Rightarrow> (allocator \<times> byte option list) option" where
  "cleanup_blocks k bl = bl(Suc k := None, k := None, Suc (Suc k) := None, k + 5 := None, k + 3 := None)"

definition trx_signature :: "nat \<Rightarrow> Signature" where
  "trx_signature k = \<lparr>digest_buffer = Ptr (k + 3) 0, signature_buffer = Ptr (k + 5) 0, digest_len = 32, signature_len = 64\<rparr>"

lemma cleanup_run:
  fixes M :: "'z mem_scheme"
  assumes "blocks M = trx_blocks ib rb sb db sigb h (k + 6) (working_blocks pub addr msg h sigb k bl)"
  shows "bind (free (Ptr (Suc k) 0)) (\<lambda>_.
    bind (RawCryptoKey_free (Some \<lparr>rk_buffer = Some (Ptr k 0), rk_len = Some 32\<rparr>)) (\<lambda>_.
    bind (free (Ptr (Suc (Suc k)) 0)) (\<lambda>_.
    bind (Signature_free (Some (trx_signature k))) (\<lambda>_. ret trx)))) M =
    Ret (trx, M\<lparr>blocks := cleanup_blocks k (blocks M)\<rparr>)"
  using assms
  by (simp add: prog_simps free_def OPENSSL_free_def RawCryptoKey_free_def Signature_free_def Let_def
      trx_blocks_def working_blocks_def cleanup_blocks_def trx_signature_def)

lemma cleanup_blocks_eq:
  assumes "\<And>x. k \<le> x \<Longrightarrow> bl x = None"
  shows "cleanup_blocks k (trx_blocks ib rb sb db sigb h (k + 6) (working_blocks pub addr msg h sigb k bl)) =
    trx_blocks ib rb sb db sigb h (k + 6) bl"
  using assms by (auto simp: fun_eq_iff cleanup_blocks_def trx_blocks_def working_blocks_def)

text \<open>The state after the sign phase.\<close>

definition signed_state ::
  "'k openssl \<Rightarrow> byte list \<Rightarrow> byte list \<Rightarrow> byte list \<Rightarrow> byte list \<Rightarrow> 'z mem_scheme \<Rightarrow> 'z mem_scheme" where
  "signed_state ossl pub msg h sigb m = m\<lparr>next_id := next_id m + 6,
     blocks := working_blocks pub (address_cells (issuer_text ossl pub)) msg h sigb (next_id m) (blocks m)\<rparr>"

lemma signed_state_fields [simp]:
  "next_id (signed_state ossl pub msg h sigb m) = next_id m + 6"
  "denied (signed_state ossl pub msg h sigb m) = denied m"
  "blocks (signed_state ossl pub msg h sigb m) =
     working_blocks pub (address_cells (issuer_text ossl pub)) msg h sigb (next_id m) (blocks m)"
  by (simp_all add: signed_state_def)

lemma signed_state_facts:
  assumes "wf_mem m"
  shows "wf_mem (signed_state ossl pub msg h sigb m)" "same_old_blocks m (signed_state ossl pub msg h sigb m)"
    "string_at (signed_state ossl pub msg h sigb m) (Ptr (Suc (next_id m)) 0) (issuer_text ossl pub)"
    "bytes_at (signed_state ossl pub msg h sigb m) (Ptr (next_id m + 5) 0) sigb"
    "bytes_at (signed_state ossl pub msg h sigb m) (Ptr (next_id m + 3) 0) h"
proof -
  show "string_at (signed_state ossl pub msg h sigb m) (Ptr (Suc (next_id m)) 0) (issuer_text ossl pub)"
    using address_text_no_nul [of ossl 0 pub]
    by (simp add: string_at_cells cells_at_def signed_state_def working_blocks_def address_cells_def issuer_text_def)
qed (use assms in \<open>auto simp: signed_state_def working_blocks_def wf_mem_def same_old_blocks_def intro!: bytes_at_block\<close>)

text \<open>What the first two phases leave for the others.\<close>

lemma Transaction_phases:
  fixes m :: "('k, 'z) trx_state_scheme"
  assumes "wf_node m" and "\<forall>x < next_id m + 6. \<not> denied m x" and "sha256_digests ossl" and "pkeys m i = Some key"
    and "raw_public_is ossl key pub" and "signs_with ossl key sign"
    and "trx_strings m subj sb dat db receiver rb"
    and "SHA256 ossl (trx_message ossl now pub sb db rb) = Some h"
  obtains d where
    "Transaction_new ossl now subj dat receiver (Some \<lparr>evpkey = Ptr i 0\<rparr>) m =
       bind (create_transaction now subj dat receiver d (trx_signature (next_id m))) (\<lambda>trx.
       bind (free (Ptr (Suc (next_id m)) 0)) (\<lambda>_.
       bind (RawCryptoKey_free (Some \<lparr>rk_buffer = Some (Ptr (next_id m) 0), rk_len = Some 32\<rparr>)) (\<lambda>_.
       bind (free (Ptr (Suc (Suc (next_id m))) 0)) (\<lambda>_.
       bind (Signature_free (Some (trx_signature (next_id m)))) (\<lambda>_. ret trx)))))
       (signed_state ossl pub (trx_message ossl now pub sb db rb) h (sign h) m)"
    "d_issuer d = Ptr (Suc (next_id m)) 0" "d_subject_len d = length sb" "d_data_len d = length db"
    "d_receiver_len d = length rb" "d_issuer_len d = length (issuer_text ossl pub)"
proof -
  let ?k = "next_id m" and ?msg = "trx_message ossl now pub sb db rb"
  let ?m1 = "with_block Malloc (map Some ?msg) (prepared ossl pub m)"
  have h: "length h = 32" using sha256_Some [OF assms(3)] assms(8) by (metis option.sel)
  have "pkeys ?m1 i = Some key" using assms(4) by (simp add: prepared_def)
  moreover have "message_at ?m1 (Ptr (?k + 2) 0) (length ?msg) ?msg"
    by (auto simp: message_at_def trx_message_def issuer_text_not_empty intro: bytes_at_block)
  moreover have "wf_node ?m1" using assms(1) by simp
  ultimately have sign: "Signer_sign ossl (Some \<lparr>evpkey = Ptr i 0\<rparr>) (Ptr (?k + 2) 0) (length ?msg) ?m1 =
      Ret (trx_signature ?k, signed_state ossl pub ?msg h (sign h) m)"
    using Signer_sign_run [of ?m1 "Ptr (?k + 2) 0" "length ?msg" ?msg ossl h i key sign] assms(2,6,8) h
    by (simp add: eval_nat_numeral signed_state_def working_blocks_def prepared_def with_block_def trx_signature_def)
  have strs: "string_at m subj sb" "string_at m dat db" "string_at m receiver rb" "sb \<noteq> []" "db \<noteq> []" "rb \<noteq> []"
    using assms(7) by (simp_all add: trx_strings_def)
  obtain d where d: "prepare_buffer ossl now subj dat receiver (Some \<lparr>evpkey = Ptr i 0\<rparr>) m = Ret (d, ?m1)"
    "d_buffer d = Ptr (?k + 2) 0" "d_buf_len d = length ?msg"
    "d_raw_key d = \<lparr>rk_buffer = Some (Ptr ?k 0), rk_len = Some 32\<rparr>" and
    sizes: "d_issuer d = Ptr (Suc ?k) 0" "d_subject_len d = length sb" "d_data_len d = length db"
      "d_receiver_len d = length rb" "d_issuer_len d = length (issuer_text ossl pub)"
    by (rule that [OF prepare_buffer_run [OF assms(1) _ assms(3-5,7), of now]]) (simp_all add: assms(2))
  show thesis
    using that [of d, OF _ sizes] is_empty_run [OF strs(1)] is_empty_run [OF strs(2)] is_empty_run [OF strs(3)]
      strs(4-6) d sizes sign
    by (simp add: Transaction_new_def prog_run)
qed

lemma Transaction_new_run:
  fixes m :: "('k, 'z) trx_state_scheme"
  assumes "wf_node m" and "\<forall>x. \<not> denied m x" and "sha256_digests ossl" and "pkeys m i = Some key"
    and "raw_public_is ossl key pub" and "signs_with ossl key sign"
    and "trx_strings m subj sb dat db receiver rb" and "length rb \<le> 8 * length (issuer_text ossl pub)"
    and "SHA256 ossl (trx_message ossl now pub sb db rb) = Some h"
  shows "Transaction_new ossl now subj dat receiver (Some \<lparr>evpkey = Ptr i 0\<rparr>) m =
    Ret (Ptr (next_id m + 6) 0, m\<lparr>next_id := next_id m + 13,
      blocks := trx_blocks (issuer_text ossl pub) rb sb db (sign h) h (next_id m + 6) (blocks m),
      trxs := (trxs m)(next_id m + 6 \<mapsto> full_transaction now (next_id m + 6))\<rparr>)"
proof -
  let ?k = "next_id m" and ?ib = "issuer_text ossl pub" and ?msg = "trx_message ossl now pub sb db rb"
  let ?m2 = "signed_state ossl pub ?msg h (sign h) m"
  obtain d where run: "Transaction_new ossl now subj dat receiver (Some \<lparr>evpkey = Ptr i 0\<rparr>) m =
       bind (create_transaction now subj dat receiver d (trx_signature ?k)) (\<lambda>trx.
       bind (free (Ptr (Suc ?k) 0)) (\<lambda>_.
       bind (RawCryptoKey_free (Some \<lparr>rk_buffer = Some (Ptr ?k 0), rk_len = Some 32\<rparr>)) (\<lambda>_.
       bind (free (Ptr (Suc (Suc ?k)) 0)) (\<lambda>_.
       bind (Signature_free (Some (trx_signature ?k))) (\<lambda>_. ret trx))))) ?m2"
    and d: "d_issuer d = Ptr (Suc ?k) 0" "d_subject_len d = length sb" "d_data_len d = length db"
      "d_receiver_len d = length rb" "d_issuer_len d = length ?ib"
    using Transaction_phases [OF assms(1) _ assms(3-7,9)] assms(2) by blast
  have wf: "wf_mem m" using assms(1) by (rule wf_node_mem)
  have lens: "length h = 32" "length (sign h) = 64" "length ?ib \<le> 52" "length sb < SIZE_MOD" "length db < SIZE_MOD"
    using sha256_Some [OF assms(3), of ?msg] assms(5-7,9) length_address_text [OF assms(3)]
    by (auto simp: signs_with_def raw_public_is_def issuer_text_def trx_strings_def)
  have strs: "string_at ?m2 subj sb" "string_at ?m2 dat db" "string_at ?m2 receiver rb"
    using assms(7) by (auto simp: trx_strings_def intro: string_at_old [OF signed_state_facts(2) [OF wf]])
  have new: "create_transaction now subj dat receiver d (trx_signature ?k) ?m2 =
      Ret (Ptr (?k + 6) 0, created now ?ib rb sb db (sign h) h ?m2)"
    using create_transaction_run [OF signed_state_facts(1) [OF wf] _ strs, of d ?ib "trx_signature ?k" "sign h" h now]
      lens assms(2,8)
    by (simp add: d trx_signature_def signed_state_facts(3-5) [OF wf])
  show ?thesis
    using cleanup_run [of "created now ?ib rb sb db (sign h) h ?m2" ?ib rb sb db "sign h" h ?k pub "address_cells ?ib" ?msg
        "blocks m" "Ptr (?k + 6) 0"] cleanup_blocks_eq [of ?k "blocks m"] wf
    by (simp add: run new prog_run created_eq wf_mem_def) (simp add: signed_state_def)
qed

section \<open>The time\<close>

text \<open>The bytes are the base-256 digits of the time, most significant first.\<close>

lemma radix_fixed_map: "radix_fixed b k n = map (\<lambda>i. n div b ^ (k - 1 - i) mod b) [0..<k]"
proof (induction k arbitrary: n)
  case (Suc k)
  have "n div b div b ^ (k - 1 - i) = n div b ^ (k - i)" if "i < k" for i
  proof -
    have "k - i = Suc (k - 1 - i)" using that by simp
    then show ?thesis by (simp only: power_Suc div_mult2_eq)
  qed
  then show ?case by (simp add: Suc.IH cong: map_cong)
qed simp

lemma convert_digits: "map unat (convertToCharArrayLittleEndian a) = radix_fixed 256 8 (unat a)"
proof -
  have "unat (ucast (and (drop_bit n a) 0xFF) :: byte) = (unat a div 2 ^ n) mod 256" for n
  proof -
    have "and (drop_bit n a) 0xFF = take_bit 8 (drop_bit n a)"
      by (simp add: take_bit_eq_mask mask_eq_exp_minus_1)
    then show ?thesis
      by (simp only: unsigned_ucast_eq unsigned_take_bit_eq unat_drop_bit_eq)
        (simp add: take_bit_eq_mod drop_bit_eq_div)
  qed
  moreover have "(2 :: nat) ^ (56 - 8 * i) = 256 ^ (7 - i)" if "i < 8" for i
    using power_mult [of "2 :: nat" 8 "7 - i"] that by (simp add: diff_mult_distrib2)
  ultimately show ?thesis
    by (simp add: convertToCharArrayLittleEndian_def radix_fixed_map)
qed

definition bytes_to_time :: "byte list \<Rightarrow> 64 word option" where
  "bytes_to_time bs = (if length bs = 8 then Some (of_nat (radix_val 256 (map unat bs))) else None)"

interpretation ts: codec convertToCharArrayLittleEndian bytes_to_time "\<lambda>_. True"
proof
  fix a :: "64 word"
  have "unat a < 256 ^ 8" using unsigned_less [of a, where ?'a = nat] by simp
  moreover have "length (convertToCharArrayLittleEndian a) = 8" by (simp add: convertToCharArrayLittleEndian_def)
  ultimately show "bytes_to_time (convertToCharArrayLittleEndian a) = Some a"
    by (simp add: bytes_to_time_def convert_digits r256.fixed_val)
qed

text \<open>Times that fit 56 bits start with a NUL byte, at which the copy stops.\<close>

lemma convert_head:
  assumes "unat a < 2 ^ 56"
  shows "\<exists>bs. convertToCharArrayLittleEndian a = 0 # bs"
proof -
  have "map unat (convertToCharArrayLittleEndian a) = 0 # tl (radix_fixed 256 8 (unat a))"
    unfolding convert_digits using assms by (simp add: radix_fixed_map upt_rec)
  then show ?thesis by (cases "convertToCharArrayLittleEndian a") (simp_all add: unsigned_eq_0_iff)
qed

definition usual_time :: "timeval \<Rightarrow> bool" where
  "usual_time now \<longleftrightarrow> 0 \<le> tv_sec now + tv_usec now \<and> tv_sec now + tv_usec now < 2 ^ 56"

lemma usual_time_lost: "usual_time now \<Longrightarrow> strncpy_bytes (timestamp_bytes now) 8 = replicate 8 0"
proof -
  assume t: "usual_time now"
  then have "unat (word_of_int (tv_sec now + tv_usec now) :: 64 word) < 2 ^ 56"
    by (simp add: usual_time_def unsigned_of_int take_bit_int_eq_self nat_less_iff del: of_int_add)
  from convert_head [OF this] show ?thesis
    by (auto simp: timestamp_bytes_def strncpy_bytes_nul_first simp del: of_int_add)
qed

end
