(* ===== verification/Transaction_Props.thy ===== *)
theory Transaction_Props
  imports Transaction
begin

text \<open>
  What holds of \<^verbatim>\<open>Transaction_new\<close> and \<^verbatim>\<open>Transaction_free\<close> as a whole: the exact
  struct and blocks a new transaction consists of, that nothing leaks, what is and is
  not signed, and the inputs on which the function leaves its blocks or reads and
  writes through a NULL pointer.
\<close>

section \<open>Properties\<close>

text \<open>
  A state in which the signer of key object \<open>i\<close> can issue a transaction: the strings
  are there and not empty, and the key has the raw public key \<open>pub\<close> and signs by
  \<open>sign\<close>.
\<close>

definition trx_ready ::
  "'k openssl \<Rightarrow> ('k, 'z) trx_state_scheme \<Rightarrow> nat \<Rightarrow> byte list \<Rightarrow> (byte list \<Rightarrow> byte list)
     \<Rightarrow> ptr \<Rightarrow> byte list \<Rightarrow> ptr \<Rightarrow> byte list \<Rightarrow> ptr \<Rightarrow> byte list \<Rightarrow> bool" where
  "trx_ready ossl m i pub sign subj sb dat db receiver rb \<longleftrightarrow>
     wf_trx m \<and> sha256_digests ossl \<and> trx_strings m subj sb dat db receiver rb \<and>
     (\<exists>key. pkeys m i = Some key \<and> raw_public_is ossl key pub \<and> signs_with ossl key sign)"

definition trx_digest :: "'k openssl \<Rightarrow> timeval \<Rightarrow> byte list \<Rightarrow> byte list \<Rightarrow> byte list \<Rightarrow> byte list \<Rightarrow> byte list" where
  "trx_digest ossl now pub sb db rb = the (SHA256 ossl (trx_message ossl now pub sb db rb))"

definition issued ::
  "'k openssl \<Rightarrow> timeval \<Rightarrow> byte list \<Rightarrow> (byte list \<Rightarrow> byte list) \<Rightarrow> byte list \<Rightarrow> byte list \<Rightarrow> byte list
     \<Rightarrow> ('k, 'z) trx_state_scheme \<Rightarrow> ('k, 'z) trx_state_scheme" where
  "issued ossl now pub sign sb db rb m =
     (let i = next_id m + 6; h = trx_digest ossl now pub sb db rb
      in m\<lparr>next_id := next_id m + 13,
           blocks := trx_blocks (issuer_text ossl pub) rb sb db (sign h) h i (blocks m),
           trxs := (trxs m)(i \<mapsto> full_transaction now i)\<rparr>)"

lemma Transaction_new_ready:
  assumes "trx_ready ossl m i pub sign subj sb dat db receiver rb" and "\<forall>x. \<not> denied m x"
    and "length rb \<le> 8 * length (issuer_text ossl pub)"
  shows "Transaction_new ossl now subj dat receiver (Some \<lparr>evpkey = Ptr i 0\<rparr>) m =
    Ret (Ptr (next_id m + 6) 0, issued ossl now pub sign sb db rb m)"
proof -
  obtain key where "pkeys m i = Some key" "raw_public_is ossl key pub" "signs_with ossl key sign"
    using assms(1) by (auto simp: trx_ready_def)
  moreover have "wf_node m" and sha: "sha256_digests ossl" and "trx_strings m subj sb dat db receiver rb"
    using assms(1) by (simp_all add: trx_ready_def wf_trx_def)
  moreover have "SHA256 ossl (trx_message ossl now pub sb db rb) = Some (trx_digest ossl now pub sb db rb)"
    using sha256_Some [OF sha] by (auto simp: trx_digest_def)
  ultimately show ?thesis
    using Transaction_new_run [of m ossl i key pub sign] assms(2,3) by (simp add: issued_def Let_def)
qed

text \<open>
  C8: \<^verbatim>\<open>Transaction_new\<close> signs the concatenation of subject, data, issuer address,
  receiver address and time, and returns a new struct whose fields are blocks of their
  own: the two addresses, the subject, the data, and \<^verbatim>\<open>strncpy\<close> copies of the
  signature and of the digest. Nothing that was allocated before changes, and every
  working block of the function is released.
\<close>

theorem Transaction_new_behaviour:
  assumes "trx_ready ossl m i pub sign subj sb dat db receiver rb" and "\<forall>x. \<not> denied m x"
    and "length rb \<le> 8 * length (issuer_text ossl pub)"
  shows "Transaction_new ossl now subj dat receiver (Some \<lparr>evpkey = Ptr i 0\<rparr>) m =
    (let k = next_id m + 6; ib = issuer_text ossl pub;
         h = the (SHA256 ossl (sb @ db @ ib @ rb @ strncpy_bytes (timestamp_bytes now) 8))
     in Ret (Ptr k 0, m\<lparr>next_id := k + 7,
          blocks := (blocks m)(
            k + 1 \<mapsto> (Malloc, map Some ib @ replicate (8 * length ib - length ib) None),
            k + 2 \<mapsto> (Malloc, map Some rb @ replicate (8 * length ib - length rb) None),
            k + 3 \<mapsto> (Malloc, map Some sb), k + 4 \<mapsto> (Malloc, map Some db),
            k + 5 \<mapsto> (Malloc, map Some (strncpy_bytes (sign h) 64)),
            k + 6 \<mapsto> (Malloc, map Some (strncpy_bytes h 32))),
          trxs := (trxs m)(k \<mapsto> full_transaction now k)\<rparr>))"
  using Transaction_new_ready [OF assms, of now]
  by (simp add: issued_def trx_blocks_def copied_def trx_digest_def trx_message_def Let_def)

definition sample_trx :: "nat trx_state" where
  "sample_trx = \<lparr>blocks = blocks sample_node, next_id = 4, denied = (\<lambda>_. False), pkeys = pkeys sample_node,
     md_ctxs = Map.empty, pkey_ctxs = Map.empty, files = Map.empty, readonly = (\<lambda>_. False), trxs = Map.empty\<rparr>"

definition sample_time :: timeval where
  "sample_time = \<lparr>tv_sec = 1700000000, tv_usec = 250000\<rparr>"

abbreviation sample_pub :: "byte list" where "sample_pub \<equiv> replicate 32 9"

lemma sample_trx_ready:
  "trx_ready sample_openssl sample_trx 3 sample_pub sample_sign (Ptr 2 0) [104, 105] (Ptr 2 0) [104, 105] (Ptr 2 0) [104, 105]"
  "\<not> denied sample_trx x" "length [104, 105 :: byte] \<le> 8 * length (issuer_text ossl pub)" "next_id sample_trx = 4"
proof -
  have "string_at sample_trx (Ptr 2 0) [104, 105]"
    by (simp add: string_at_cells cells_at_def sample_trx_def sample_node_def)
  moreover have "wf_trx sample_trx"
    by (auto simp: wf_trx_def wf_node_def wf_mem_def sample_trx_def sample_node_def)
  moreover have "pkeys sample_trx 3 = Some 9" by (simp add: sample_trx_def)
  ultimately show "trx_ready sample_openssl sample_trx 3 sample_pub sample_sign
      (Ptr 2 0) [104, 105] (Ptr 2 0) [104, 105] (Ptr 2 0) [104, 105]"
    using sample_openssl_promises(2) [of 9] by (simp add: trx_ready_def trx_strings_def)
  show "length [104, 105 :: byte] \<le> 8 * length (issuer_text ossl pub)"
    using issuer_text_not_empty [of ossl pub] by (cases "issuer_text ossl pub") simp_all
qed (simp_all add: sample_trx_def)

theorem Transaction_new_behaviour_witness:
  "\<exists>m'. Transaction_new sample_openssl sample_time (Ptr 2 0) (Ptr 2 0) (Ptr 2 0) (Some \<lparr>evpkey = Ptr 3 0\<rparr>) sample_trx =
      Ret (Ptr 10 0, m') \<and> trxs m' 10 = Some (full_transaction sample_time 10) \<and> next_id m' = 17"
  using Transaction_new_behaviour [OF sample_trx_ready(1) _ sample_trx_ready(3), of sample_time]
  by (simp add: sample_trx_ready(2,4) Let_def)

lemma free_field_run:
  assumes "trxs m i = Some t" and "get t = Some (Ptr j 0)" and "blocks m j = Some (Malloc, cs)"
  shows "free_field (Ptr i 0) get assign m =
    Ret ((), m\<lparr>blocks := (blocks m)(j := None), trxs := (trxs m)(i \<mapsto> assign (Some Null) t)\<rparr>)"
  using assms by (simp add: free_field_def prog_simps free_def upd_trx_def)

lemma free_field_null_run:
  "trxs m i = Some t \<Longrightarrow> get t = Some Null \<Longrightarrow> free_field (Ptr i 0) get assign m = Ret ((), m)"
  by (simp add: free_field_def prog_simps)

lemma Transaction_free_run:
  fixes m :: "('k, 'z) trx_state_scheme"
  shows "Transaction_free (Ptr i 0) (m\<lparr>blocks := trx_blocks ib rb sb db sigb h i bl,
       trxs := (trxs m)(i \<mapsto> full_transaction now i)\<rparr>) =
    Ret (Null, m\<lparr>blocks := bl(i + 1 := None, i + 2 := None, i + 3 := None, i + 4 := None, i + 5 := None, i + 6 := None),
       trxs := (trxs m)(i := None)\<rparr>)"
  by (simp add: Transaction_free_def prog_run free_transaction_def free_field_run free_field_null_run trx_blocks_def
      full_transaction_def fun_eq_iff)

text \<open>
  C10: \<^verbatim>\<open>Transaction_new\<close> followed by \<^verbatim>\<open>Transaction_free\<close> gives all storage back: the
  state is the one before, with the object counter advanced, and the pointer of the
  caller is NULL, so that a second \<^verbatim>\<open>Transaction_free\<close> does nothing.
\<close>

theorem Transaction_new_free:
  assumes "trx_ready ossl m i pub sign subj sb dat db receiver rb" and "\<forall>x. \<not> denied m x"
    and "length rb \<le> 8 * length (issuer_text ossl pub)"
  shows "bind (bind (Transaction_new ossl now subj dat receiver (Some \<lparr>evpkey = Ptr i 0\<rparr>)) Transaction_free) Transaction_free m =
    Ret (Null, m\<lparr>next_id := next_id m + 13\<rparr>)"
proof -
  let ?i = "next_id m + 6" and ?h = "trx_digest ossl now pub sb db rb"
  have fresh: "blocks m x = None \<and> trxs m x = None" if "next_id m \<le> x" for x
    using assms(1) that by (simp add: trx_ready_def wf_trx_def wf_node_fresh)
  have "Transaction_free (Ptr ?i 0) (issued ossl now pub sign sb db rb m) = Ret (Null, m\<lparr>next_id := next_id m + 13\<rparr>)"
    using Transaction_free_run [of ?i "m\<lparr>next_id := next_id m + 13\<rparr>"] fresh
    by (simp add: issued_def Let_def fun_upd_idem)
  then show ?thesis
    using Transaction_new_ready [OF assms, of now] by (simp add: prog_run Transaction_free_def [of Null])
qed

theorem Transaction_new_free_witness:
  "bind (bind (Transaction_new sample_openssl sample_time (Ptr 2 0) (Ptr 2 0) (Ptr 2 0) (Some \<lparr>evpkey = Ptr 3 0\<rparr>))
     Transaction_free) Transaction_free sample_trx = Ret (Null, sample_trx\<lparr>next_id := 17\<rparr>)"
  using Transaction_new_free [OF sample_trx_ready(1) _ sample_trx_ready(3), of sample_time]
  by (simp add: sample_trx_ready(2,4))

text \<open>
  C19: The time is not part of what is signed. The eight bytes of the time start with
  a zero byte for every time below 2^56, and \<^verbatim>\<open>strncpy\<close> stops there and pads with
  zeros: two transactions that differ in the time alone get the same digest and the
  same signature, and differ only in \<^verbatim>\<open>created_at\<close>.
\<close>

theorem Transaction_time_not_signed:
  assumes "trx_ready ossl m i pub sign subj sb dat db receiver rb" and "\<forall>x. \<not> denied m x"
    and "length rb \<le> 8 * length (issuer_text ossl pub)" and "usual_time now" and "usual_time later"
  shows "\<exists>m'. Transaction_new ossl now subj dat receiver (Some \<lparr>evpkey = Ptr i 0\<rparr>) m = Ret (Ptr (next_id m + 6) 0, m') \<and>
    Transaction_new ossl later subj dat receiver (Some \<lparr>evpkey = Ptr i 0\<rparr>) m =
      Ret (Ptr (next_id m + 6) 0, upd_trx (next_id m + 6) (\<lambda>t. t\<lparr>created_at := Some later\<rparr>) m')"
proof -
  have "trx_message ossl now pub sb db rb = trx_message ossl later pub sb db rb"
    using assms(4,5) by (simp add: trx_message_def usual_time_lost)
  then have "issued ossl later pub sign sb db rb m =
      upd_trx (next_id m + 6) (\<lambda>t. t\<lparr>created_at := Some later\<rparr>) (issued ossl now pub sign sb db rb m)"
    by (simp add: issued_def upd_trx_def trx_digest_def full_transaction_def Let_def)
  then show ?thesis
    using Transaction_new_ready [OF assms(1-3)] by simp
qed

theorem Transaction_time_not_signed_witness:
  "\<exists>m'. Transaction_new sample_openssl sample_time (Ptr 2 0) (Ptr 2 0) (Ptr 2 0) (Some \<lparr>evpkey = Ptr 3 0\<rparr>) sample_trx =
      Ret (Ptr 10 0, m') \<and>
    Transaction_new sample_openssl (sample_time\<lparr>tv_sec := 0\<rparr>) (Ptr 2 0) (Ptr 2 0) (Ptr 2 0) (Some \<lparr>evpkey = Ptr 3 0\<rparr>) sample_trx =
      Ret (Ptr 10 0, upd_trx 10 (\<lambda>t. t\<lparr>created_at := Some (sample_time\<lparr>tv_sec := 0\<rparr>)\<rparr>) m')"
  using Transaction_time_not_signed [OF sample_trx_ready(1) _ sample_trx_ready(3), of sample_time "sample_time\<lparr>tv_sec := 0\<rparr>"]
  by (simp add: sample_trx_ready(2,4) usual_time_def sample_time_def)

text \<open>
  The bytes stored for the time are its base-256 digits with the most significant
  byte first, so \<^verbatim>\<open>convertToCharArrayLittleEndian\<close> writes big-endian order; the
  bytes determine the time.
\<close>

lemma convert_is_big_endian:
  "radix_val 256 (map unat (convertToCharArrayLittleEndian a)) = unat a \<and>
   (convertToCharArrayLittleEndian a = convertToCharArrayLittleEndian b \<longleftrightarrow> a = b)"
proof -
  have "unat a < 256 ^ 8" using unsigned_less [of a, where ?'a = nat] by simp
  then show ?thesis using ts.enc_inject [of a b] by (simp add: convert_digits r256.fixed_val)
qed

text \<open>
  C20: The copy of the signature in the transaction is the signature only if nothing
  but zero bytes follows its first zero byte, since the binary signature is copied
  with \<^verbatim>\<open>strncpy\<close>.
\<close>

theorem Transaction_signature_exact_iff:
  assumes "trx_ready ossl m i pub sign subj sb dat db receiver rb" and "\<forall>x. \<not> denied m x"
    and "length rb \<le> 8 * length (issuer_text ossl pub)"
  shows "\<exists>p m' t q. Transaction_new ossl now subj dat receiver (Some \<lparr>evpkey = Ptr i 0\<rparr>) m = Ret (p, m') \<and>
    trx_get p m' = Ret (t, m') \<and> issuer_signature t = Some q \<and>
    (let sg = sign (trx_digest ossl now pub sb db rb)
     in holds m' q Malloc sg \<longleftrightarrow> (\<exists>z. sg = c_str sg @ replicate z 0))"
proof -
  let ?sg = "sign (trx_digest ossl now pub sb db rb)" and ?i = "next_id m + 6"
  have len: "64 = length ?sg" using assms(1) by (auto simp: trx_ready_def signs_with_def)
  have "holds (issued ossl now pub sign sb db rb m) (Ptr (?i + 5) 0) Malloc ?sg \<longleftrightarrow> strncpy_bytes ?sg 64 = ?sg"
    by (auto simp: holds_def issued_def trx_blocks_def Let_def inj_map_eq_map)
  also have "\<dots> \<longleftrightarrow> (\<exists>z. ?sg = c_str ?sg @ replicate z 0)"
    using len by (rule strncpy_bytes_eq_iff)
  finally show ?thesis
    using Transaction_new_ready [OF assms, of now]
    by (simp add: trx_get_def issued_def full_transaction_def Let_def)
qed

theorem Transaction_signature_exact_iff_witness:
  "\<exists>p m' t q. Transaction_new sample_openssl sample_time (Ptr 2 0) (Ptr 2 0) (Ptr 2 0) (Some \<lparr>evpkey = Ptr 3 0\<rparr>) sample_trx =
      Ret (p, m') \<and> trx_get p m' = Ret (t, m') \<and> issuer_signature t = Some q \<and> holds m' q Malloc (replicate 64 105)"
proof -
  have "sample_sign (trx_digest sample_openssl sample_time sample_pub [104, 105] [104, 105] [104, 105]) = replicate 64 105"
    by (simp add: trx_digest_def trx_message_def sample_digests)
  moreover have "replicate 64 (105 :: byte) = c_str (replicate 64 105) @ replicate 0 0"
    by (simp add: c_str_def takeWhile_eq_all_conv)
  ultimately show ?thesis
    using Transaction_signature_exact_iff [OF sample_trx_ready(1) _ sample_trx_ready(3), of sample_time]
    by (simp add: sample_trx_ready(2) Let_def)
qed




lemma overflow_field:
  assumes "trxs m i \<noteq> None" and "\<not> denied m (next_id m)" and "n < SIZE_MOD"
    and "wf_mem m" and "string_at m src s" and "k = length s" and "n < length s"
  shows "bind (alloc_field (Ptr i 0) f n e) (\<lambda>p. bind (strncpy p src k) (\<lambda>_. g)) m = Fault Out_Of_Bounds"
proof -
  let ?m = "add_field i f (replicate n None) m"
  have "string_at ?m src s" using assms(4,5) by simp
  then have "strncpy (Ptr (next_id m) 0) src k ?m = Fault Out_Of_Bounds"
    using strncpy_string_at [of ?m src s k] assms(6,7) by (simp add: store_def add_field_def)
  then show ?thesis using alloc_field_run [OF assms(1-3)] by (simp add: prog_run)
qed

lemma Transaction_ready_phases:
  assumes "trx_ready ossl m i pub sign subj sb dat db receiver rb" and "\<forall>x < next_id m + 6. \<not> denied m x"
  obtains d g where
    "Transaction_new ossl now subj dat receiver (Some \<lparr>evpkey = Ptr i 0\<rparr>) m =
       bind (create_transaction now subj dat receiver d (trx_signature (next_id m))) g
         (signed_state ossl pub (trx_message ossl now pub sb db rb) (trx_digest ossl now pub sb db rb)
           (sign (trx_digest ossl now pub sb db rb)) m)"
    "d_issuer d = Ptr (Suc (next_id m)) 0" "d_receiver_len d = length rb" "d_issuer_len d = length (issuer_text ossl pub)"
    "length (issuer_text ossl pub) \<le> 52"
proof -
  obtain key where key: "pkeys m i = Some key" "raw_public_is ossl key pub" "signs_with ossl key sign"
    using assms(1) by (auto simp: trx_ready_def)
  have wf: "wf_node m" and sha: "sha256_digests ossl" and str: "trx_strings m subj sb dat db receiver rb"
    using assms(1) by (simp_all add: trx_ready_def wf_trx_def)
  have h: "SHA256 ossl (trx_message ossl now pub sb db rb) = Some (trx_digest ossl now pub sb db rb)"
    using sha256_Some [OF sha] by (auto simp: trx_digest_def)
  have "length (issuer_text ossl pub) \<le> 52"
    using length_address_text [OF sha] key(2) by (simp add: raw_public_is_def issuer_text_def)
  then show thesis
    using Transaction_phases [OF wf assms(2) sha key str h] that by metis
qed

text \<open>
  C26: The block for the receiver address is sized by the issuer address: a receiver
  address of more than eight times its length is written past the end of the block.
\<close>

theorem Transaction_receiver_overflow:
  assumes "trx_ready ossl m i pub sign subj sb dat db receiver rb" and "\<forall>x. \<not> denied m x"
    and "8 * length (issuer_text ossl pub) < length rb"
  shows "Transaction_new ossl now subj dat receiver (Some \<lparr>evpkey = Ptr i 0\<rparr>) m = Fault Out_Of_Bounds"
proof -
  let ?ib = "issuer_text ossl pub" and ?h = "trx_digest ossl now pub sb db rb" and ?msg = "trx_message ossl now pub sb db rb"
  let ?m2 = "signed_state ossl pub ?msg ?h (sign ?h) m"
  obtain d g where run: "Transaction_new ossl now subj dat receiver (Some \<lparr>evpkey = Ptr i 0\<rparr>) m =
      bind (create_transaction now subj dat receiver d (trx_signature (next_id m))) g ?m2"
    and d: "d_issuer d = Ptr (Suc (next_id m)) 0" "d_receiver_len d = length rb" "d_issuer_len d = length ?ib"
    and len: "length ?ib \<le> 52"
    using Transaction_ready_phases [OF assms(1), of now] assms(2) by metis
  have wf: "wf_mem m" using assms(1) by (simp add: trx_ready_def wf_trx_def wf_node_mem)
  have rb: "string_at ?m2 receiver rb"
    using assms(1) by (auto simp: trx_ready_def trx_strings_def intro: string_at_old [OF signed_state_facts(2) [OF wf]])
  have "malloc_transaction ?m2 = Ret (Ptr (next_id m + 6) 0, with_transaction ?m2)"
    using assms(2) by (simp add: malloc_transaction_def with_transaction_def Let_def)
  then have "create_transaction now subj dat receiver d (trx_signature (next_id m)) ?m2 = Fault Out_Of_Bounds"
    using len assms(2,3) rb
    by (simp add: create_transaction_def prog_run(4) [of malloc_transaction] d trx_set_bind
        copy_string_field [where s = ?ib] overflow_field [where s = rb] signed_state_facts(1,3) [OF wf])
  then show ?thesis by (simp add: run prog_run(4))
qed

definition long_trx :: "nat trx_state" where
  "long_trx = sample_trx\<lparr>blocks := (blocks sample_trx)(0 \<mapsto> (Static, map Some (replicate 417 105 @ [0])))\<rparr>"

theorem Transaction_receiver_overflow_witness:
  "Transaction_new sample_openssl sample_time (Ptr 2 0) (Ptr 2 0) (Ptr 0 0) (Some \<lparr>evpkey = Ptr 3 0\<rparr>) long_trx =
     Fault Out_Of_Bounds"
proof (rule Transaction_receiver_overflow)
  have "string_at long_trx (Ptr 2 0) [104, 105]"
    by (simp add: string_at_cells cells_at_def long_trx_def sample_trx_def sample_node_def)
  moreover have "string_at long_trx (Ptr 0 0) (replicate 417 105)"
    using read_string_Some [of "replicate 417 105" "[]"]
    by (simp add: string_at_cells cells_at_def long_trx_def del: read_string_Some)
  moreover have "wf_trx long_trx"
    by (auto simp: wf_trx_def wf_node_def wf_mem_def long_trx_def sample_trx_def sample_node_def)
  moreover have "pkeys long_trx 3 = Some 9" by (simp add: long_trx_def sample_trx_def)
  ultimately show "trx_ready sample_openssl long_trx 3 sample_pub sample_sign
      (Ptr 2 0) [104, 105] (Ptr 2 0) [104, 105] (Ptr 0 0) (replicate 417 105)"
    using sample_openssl_promises(2) [of 9] by (simp add: trx_ready_def trx_strings_def)
  show "\<forall>x. \<not> denied long_trx x" by (simp add: long_trx_def sample_trx_def)
  show "8 * length (issuer_text sample_openssl sample_pub) < length (replicate 417 (105 :: byte))"
    using length_address_text [of sample_openssl sample_pub 0] by (simp add: issuer_text_def)
qed

text \<open>
  The allocation of the struct itself is not checked: when it is the one that
  fails, the function writes through a NULL pointer.
\<close>

lemma Transaction_unchecked_malloc:
  assumes "trx_ready ossl m i pub sign subj sb dat db receiver rb"
    and "\<forall>x < next_id m + 6. \<not> denied m x" and "denied m (next_id m + 6)"
  shows "Transaction_new ossl now subj dat receiver (Some \<lparr>evpkey = Ptr i 0\<rparr>) m = Fault Null_Pointer"
proof -
  obtain d g where run: "Transaction_new ossl now subj dat receiver (Some \<lparr>evpkey = Ptr i 0\<rparr>) m =
      bind (create_transaction now subj dat receiver d (trx_signature (next_id m))) g
        (signed_state ossl pub (trx_message ossl now pub sb db rb) (trx_digest ossl now pub sb db rb)
           (sign (trx_digest ossl now pub sb db rb)) m)"
    using Transaction_ready_phases [OF assms(1,2), of now] by metis
  then show ?thesis
    using assms(3) by (simp add: run create_transaction_def prog_run malloc_transaction_def trx_set_def Let_def)
qed

text \<open>
  \<^verbatim>\<open>Transaction_new\<close> refuses a missing or empty receiver, subject or data, tested in
  this order and before anything is allocated.
\<close>

lemma Transaction_rejects_empty:
  assumes "receiver = Null \<or> string_at m receiver rb" and "subj = Null \<or> string_at m subj sb"
    and "dat = Null \<or> string_at m dat db"
  shows "(receiver = Null \<or> rb = [] \<longrightarrow>
      Transaction_new ossl now subj dat receiver s m = Exit ''Given receiver address is empty'') \<and>
    (receiver \<noteq> Null \<and> rb \<noteq> [] \<and> (subj = Null \<or> sb = []) \<longrightarrow>
      Transaction_new ossl now subj dat receiver s m = Exit ''Given subject is empty'') \<and>
    (receiver \<noteq> Null \<and> rb \<noteq> [] \<and> subj \<noteq> Null \<and> sb \<noteq> [] \<and> (dat = Null \<or> db = []) \<longrightarrow>
      Transaction_new ossl now subj dat receiver s m = Exit ''Given data is empty'')"
proof -
  have "is_empty p m = Ret (p = Null \<or> s = [], m)" if "p = Null \<or> string_at m p s" for p s
    using that by (cases "p = Null") (simp_all add: is_empty_run, simp add: is_empty_def prog_run)
  from this [OF assms(1)] this [OF assms(2)] this [OF assms(3)] show ?thesis
    by (auto simp: Transaction_new_def prog_run)
qed

end
