(* ===== verification/Config_Url.thy ===== *)
theory Config_Url
  imports C_Base Radix
begin

text \<open>
  The URL check of \<^verbatim>\<open>src_c/client-node/config/config.c\<close>. \<^verbatim>\<open>is_valid_url\<close> hands a
  pattern to the POSIX functions \<^verbatim>\<open>regcomp\<close> and \<^verbatim>\<open>regexec\<close>; the extended regular
  expressions it uses are the datatype \<open>ere\<close>, and \<open>rests\<close> computes what is left
  of a text after each of the prefixes an expression matches. The pattern is anchored
  at both ends, so it matches a text when nothing is left.
\<close>

section \<open>Extended regular expressions\<close>

datatype ere =
    Class "byte \<Rightarrow> bool"
  | ClassPlus "byte \<Rightarrow> bool"
  | Empty
  | Cat ere ere
  | Alt ere ere

text \<open>The language of an expression.\<close>

inductive ere_lang :: "ere \<Rightarrow> byte list \<Rightarrow> bool" where
  Class: "P c \<Longrightarrow> ere_lang (Class P) [c]"
| ClassPlus: "list_all P s \<Longrightarrow> s \<noteq> [] \<Longrightarrow> ere_lang (ClassPlus P) s"
| Empty: "ere_lang Empty []"
| Cat: "ere_lang r s \<Longrightarrow> ere_lang q t \<Longrightarrow> ere_lang (Cat r q) (s @ t)"
| Alt1: "ere_lang r s \<Longrightarrow> ere_lang (Alt r q) s"
| Alt2: "ere_lang q s \<Longrightarrow> ere_lang (Alt r q) s"

inductive_simps ere_lang_Class [simp]: "ere_lang (Class P) s"
inductive_simps ere_lang_ClassPlus [simp]: "ere_lang (ClassPlus P) s"
inductive_simps ere_lang_Empty [simp]: "ere_lang Empty s"
inductive_simps ere_lang_Cat [simp]: "ere_lang (Cat r q) s"
inductive_simps ere_lang_Alt [simp]: "ere_lang (Alt r q) s"

text \<open>The suffixes left after one or more characters of a class.\<close>

fun class_rests :: "(byte \<Rightarrow> bool) \<Rightarrow> byte list \<Rightarrow> byte list list" where
  "class_rests P [] = []"
| "class_rests P (c # s) = (if P c then s # class_rests P s else [])"

fun rests :: "ere \<Rightarrow> byte list \<Rightarrow> byte list list" where
  "rests (Class P) s = (case s of [] \<Rightarrow> [] | c # t \<Rightarrow> if P c then [t] else [])"
| "rests (ClassPlus P) s = class_rests P s"
| "rests Empty s = [s]"
| "rests (Cat r q) s = concat (map (rests q) (rests r s))"
| "rests (Alt r q) s = rests r s @ rests q s"

definition ere_matches :: "ere \<Rightarrow> byte list \<Rightarrow> bool" where
  "ere_matches r s \<longleftrightarrow> [] \<in> set (rests r s)"

lemma class_rests_iff: "t \<in> set (class_rests P s) \<longleftrightarrow> (\<exists>p. s = p @ t \<and> list_all P p \<and> p \<noteq> [])"
proof (induction s)
  case (Cons c s)
  show ?case
  proof
    assume "t \<in> set (class_rests P (c # s))"
    then have "P c" and "t = s \<or> t \<in> set (class_rests P s)" by (auto split: if_splits)
    then obtain p where "s = p @ t" and "list_all P p"
      using Cons.IH by (cases "t = s") auto
    with \<open>P c\<close> show "\<exists>p. c # s = p @ t \<and> list_all P p \<and> p \<noteq> []" by (intro exI [of _ "c # p"]) simp
  next
    assume "\<exists>p. c # s = p @ t \<and> list_all P p \<and> p \<noteq> []"
    then obtain p where "P c" and "s = p @ t" and "list_all P p" by (auto simp: Cons_eq_append_conv)
    then show "t \<in> set (class_rests P (c # s))" using Cons.IH by (cases p) auto
  qed
qed simp

lemma rests_iff: "t \<in> set (rests r s) \<longleftrightarrow> (\<exists>p. s = p @ t \<and> ere_lang r p)"
proof (induction r arbitrary: s t)
  case (Cat r q)
  then show ?case by (auto simp: Cat.IH) (metis append_assoc)+
qed (auto simp: class_rests_iff split: list.splits)

lemma ere_matches_iff: "ere_matches r s \<longleftrightarrow> ere_lang r s"
  by (simp add: ere_matches_def rests_iff)

section \<open>The pattern\<close>

fun lit :: "byte list \<Rightarrow> ere" where
  "lit [] = Empty"
| "lit (c # s) = Cat (Class (\<lambda>x. x = c)) (lit s)"

definition Range :: "byte \<Rightarrow> byte \<Rightarrow> ere" where
  "Range lo hi = Class (\<lambda>c. lo \<le> c \<and> c \<le> hi)"

definition Opt :: "ere \<Rightarrow> ere" where
  "Opt r = Alt r Empty"

text \<open>\<open>r{0,n}\<close> and \<open>r{n}\<close>.\<close>

fun UpTo :: "nat \<Rightarrow> ere \<Rightarrow> ere" where
  "UpTo 0 r = Empty"
| "UpTo (Suc n) r = Opt (Cat r (UpTo n r))"

fun Times :: "nat \<Rightarrow> ere \<Rightarrow> ere" where
  "Times 0 r = Empty"
| "Times (Suc n) r = Cat r (Times n r)"

text \<open>The white space of the C locale.\<close>

definition isspace :: "byte \<Rightarrow> bool" where
  "isspace c \<longleftrightarrow> c = 32 \<or> 9 \<le> c \<and> c \<le> 13"

definition port_re :: ere where
  "port_re =
     Alt (Cat (Range 49 57) (UpTo 3 (Range 48 57)))
    (Alt (Cat (Range 49 53) (Times 4 (Range 48 57)))
    (Alt (Cat (lit [54]) (Cat (Range 48 52) (Times 3 (Range 48 57))))
    (Alt (Cat (lit [54, 53]) (Cat (Range 48 52) (Times 2 (Range 48 57))))
    (Alt (Cat (lit [54, 53, 53]) (Cat (Range 48 50) (Range 48 57)))
         (Cat (lit [54, 53, 53, 51]) (Range 48 53))))))"

definition url_re :: ere where
  "url_re = Cat (lit (bytes_of ''http'')) (Cat (Opt (lit (bytes_of ''s''))) (Cat (lit (bytes_of ''://''))
     (Cat (ClassPlus (\<lambda>c. \<not> isspace c)) (Cat (lit (bytes_of '':'')) port_re))))"

text \<open>
  The compilation of the constant pattern succeeds, so the test of \<^verbatim>\<open>regcomp\<close>
  has no branch here.
\<close>

definition is_valid_url :: "byte list \<Rightarrow> bool" where
  "is_valid_url url = ere_matches url_re url"

section \<open>Ports\<close>

lemma ere_lang_Cat_Class: "ere_lang (Cat (Class P) q) s \<longleftrightarrow> (\<exists>c t. s = c # t \<and> P c \<and> ere_lang q t)"
proof
  assume "\<exists>c t. s = c # t \<and> P c \<and> ere_lang q t"
  then obtain c t where "s = [c] @ t" and "P c" and "ere_lang q t" by auto
  then show "ere_lang (Cat (Class P) q) s" by (metis ere_lang.Cat ere_lang.Class)
qed auto

lemma ere_lang_lit [simp]: "ere_lang (lit s) t \<longleftrightarrow> t = s"
  by (induction s arbitrary: t) (simp_all add: ere_lang_Cat_Class del: ere_lang_Cat)

lemma ere_lang_Opt [simp]: "ere_lang (Opt r) s \<longleftrightarrow> ere_lang r s \<or> s = []"
  by (simp add: Opt_def)

lemma ere_lang_Times: "ere_lang (Times n (Class P)) s \<longleftrightarrow> length s = n \<and> list_all P s"
proof (induction n arbitrary: s)
  case (Suc n)
  then show ?case by (cases s) (auto simp: ere_lang_Cat_Class simp del: ere_lang_Cat)
qed auto

lemma ere_lang_UpTo: "ere_lang (UpTo n (Class P)) s \<longleftrightarrow> length s \<le> n \<and> list_all P s"
proof (induction n arbitrary: s)
  case (Suc n)
  then show ?case by (cases s) (auto simp: ere_lang_Cat_Class simp del: ere_lang_Cat)
qed auto

lemma digit_char_bounds:
  assumes "d < 10"
  shows "48 \<le> digit_char d" "digit_char d \<le> 57" "49 \<le> digit_char d \<longleftrightarrow> d \<noteq> 0"
    "digit_char d \<le> 50 \<longleftrightarrow> d \<le> 2" "digit_char d \<le> 52 \<longleftrightarrow> d \<le> 4" "digit_char d \<le> 53 \<longleftrightarrow> d \<le> 5"
    "digit_char d = 51 \<longleftrightarrow> d = 3" "digit_char d = 53 \<longleftrightarrow> d = 5" "digit_char d = 54 \<longleftrightarrow> d = 6"
  using unat_digit_char [OF assms] assms by (auto simp: word_le_nat_alt word_unat_eq_iff)

lemma digit_charE:
  assumes "48 \<le> c" and "c \<le> 57"
  obtains d where "d < 10" and "c = digit_char d"
proof
  show "unat c - 48 < 10" using assms by (auto simp: word_le_nat_alt)
  show "c = digit_char (unat c - 48)" using assms by (auto simp: word_le_nat_alt digit_char_def)
qed

lemma ere_lang_Cat_lit: "ere_lang (Cat (lit p) q) s \<longleftrightarrow> (\<exists>t. s = p @ t \<and> ere_lang q t)"
  by (auto simp: ere_lang_lit)

lemmas port_lang_simps = port_re_def Range_def ere_lang_Cat_lit ere_lang_Cat_Class ere_lang_Times ere_lang_UpTo

lemma port_length: "ere_lang port_re s \<Longrightarrow> length s \<le> 5 \<and> list_all (\<lambda>c. 48 \<le> c \<and> c \<le> 57) s"
  by (auto simp: port_lang_simps word_le_nat_alt simp del: ere_lang_Cat lit.simps)

lemma port_digits:
  assumes "digits_ok 10 ds"
  shows "ere_lang port_re (map digit_char ds) \<longleftrightarrow> ds \<noteq> [] \<and> hd ds \<noteq> 0 \<and> radix_val 10 ds \<le> 65535"
proof (cases "length ds \<le> 5")
  case False
  then have "(10 :: nat) ^ 5 \<le> 10 ^ (length ds - 1)" by (intro power_increasing) simp_all
  then have "100000 \<le> radix_val 10 ds" if "ds \<noteq> []" and "hd ds \<noteq> 0"
    using r10.val_ge [OF that] by simp
  with False show ?thesis using port_length [of "map digit_char ds"] by auto
next
  case True
  then consider "ds = []" | a where "ds = [a]" | a b where "ds = [a, b]" | a b c where "ds = [a, b, c]"
    | a b c d where "ds = [a, b, c, d]" | a b c d e where "ds = [a, b, c, d, e]"
    by (cases ds rule: list.exhaust; fastforce simp: le_Suc_eq length_Suc_conv numeral_eq_Suc)
  then show ?thesis
    using assms
    by cases (auto simp: port_lang_simps digit_char_bounds simp del: ere_lang_Cat lit.simps)
qed

lemma port_lang: "ere_lang port_re s \<longleftrightarrow> (\<exists>p. 1 \<le> p \<and> p \<le> 65535 \<and> s = decimal p)"
proof
  assume s: "ere_lang port_re s"
  then have "list_all (\<lambda>c. 48 \<le> c \<and> c \<le> 57) s" by (simp add: port_length)
  then have "\<exists>ds. s = map digit_char ds \<and> digits_ok 10 ds"
  proof (induction s)
    case (Cons c s)
    then obtain ds where "s = map digit_char ds" and "digits_ok 10 ds" by auto
    moreover obtain d where "d < 10" and "c = digit_char d" using Cons.prems by (auto elim: digit_charE)
    ultimately show ?case by (intro exI [of _ "d # ds"]) simp
  qed simp
  then obtain ds where ds: "s = map digit_char ds" "digits_ok 10 ds" by blast
  with s have "ds \<noteq> []" "hd ds \<noteq> 0" "radix_val 10 ds \<le> 65535" by (simp_all add: port_digits)
  moreover from this have "1 \<le> radix_val 10 ds"
    using r10.val_ge [of ds] one_le_power [of "10 :: nat" "length ds - 1"] by linarith
  moreover from ds calculation have "radix_digits 10 (radix_val 10 ds) = ds" using r10.digits_of_val by simp
  ultimately show "\<exists>p. 1 \<le> p \<and> p \<le> 65535 \<and> s = decimal p"
    using ds by (intro exI [of _ "radix_val 10 ds"]) (simp add: decimal_def)
next
  assume "\<exists>p. 1 \<le> p \<and> p \<le> 65535 \<and> s = decimal p"
  then obtain p where "1 \<le> p" "p \<le> 65535" "s = decimal p" by blast
  then show "ere_lang port_re s" using r10.digits_hd [of p] by (simp add: port_digits decimal_def)
qed

lemma url_lang:
  "ere_lang url_re url \<longleftrightarrow> (\<exists>s host p. s \<in> {bytes_of ''s'', []} \<and> host \<noteq> [] \<and> list_all (\<lambda>c. \<not> isspace c) host \<and>
     1 \<le> p \<and> p \<le> 65535 \<and> url = bytes_of ''http'' @ s @ bytes_of ''://'' @ host @ bytes_of '':'' @ decimal p)"
proof
  assume "ere_lang url_re url"
  then obtain t where 1: "url = bytes_of ''http'' @ t" and "ere_lang (Cat (Opt (lit (bytes_of ''s''))) (Cat (lit (bytes_of ''://''))
     (Cat (ClassPlus (\<lambda>c. \<not> isspace c)) (Cat (lit (bytes_of '':'')) port_re)))) t"
    unfolding url_re_def ere_lang_Cat_lit by blast
  then obtain s u where 2: "t = s @ u" "s \<in> {bytes_of ''s'', []}" and "ere_lang (Cat (lit (bytes_of ''://''))
     (Cat (ClassPlus (\<lambda>c. \<not> isspace c)) (Cat (lit (bytes_of '':'')) port_re))) u"
    by (subst (asm) ere_lang_Cat) (auto simp del: ere_lang_Cat)
  then obtain v where 3: "u = bytes_of ''://'' @ v" and
    "ere_lang (Cat (ClassPlus (\<lambda>c. \<not> isspace c)) (Cat (lit (bytes_of '':'')) port_re)) v"
    unfolding ere_lang_Cat_lit by blast
  then obtain host w where 4: "v = host @ w" "host \<noteq> []" "list_all (\<lambda>c. \<not> isspace c) host" and
    "ere_lang (Cat (lit (bytes_of '':'')) port_re) w"
    by (subst (asm) ere_lang_Cat) (auto simp del: ere_lang_Cat)
  then obtain p where "w = bytes_of '':'' @ decimal p" "1 \<le> p" "p \<le> 65535"
    unfolding ere_lang_Cat_lit port_lang by blast
  with 1 2 3 4 show "\<exists>s host p. s \<in> {bytes_of ''s'', []} \<and> host \<noteq> [] \<and> list_all (\<lambda>c. \<not> isspace c) host \<and>
     1 \<le> p \<and> p \<le> 65535 \<and> url = bytes_of ''http'' @ s @ bytes_of ''://'' @ host @ bytes_of '':'' @ decimal p"
    by (intro exI [of _ s] exI [of _ host] exI [of _ p]) simp
next
  assume "\<exists>s host p. s \<in> {bytes_of ''s'', []} \<and> host \<noteq> [] \<and> list_all (\<lambda>c. \<not> isspace c) host \<and>
     1 \<le> p \<and> p \<le> 65535 \<and> url = bytes_of ''http'' @ s @ bytes_of ''://'' @ host @ bytes_of '':'' @ decimal p"
  then obtain s host p where "s \<in> {bytes_of ''s'', []}" "host \<noteq> []" "list_all (\<lambda>c. \<not> isspace c) host" "1 \<le> p" "p \<le> 65535"
    and url: "url = bytes_of ''http'' @ s @ bytes_of ''://'' @ host @ bytes_of '':'' @ decimal p" by blast
  then show "ere_lang url_re url"
    unfolding url url_re_def by (intro ere_lang.Cat) (auto simp: port_lang)
qed

text \<open>
  C18: \<^verbatim>\<open>is_valid_url\<close> accepts exactly the texts that consist of \<^verbatim>\<open>http\<close> or
  \<^verbatim>\<open>https\<close>, \<^verbatim>\<open>://\<close>, at least one character other than white space, a colon, and
  the decimal numeral, without leading zeros, of a port from 1 to 65535.
\<close>

theorem is_valid_url_iff:
  "is_valid_url url \<longleftrightarrow> (\<exists>tls host p. host \<noteq> [] \<and> list_all (\<lambda>c. \<not> isspace c) host \<and> 1 \<le> p \<and> p \<le> 65535 \<and>
     url = bytes_of (if tls then ''https'' else ''http'') @ bytes_of ''://'' @ host @ bytes_of '':'' @ decimal p)"
proof -
  have https: "bytes_of ''https'' = bytes_of ''http'' @ bytes_of ''s''" by (simp add: bytes_of_def)
  show ?thesis
    unfolding is_valid_url_def ere_matches_iff url_lang
    by (simp add: https ex_bool_eq ex_disj_distrib conj_disj_distribR)
qed

end
