(* ===== verification/Config.thy ===== *)
theory Config
  imports Config_Url
begin

text \<open>
  The configuration reader, \<^verbatim>\<open>src_c/client-node/config/config.c\<close> and \<^verbatim>\<open>config.h\<close>. The
  line buffer and the name buffer are arrays of bytes, a \<^verbatim>\<open>char *\<close> into one of them
  is an index, and every access is checked. The struct is returned without being
  initialised, so its members have indeterminate cells.
\<close>

abbreviation (input) MAX_STRING :: nat where "MAX_STRING \<equiv> 8192"
abbreviation (input) MAX_LINE_LENGTH :: nat where "MAX_LINE_LENGTH \<equiv> 32768"
abbreviation (input) MAX_TOKEN_NAME_LENGTH :: nat where "MAX_TOKEN_NAME_LENGTH \<equiv> 8192"
abbreviation (input) MAX_TOKEN_VALUE_LENGTH :: nat where "MAX_TOKEN_VALUE_LENGTH \<equiv> 24576"

record Config =
  port :: "int option"
  node_public_url :: "byte option list"
  validator_url :: "byte option list"
  pem_file :: "byte option list"

definition blank_config :: Config where
  "blank_config = \<lparr>port = None, node_public_url = replicate MAX_STRING None,
     validator_url = replicate MAX_STRING None, pem_file = replicate MAX_STRING None\<rparr>"

section \<open>Strings in arrays\<close>

text \<open>The string at index \<open>p\<close> of an array.\<close>

definition string_in :: "byte list \<Rightarrow> nat \<Rightarrow> byte list outcome" where
  "string_in a p =
     (if p \<le> length a \<and> terminated (drop p a) then Ret (c_str (drop p a)) else Fault Out_Of_Bounds)"

text \<open>The loops of \<^verbatim>\<open>trim_white_space\<close>: forward over white space, and back from the end.\<close>

fun skip_space :: "byte list \<Rightarrow> nat \<Rightarrow> nat outcome" where
  "skip_space [] p = Fault Out_Of_Bounds"
| "skip_space (c # cs) p = (if isspace c then skip_space cs (Suc p) else Ret p)"

fun trim_end :: "byte list \<Rightarrow> nat \<Rightarrow> nat \<Rightarrow> nat outcome" where
  "trim_end a str 0 = Ret str"
| "trim_end a str (Suc d) =
     bind_o (array_read a (str + Suc d)) (\<lambda>c. if isspace c then trim_end a str d else Ret (str + Suc d))"

text \<open>The array afterwards and the index of the trimmed string.\<close>

definition trim_white_space :: "byte list \<Rightarrow> nat \<Rightarrow> (byte list \<times> nat) outcome" where
  "trim_white_space a p =
     bind_o (skip_space (drop p a) p) (\<lambda>str.
     bind_o (array_read a str) (\<lambda>c.
       if c = 0 then Ret (a, str)
       else
         bind_o (string_in a str) (\<lambda>s.
         bind_o (trim_end a str (length s - 1)) (\<lambda>e.
         bind_o (array_write a (e + 1) [0]) (\<lambda>a'.
         Ret (a', str))))))"

section \<open>Library functions on strings\<close>

text \<open>
  \<^verbatim>\<open>strtok\<close> with a string, or with the saved index where the source passes NULL:
  the token, the array, and the index it saves.
\<close>

fun skip_delims :: "byte list \<Rightarrow> byte list \<Rightarrow> nat \<Rightarrow> nat outcome" where
  "skip_delims ds [] p = Fault Out_Of_Bounds"
| "skip_delims ds (c # cs) p = (if c \<noteq> 0 \<and> c \<in> set ds then skip_delims ds cs (Suc p) else Ret p)"

fun find_delim :: "byte list \<Rightarrow> byte list \<Rightarrow> nat \<Rightarrow> nat outcome" where
  "find_delim ds [] p = Fault Out_Of_Bounds"
| "find_delim ds (c # cs) p = (if c = 0 \<or> c \<in> set ds then Ret p else find_delim ds cs (Suc p))"

definition strtok :: "byte list \<Rightarrow> nat \<Rightarrow> byte list \<Rightarrow> (nat option \<times> byte list \<times> nat) outcome" where
  "strtok a p delims =
     bind_o (skip_delims delims (drop p a) p) (\<lambda>s.
     bind_o (array_read a s) (\<lambda>c.
       if c = 0 then Ret (None, a, s)
       else
         bind_o (find_delim delims (drop s a) s) (\<lambda>e.
         bind_o (array_read a e) (\<lambda>d.
           if d = 0 then Ret (Some s, a, e)
           else bind_o (array_write a e [0]) (\<lambda>a'. Ret (Some s, a', Suc e))))))"

text \<open>
  \<^verbatim>\<open>atoi\<close>: leading white space, an optional sign, decimal digits. The value of a
  numeral outside the range of \<^verbatim>\<open>int\<close> is not defined.
\<close>

definition atoi_digits :: "byte list \<Rightarrow> nat" where
  "atoi_digits s = radix_val 10 (map (\<lambda>c. unat c - 48) (takeWhile (\<lambda>c. 48 \<le> c \<and> c \<le> 57) s))"

definition atoi :: "byte list \<Rightarrow> int outcome" where
  "atoi s =
     (let t = dropWhile isspace s;
          v = (case t of
                 [] \<Rightarrow> 0
               | c # u \<Rightarrow> if c = 45 then - int (atoi_digits u)
                          else if c = 43 then int (atoi_digits u) else int (atoi_digits t))
      in if - (2 ^ 31) \<le> v \<and> v < 2 ^ 31 then Ret v else Fault Int_Overflow)"

text \<open>\<^verbatim>\<open>fgets(line, n, file)\<close>: the bytes read and what is left of the file.\<close>

definition fgets :: "nat \<Rightarrow> byte list \<Rightarrow> (byte list \<times> byte list) option" where
  "fgets n file =
     (if file = [] then None
      else
        let l = takeWhile (\<lambda>c. c \<noteq> 10) file;
            k = min (n - 1) (if length l < length file then Suc (length l) else length l)
        in Some (take k file, drop k file))"

section \<open>Operations\<close>

text \<open>\<^verbatim>\<open>strncpy\<close> of \<open>len\<close> characters of a string to a member.\<close>

definition copy_member :: "byte option list \<Rightarrow> byte list \<Rightarrow> nat \<Rightarrow> byte option list outcome" where
  "copy_member cells s len = array_write cells 0 (map Some (strncpy_bytes s len))"

text \<open>
  \<^verbatim>\<open>assign_to_config(cfg, name, token)\<close> on the name buffer and the token at index
  \<open>t\<close> of the line; both buffers are trimmed in place.
\<close>

definition assign_to_config ::
  "Config \<Rightarrow> byte list \<Rightarrow> byte list \<Rightarrow> nat \<Rightarrow> (bool \<times> Config \<times> byte list \<times> byte list) outcome" where
  "assign_to_config cfg name line t =
     bind_o (trim_white_space name 0) (\<lambda>(name, n).
     bind_o (trim_white_space line t) (\<lambda>(line, t).
     bind_o (string_in line t) (\<lambda>token.
     let len = length token
     in if len > MAX_TOKEN_VALUE_LENGTH then Ret (False, cfg, name, line)
        else
          bind_o (string_in name n) (\<lambda>key.
          if key = bytes_of ''port'' then
            bind_o (atoi token) (\<lambda>p.
              if p < 1 \<or> p > 65535 then Ret (False, cfg, name, line)
              else Ret (True, cfg\<lparr>port := Some p\<rparr>, name, line))
          else if key = bytes_of ''node_public_url'' then
            (if \<not> is_valid_url token then Ret (False, cfg, name, line)
             else bind_o (copy_member (node_public_url cfg) token len) (\<lambda>c.
               Ret (True, cfg\<lparr>node_public_url := c\<rparr>, name, line)))
          else if key = bytes_of ''validator_url'' then
            (if \<not> is_valid_url token then Ret (False, cfg, name, line)
             else bind_o (copy_member (validator_url cfg) token len) (\<lambda>c.
               Ret (True, cfg\<lparr>validator_url := c\<rparr>, name, line)))
          else if key = bytes_of ''pem_file'' then
            bind_o (copy_member (pem_file cfg) token len) (\<lambda>c.
              Ret (True, cfg\<lparr>pem_file := c\<rparr>, name, line))
          else Ret (False, cfg, name, line)))))"

record parse_state =
  ps_line :: "byte list"
  ps_save :: nat
  ps_name :: "byte list"
  ps_cfg :: Config

text \<open>
  The loop over the tokens of a line; \<open>n\<close> passes are left, so \<^verbatim>\<open>position\<close> is
  \<open>2 - n\<close>.
\<close>

fun token_loop :: "nat \<Rightarrow> nat option \<Rightarrow> parse_state \<Rightarrow> parse_state outcome" where
  "token_loop 0 tok st = Ret st"
| "token_loop (Suc n) tok st =
     (case tok of
        None \<Rightarrow> Ret st
      | Some t \<Rightarrow>
          bind_o
            (if n = 1 then
               bind_o (string_in (ps_line st) t) (\<lambda>s.
               if length s > MAX_TOKEN_NAME_LENGTH
               then Exit ''Max key name size exceeded, allowed %i, have %li''
               else
                 bind_o (array_write (ps_name st) 0 (strncpy_bytes s (length s))) (\<lambda>name.
                 bind_o (array_write name (length s) [0]) (\<lambda>name.
                 Ret (st\<lparr>ps_name := name\<rparr>))))
             else
               bind_o (assign_to_config (ps_cfg st) (ps_name st) (ps_line st) t) (\<lambda>(ok, cfg, name, line).
               if \<not> ok then Exit ''Given key name %s with value %s assign to config failed''
               else Ret (st\<lparr>ps_cfg := cfg, ps_name := name, ps_line := line\<rparr>)))
            (\<lambda>st. bind_o (strtok (ps_line st) (ps_save st) []) (\<lambda>(tok, line, save).
               token_loop n tok (st\<lparr>ps_line := line, ps_save := save\<rparr>))))"

definition process_line :: "byte list \<Rightarrow> parse_state \<Rightarrow> parse_state outcome" where
  "process_line bs st =
     bind_o (array_write (ps_line st) 0 (bs @ [0])) (\<lambda>line.
     bind_o (trim_white_space line 0) (\<lambda>(line, p).
     bind_o (strtok line p (bytes_of '':'')) (\<lambda>(tok, line, save).
     token_loop 2 tok (st\<lparr>ps_line := line, ps_save := save\<rparr>))))"

lemma fgets_shrinks: "fgets n file = Some (bs, rest) \<Longrightarrow> 1 < n \<Longrightarrow> length rest < length file"
  using length_takeWhile_le [of "\<lambda>c. c \<noteq> 10" "file"]
  by (cases "file") (auto simp: fgets_def Let_def split: if_splits)

function file_loop :: "byte list \<Rightarrow> parse_state \<Rightarrow> parse_state outcome" where
  "file_loop file st =
     (case fgets MAX_LINE_LENGTH file of
        None \<Rightarrow> Ret st
      | Some (bs, rest) \<Rightarrow> bind_o (process_line bs st) (file_loop rest))"
  by pat_completeness auto
termination
  by (relation "measure (\<lambda>(file, st). length file)") (auto dest: fgets_shrinks)

text \<open>
  \<^verbatim>\<open>Config_new_from_file\<close>: \<open>file\<close> is \<open>None\<close> when the file cannot be opened;
  \<open>line\<close> and \<open>name\<close> are the contents of the local arrays at the start.
\<close>

definition Config_new_from_file :: "byte list \<Rightarrow> byte list \<Rightarrow> byte list option \<Rightarrow> Config outcome" where
  "Config_new_from_file line name file =
     (case file of
        None \<Rightarrow> Exit ''Cannot open config file: %s''
      | Some bs \<Rightarrow>
          bind_o (file_loop bs \<lparr>ps_line = line, ps_save = 0, ps_name = name, ps_cfg = blank_config\<rparr>)
            (\<lambda>st. Ret (ps_cfg st)))"

end
