(* ===== verification/Config_Props.thy ===== *)
theory Config_Props
  imports Config
begin

section \<open>Trimming\<close>

text \<open>A text without its leading and trailing white space.\<close>

definition strip :: "byte list \<Rightarrow> byte list" where
  "strip t = rev (dropWhile isspace (rev (dropWhile isspace t)))"

lemma strip_split:
  obtains lead trail where "t = lead @ strip t @ trail" "\<forall>c \<in> set lead. isspace c" "\<forall>c \<in> set trail. isspace c"
    "strip t = [] \<longrightarrow> trail = []" "strip t \<noteq> [] \<longrightarrow> \<not> isspace (hd (strip t)) \<and> \<not> isspace (last (strip t))"
proof
  let ?d = "dropWhile isspace t" and ?trail = "rev (takeWhile isspace (rev (dropWhile isspace t)))"
  have d: "?d = strip t @ ?trail"
    by (metis rev_append rev_rev_ident strip_def takeWhile_dropWhile_id)
  then show "t = takeWhile isspace t @ strip t @ ?trail" by (metis takeWhile_dropWhile_id)
  show "\<forall>c \<in> set (takeWhile isspace t). isspace c" "\<forall>c \<in> set ?trail. isspace c"
    by (auto dest: set_takeWhileD)
  have hd: "\<not> isspace (hd ?d)" if "?d \<noteq> []" using hd_dropWhile [OF that] .
  show "strip t = [] \<longrightarrow> ?trail = []"
  proof
    assume "strip t = []"
    then have "\<forall>c \<in> set ?d. isspace c" by (simp add: strip_def dropWhile_eq_Nil_conv)
    then have "?d = []" using hd by (cases ?d) auto
    then show "?trail = []" by (simp only: rev.simps takeWhile.simps)
  qed
  show "strip t \<noteq> [] \<longrightarrow> \<not> isspace (hd (strip t)) \<and> \<not> isspace (last (strip t))"
  proof (intro impI conjI)
    assume that: "strip t \<noteq> []"
    have "?d \<noteq> []" using that by (metis dropWhile.simps(1) rev.simps(1) strip_def)
    moreover have "hd (strip t) = hd ?d" using that by (subst d) simp
    ultimately show "\<not> isspace (hd (strip t))" using hd by simp
  next
    assume that: "strip t \<noteq> []"
    have "dropWhile isspace (rev ?d) \<noteq> []" using that by (simp add: strip_def)
    then show "\<not> isspace (last (strip t))" using hd_dropWhile [of isspace "rev ?d"] by (simp add: strip_def last_rev)
  qed
qed

lemma skip_space_run:
  "\<forall>c \<in> set lead. isspace c \<Longrightarrow> \<not> isspace c \<Longrightarrow> skip_space (lead @ c # cs) p = Ret (p + length lead)"
  by (induction lead arbitrary: p) auto

lemma trim_end_run:
  assumes "a = pre @ b @ trail @ rest" and "b \<noteq> []" and "\<not> isspace (last b)" and "\<forall>c \<in> set trail. isspace c"
  shows "trim_end a (length pre) (length b + length trail - 1) = Ret (length pre + length b - 1)"
  using assms
proof (induction trail arbitrary: rest rule: rev_induct)
  case Nil
  obtain b' x where b: "b = b' @ [x]" using Nil(2) by (cases b rule: rev_cases) auto
  then have "array_read a (length pre + length b') = Ret x" using Nil(1) by (simp add: array_read_def nth_append)
  with b Nil(3) show ?case by (cases "length b'") simp_all
next
  case (snoc x trail)
  obtain n where n: "length b + length trail = Suc n" using snoc.prems(2) by (cases b) auto
  have "array_read a (length pre + (length b + length trail)) = Ret x"
    using snoc.prems(1) by (simp add: array_read_def nth_append)
  then have "trim_end a (length pre) (Suc n) = trim_end a (length pre) n"
    using snoc.prems(4) by (simp add: n)
  then show ?case using snoc.IH [of "x # rest"] snoc.prems n by simp
qed

lemma string_in_run: "0 \<notin> set s \<Longrightarrow> p = length pre \<Longrightarrow> string_in (pre @ s @ 0 # rest) p = Ret s"
  by (simp add: string_in_def cstr_simps)

text \<open>
  Trimming a string in an array: the string becomes its stripped text, and what
  follows the string in the array stays, except for the new NUL.
\<close>

lemma trim_run:
  assumes "a = pre @ t @ 0 # rest" and "0 \<notin> set t" and "p = length pre"
  obtains lead trail where "t = lead @ strip t @ trail"
    "trim_white_space a p = Ret (pre @ lead @ strip t @ 0 # drop 1 (trail @ 0 # rest), length (pre @ lead))"
proof -
  obtain lead trail where t: "t = lead @ strip t @ trail" and sp: "\<forall>c \<in> set lead. isspace c" "\<forall>c \<in> set trail. isspace c"
    and nil: "strip t = [] \<longrightarrow> trail = []"
    and ends: "strip t \<noteq> [] \<longrightarrow> \<not> isspace (hd (strip t)) \<and> \<not> isspace (last (strip t))"
    using strip_split [of t] by blast
  have "trim_white_space a p = Ret (pre @ lead @ strip t @ 0 # drop 1 (trail @ 0 # rest), length (pre @ lead))"
  proof (cases "strip t")
    case Nil
    with t nil have "t = lead" by simp
    then have "skip_space (drop p a) p = Ret (p + length lead)"
      using skip_space_run [OF sp(1), of 0 rest p] assms by (simp add: isspace_def)
    then show ?thesis
      using assms(1,3) \<open>t = lead\<close> nil Nil by (simp add: trim_white_space_def array_read_def nth_append)
  next
    case (Cons c b)
    let ?b = "strip t"
    have a: "a = pre @ lead @ ?b @ trail @ 0 # rest" using t assms(1) by (metis append.assoc)
    have "skip_space (drop p a) p = Ret (p + length lead)"
      using skip_space_run [OF sp(1), of c "b @ trail @ 0 # rest" p] ends Cons a assms(3) by simp
    moreover have "array_read a (p + length lead) = Ret c"
      using a Cons assms(3) by (simp add: array_read_def nth_append)
    moreover have "c \<noteq> 0" using assms(2) t Cons by auto
    moreover have "string_in a (p + length lead) = Ret (?b @ trail)"
    proof -
      have "0 \<notin> set (?b @ trail)" using assms(2) t by (metis UnCI set_append)
      then show ?thesis
        using string_in_run [of "?b @ trail" "p + length lead" "pre @ lead" rest] a assms(3) by simp
    qed
    moreover have "trim_end a (p + length lead) (length (?b @ trail) - 1) = Ret (p + length lead + length ?b - 1)"
      using trim_end_run [of a "pre @ lead" ?b trail "0 # rest"] a ends Cons sp(2) assms(3) by simp
    moreover have "array_write a (p + length lead + length ?b) [0] = Ret (pre @ lead @ ?b @ 0 # drop 1 (trail @ 0 # rest))"
      using a assms(3) by (simp add: array_write_def splice_def)
    ultimately show ?thesis using assms(3) Cons by (simp add: trim_white_space_def)
  qed
  with t show thesis by (rule that)
qed

section \<open>Tokens\<close>

lemma bytes_of_colon [simp]: "bytes_of '':'' = [58]"
  by (simp add: bytes_of_def)

lemma skip_delims_run:
  "\<forall>x \<in> set c. x \<noteq> 0 \<and> x \<in> set ds \<Longrightarrow> x = 0 \<or> x \<notin> set ds \<Longrightarrow> skip_delims ds (c @ x # r) p = Ret (p + length c)"
  by (induction c arbitrary: p) auto

lemma find_delim_run:
  "\<forall>x \<in> set k. x \<noteq> 0 \<and> x \<notin> set ds \<Longrightarrow> x = 0 \<or> x \<in> set ds \<Longrightarrow> find_delim ds (k @ x # r) p = Ret (p + length k)"
  by (induction k arbitrary: p) auto

lemma strtok_rest_run:
  assumes "a = pre @ w @ 0 # rest" and "0 \<notin> set w" and "p = length pre"
  shows "strtok a p [] = (if w = [] then Ret (None, a, p) else Ret (Some p, a, p + length w))"
proof (cases w)
  case Nil
  then show ?thesis using assms by (simp add: strtok_def array_read_def)
next
  case (Cons x w')
  have "find_delim [] (drop p a) p = Ret (p + length w)"
    using find_delim_run [of w "[]" 0 rest p] assms by auto
  moreover have "array_read a p = Ret x" "array_read a (p + length w) = Ret 0"
    using assms Cons by (simp_all add: array_read_def nth_append)
  moreover have "skip_delims [] (drop p a) p = Ret p" "x \<noteq> 0" using assms Cons by auto
  ultimately show ?thesis using Cons by (simp add: strtok_def)
qed

lemma strtok_colon_none:
  assumes "a = pre @ c @ 0 # rest" and "\<forall>x \<in> set c. x = 58" and "p = length pre"
  shows "strtok a p [58] = Ret (None, a, p + length c)"
proof -
  have "\<forall>x \<in> set c. x \<noteq> 0 \<and> x \<in> set [58]" using assms(2) by auto
  then have "skip_delims [58] (drop p a) p = Ret (p + length c)"
    using skip_delims_run [of c "[58]" 0 rest p] assms(1,3) by simp
  then show ?thesis using assms by (simp add: strtok_def array_read_def nth_append)
qed

lemma strtok_colon_some:
  assumes "a = pre @ c @ k @ x # rest" and "\<forall>x \<in> set c. x = 58" and "k \<noteq> []" and "0 \<notin> set k" and "58 \<notin> set k"
    and "x = 0 \<or> x = 58" and "p = length pre"
  shows "strtok a p [58] = Ret (Some (p + length c), pre @ c @ k @ 0 # rest,
    if x = 0 then p + length c + length k else Suc (p + length c + length k))"
proof -
  obtain y k' where k: "k = y # k'" using assms(3) by (cases k) auto
  have "\<forall>x \<in> set c. x \<noteq> 0 \<and> x \<in> set [58]" using assms(2) by auto
  then have "skip_delims [58] (drop p a) p = Ret (p + length c)"
    using skip_delims_run [of c "[58]" y "k' @ x # rest" p] assms(1,5,7) k by simp
  moreover have "find_delim [58] (drop (p + length c) a) (p + length c) = Ret (p + length c + length k)"
    using find_delim_run [of k "[58]" x rest "p + length c"] assms by auto
  moreover have "array_read a (p + length c) = Ret y" "array_read a (p + length c + length k) = Ret x" "y \<noteq> 0"
    using assms k by (auto simp: array_read_def nth_append)
  moreover have "array_write a (p + length c + length k) [0] = Ret (pre @ c @ k @ 0 # rest)"
    using assms by (simp add: array_write_def splice_def)
  ultimately show ?thesis using assms by (auto simp: strtok_def)
qed

section \<open>The meaning of a configuration file\<close>

text \<open>
  What a key and a value do to a configuration, what a line does, and what a file
  does, on texts: no buffers, no indices.
\<close>

definition assign_spec :: "Config \<Rightarrow> byte list \<Rightarrow> byte list \<Rightarrow> (bool \<times> Config) outcome" where
  "assign_spec cfg key val =
     (if length val > MAX_TOKEN_VALUE_LENGTH then Ret (False, cfg)
      else if key = bytes_of ''port'' then
        bind_o (atoi val) (\<lambda>p. if 1 \<le> p \<and> p \<le> 65535 then Ret (True, cfg\<lparr>port := Some p\<rparr>) else Ret (False, cfg))
      else if key = bytes_of ''node_public_url'' then
        (if is_valid_url val
         then bind_o (array_write (node_public_url cfg) 0 (map Some val)) (\<lambda>c. Ret (True, cfg\<lparr>node_public_url := c\<rparr>))
         else Ret (False, cfg))
      else if key = bytes_of ''validator_url'' then
        (if is_valid_url val
         then bind_o (array_write (validator_url cfg) 0 (map Some val)) (\<lambda>c. Ret (True, cfg\<lparr>validator_url := c\<rparr>))
         else Ret (False, cfg))
      else if key = bytes_of ''pem_file'' then
        bind_o (array_write (pem_file cfg) 0 (map Some val)) (\<lambda>c. Ret (True, cfg\<lparr>pem_file := c\<rparr>))
      else Ret (False, cfg))"

definition line_spec :: "byte list \<Rightarrow> Config \<Rightarrow> Config outcome" where
  "line_spec t cfg =
     (let u = dropWhile (\<lambda>c. c = 58) (strip t); k = takeWhile (\<lambda>c. c \<noteq> 58) u; v = drop (Suc (length k)) u
      in if u = [] then Ret cfg
         else if length k > MAX_TOKEN_NAME_LENGTH then Exit ''Max key name size exceeded, allowed %i, have %li''
         else if length k = MAX_TOKEN_NAME_LENGTH then Fault Out_Of_Bounds
         else if v = [] then Ret cfg
         else bind_o (assign_spec cfg (strip k) (strip v)) (\<lambda>(ok, cfg').
           if ok then Ret cfg' else Exit ''Given key name %s with value %s assign to config failed''))"

fun lines_of :: "byte list \<Rightarrow> byte list list" where
  "lines_of [] = [[]]"
| "lines_of (c # s) = (if c = 10 then [] # lines_of s else (c # hd (lines_of s)) # tl (lines_of s))"

fun file_spec :: "byte list list \<Rightarrow> Config \<Rightarrow> Config outcome" where
  "file_spec [] cfg = Ret cfg"
| "file_spec (l # ls) cfg = bind_o (line_spec l cfg) (file_spec ls)"

lemma file_spec_Nil: "file_spec [] = Ret"
  by (rule ext) simp

lemma rel_bind_o:
  assumes "rel_outcome R m n" and "\<And>a b. R a b \<Longrightarrow> rel_outcome S (f a) (g b)"
  shows "rel_outcome S (bind_o m f) (bind_o n g)"
  using assms by (cases m; cases n) auto

lemma assign_run:
  assumes "name = key @ 0 # nrest" and "0 \<notin> set key" and "line = pre @ v @ 0 # rest" and "0 \<notin> set v" and "t = length pre"
  obtains name' line' where
    "assign_to_config cfg name line t =
       bind_o (assign_spec cfg (strip key) (strip v)) (\<lambda>(ok, cfg'). Ret (ok, cfg', name', line'))"
    "length name' = length name" "length line' = length line" "drop (length pre + length v) line' = 0 # rest"
proof -
  obtain l1 t1 where key: "key = l1 @ strip key @ t1" and
    trim1: "trim_white_space name 0 = Ret (l1 @ strip key @ 0 # drop 1 (t1 @ 0 # nrest), length l1)"
    using trim_run [of name "[]" key nrest 0] assms(1,2) by auto
  obtain l2 t2 where v: "v = l2 @ strip v @ t2" and
    trim2: "trim_white_space line t = Ret (pre @ l2 @ strip v @ 0 # drop 1 (t2 @ 0 # rest), length (pre @ l2))"
    using trim_run [OF assms(3-5)] by blast
  let ?n = "l1 @ strip key @ 0 # drop 1 (t1 @ 0 # nrest)" and ?l = "pre @ l2 @ strip v @ 0 # drop 1 (t2 @ 0 # rest)"
  have nn: "0 \<notin> set (strip key)" "0 \<notin> set (strip v)" using assms(2,4) key v by (metis UnCI set_append)+
  have str: "string_in ?n (length l1) = Ret (strip key)" "string_in ?l (length (pre @ l2)) = Ret (strip v)"
    using string_in_run [OF nn(1), of "length l1" l1] string_in_run [OF nn(2), of "length (pre @ l2)" "pre @ l2"] by simp_all
  have lens: "length key = length l1 + length (strip key) + length t1" "length v = length l2 + length (strip v) + length t2"
    using key v by (metis add.assoc length_append)+
  show thesis
  proof (rule that [of ?n ?l])
    show "length ?n = length name" "length ?l = length line" using assms(1,3) lens by simp_all
    show "drop (length pre + length v) ?l = 0 # rest" using lens(2) by (cases t2) simp_all
    show "assign_to_config cfg name line t =
       bind_o (assign_spec cfg (strip key) (strip v)) (\<lambda>(ok, cfg'). Ret (ok, cfg', ?n, ?l))"
      using nn str
      by (auto simp: assign_to_config_def assign_spec_def trim1 trim2 Let_def copy_member_def strncpy_bytes_exact
          bind_o_assoc not_less not_le intro!: arg_cong [where f = "bind_o _"])
  qed
qed

section \<open>The reader implements the meaning\<close>

definition wf_parse :: "parse_state \<Rightarrow> bool" where
  "wf_parse st \<longleftrightarrow> length (ps_line st) = MAX_LINE_LENGTH \<and> length (ps_name st) = MAX_TOKEN_NAME_LENGTH"

text \<open>The states and configurations that belong together.\<close>

definition parses_to :: "parse_state \<Rightarrow> Config \<Rightarrow> bool" where
  "parses_to st cfg \<longleftrightarrow> wf_parse st \<and> ps_cfg st = cfg"

text \<open>The second pass of the token loop: the value.\<close>

lemma value_pass:
  assumes "ps_line st = pre @ v @ 0 # rest" and "0 \<notin> set v" and "v \<noteq> []" and "ps_save st = length pre + length v"
    and "ps_name st = key @ 0 # nrest" and "0 \<notin> set key" and "wf_parse st"
  shows "rel_outcome parses_to (token_loop 1 (Some (length pre)) st)
    (bind_o (assign_spec (ps_cfg st) (strip key) (strip v)) (\<lambda>(ok, cfg').
       if ok then Ret cfg' else Exit ''Given key name %s with value %s assign to config failed''))"
proof -
  obtain name' line' where run: "assign_to_config (ps_cfg st) (ps_name st) (ps_line st) (length pre) =
      bind_o (assign_spec (ps_cfg st) (strip key) (strip v)) (\<lambda>(ok, cfg'). Ret (ok, cfg', name', line'))"
    and lens: "length name' = length (ps_name st)" "length line' = length (ps_line st)"
    and tail: "drop (length pre + length v) line' = 0 # rest"
    using assign_run [OF assms(5,6,1,2)] by blast
  have "line' = take (length pre + length v) line' @ [] @ 0 # rest" using tail by (metis append_Nil append_take_drop_id)
  moreover have "length (take (length pre + length v) line') = length pre + length v"
    using lens(2) assms(1) by simp
  ultimately have "strtok line' (ps_save st) [] = Ret (None, line', ps_save st)"
    using strtok_rest_run [of line' "take (length pre + length v) line'" "[]" rest "ps_save st"] assms(4) by simp
  then show ?thesis
    using assms(7) lens
    by (cases "assign_spec (ps_cfg st) (strip key) (strip v)")
      (auto simp: run parses_to_def wf_parse_def split: prod.splits)
qed

lemma token_loop_key:
  "token_loop 2 (Some t) st =
     bind_o (string_in (ps_line st) t) (\<lambda>s.
     if length s > MAX_TOKEN_NAME_LENGTH
     then Exit ''Max key name size exceeded, allowed %i, have %li''
     else
       bind_o (array_write (ps_name st) 0 (strncpy_bytes s (length s))) (\<lambda>name.
       bind_o (array_write name (length s) [0]) (\<lambda>name.
       bind_o (strtok (ps_line st) (ps_save st) []) (\<lambda>(tok, line, save).
       token_loop 1 tok (st\<lparr>ps_name := name, ps_line := line, ps_save := save\<rparr>)))))"
  unfolding numeral_2_eq_2 One_nat_def
  by (subst token_loop.simps)
    (simp add: bind_o_assoc if_distrib [where f = "\<lambda>m. bind_o m _"] del: token_loop.simps cong: if_cong)

text \<open>The first pass: the key is copied, and the value follows if there is one.\<close>

lemma key_pass:
  assumes "ps_line st = pre @ k @ 0 # w @ 0 # rest" and "0 \<notin> set k" and "0 \<notin> set w" and "wf_parse st"
    and "ps_save st = Suc (length pre + length k)"
  shows "rel_outcome parses_to (token_loop 2 (Some (length pre)) st)
    (if length k > MAX_TOKEN_NAME_LENGTH then Exit ''Max key name size exceeded, allowed %i, have %li''
     else if length k = MAX_TOKEN_NAME_LENGTH then Fault Out_Of_Bounds
     else if w = [] then Ret (ps_cfg st)
     else bind_o (assign_spec (ps_cfg st) (strip k) (strip w)) (\<lambda>(ok, cfg').
           if ok then Ret cfg' else Exit ''Given key name %s with value %s assign to config failed''))"
proof -
  have str: "string_in (ps_line st) (length pre) = Ret k" using string_in_run [OF assms(2)] assms(1) by simp
  have name: "length (ps_name st) = 8192" using assms(4) by (simp add: wf_parse_def)
  show ?thesis
  proof (cases "length k < 8192")
    case False
    then show ?thesis
      using str name assms(2) by (auto simp: token_loop_key strncpy_bytes_exact array_write_def)
  next
    case True
    let ?name = "k @ 0 # drop (Suc (length k)) (ps_name st)"
    let ?st = "st\<lparr>ps_name := ?name\<rparr>"
    have "array_write (ps_name st) 0 k = Ret (k @ drop (length k) (ps_name st))"
      using True name by (simp add: array_write_def splice_0)
    moreover have "array_write (k @ drop (length k) (ps_name st)) (length k) [0] = Ret ?name"
      using True name by (simp add: array_write_def splice_def)
    moreover have "strtok (ps_line st) (ps_save st) [] =
        (if w = [] then Ret (None, ps_line st, ps_save st) else Ret (Some (ps_save st), ps_line st, ps_save st + length w))"
      using strtok_rest_run [of "ps_line st" "pre @ k @ [0]" w rest "ps_save st"] assms(1,3,5) by simp
    ultimately have run: "token_loop 2 (Some (length pre)) st =
        (if w = [] then token_loop 1 None ?st
         else token_loop 1 (Some (ps_save st)) (?st\<lparr>ps_save := ps_save st + length w\<rparr>))"
      using str assms(2) True by (cases st) (simp add: token_loop_key strncpy_bytes_exact del: token_loop.simps)
    have wf: "wf_parse (?st\<lparr>ps_save := x\<rparr>)" "wf_parse ?st" for x using assms(4) True by (simp_all add: wf_parse_def)
    have "rel_outcome parses_to (token_loop 1 (Some (ps_save st)) (?st\<lparr>ps_save := ps_save st + length w\<rparr>))
      (bind_o (assign_spec (ps_cfg st) (strip k) (strip w)) (\<lambda>(ok, cfg').
         if ok then Ret cfg' else Exit ''Given key name %s with value %s assign to config failed''))" if "w \<noteq> []"
      using value_pass [of "?st\<lparr>ps_save := ps_save st + length w\<rparr>" "pre @ k @ [0]" w rest k "drop (Suc (length k)) (ps_name st)"]
        assms(1,2,3,5) that wf(1) by simp
    then show ?thesis using True run wf(2) by (simp add: parses_to_def)
  qed
qed

lemma token_loop_None [simp]: "token_loop n None st = Ret st"
  by (cases n) simp_all

lemma wf_parse_line: "wf_parse st \<Longrightarrow> length line = 32768 \<Longrightarrow> wf_parse (st\<lparr>ps_line := line, ps_save := s\<rparr>)"
  by (simp add: wf_parse_def)

text \<open>Reading a line that is the only token of its text gives the key without a value.\<close>

lemma lone_key_pass:
  assumes "ps_line st = pre @ k @ 0 # rest" and "0 \<notin> set k" and "wf_parse st" and "ps_save st = length pre + length k"
  shows "rel_outcome parses_to (token_loop 2 (Some (length pre)) st)
    (if length k > MAX_TOKEN_NAME_LENGTH then Exit ''Max key name size exceeded, allowed %i, have %li''
     else if length k = MAX_TOKEN_NAME_LENGTH then Fault Out_Of_Bounds
     else Ret (ps_cfg st))"
proof -
  have "string_in (ps_line st) (length pre) = Ret k" using string_in_run [OF assms(2)] assms(1) by simp
  moreover have "length (ps_name st) = 8192" using assms(3) by (simp add: wf_parse_def)
  moreover have "strtok (ps_line st) (ps_save st) [] = Ret (None, ps_line st, ps_save st)"
    using strtok_rest_run [of "ps_line st" "pre @ k" "[]" rest "ps_save st"] assms(1,4) by simp
  ultimately show ?thesis
    using assms(2,3)
    by (auto simp: token_loop_key strncpy_bytes_exact array_write_def parses_to_def wf_parse_def)
qed

lemma line_run:
  assumes "wf_parse st" and "0 \<notin> set t" and "length t < MAX_LINE_LENGTH"
  shows "rel_outcome parses_to (process_line t st) (line_spec t (ps_cfg st))"
proof -
  let ?rest = "drop (Suc (length t)) (ps_line st)"
  define c u where "c = takeWhile (\<lambda>c. c = 58) (strip t)" and "u = dropWhile (\<lambda>c. c = 58) (strip t)"
  define k where "k = takeWhile (\<lambda>c. c \<noteq> 58) u"
  have line: "length (ps_line st) = 32768" using assms(1) by (simp add: wf_parse_def)
  then have wr: "array_write (ps_line st) 0 (t @ [0]) = Ret (t @ 0 # ?rest)"
    using assms(3) by (simp add: array_write_def splice_0)
  obtain lead trail where t: "t = lead @ strip t @ trail" and
    trim: "trim_white_space (t @ 0 # ?rest) 0 = Ret (lead @ strip t @ 0 # drop 1 (trail @ 0 # ?rest), length lead)"
    using trim_run [of "t @ 0 # ?rest" "[]" t ?rest 0] assms(2) by auto
  define r where "r = drop 1 (trail @ 0 # ?rest)"
  have su: "strip t = c @ u" by (simp add: c_def u_def)
  have len: "length lead + length c + length u + length r = 32767"
    using arg_cong [OF t, of length] arg_cong [OF su, of length] line assms(3) by (simp add: r_def)
  have c58: "\<forall>x \<in> set c. x = 58" by (auto simp: c_def dest: set_takeWhileD)
  have nn: "0 \<notin> set u" using assms(2) t su by (metis UnCI set_append)
  have proc: "process_line t st = bind_o (strtok (lead @ c @ u @ 0 # r) (length lead) [58])
      (\<lambda>(tok, line, save). token_loop 2 tok (st\<lparr>ps_line := line, ps_save := save\<rparr>))"
    using wr trim su by (simp add: process_line_def r_def)
  have spec: "line_spec t (ps_cfg st) =
      (if u = [] then Ret (ps_cfg st)
       else if length k > 8192 then Exit ''Max key name size exceeded, allowed %i, have %li''
       else if length k = 8192 then Fault Out_Of_Bounds
       else if drop (Suc (length k)) u = [] then Ret (ps_cfg st)
       else bind_o (assign_spec (ps_cfg st) (strip k) (strip (drop (Suc (length k)) u))) (\<lambda>(ok, cfg').
         if ok then Ret cfg' else Exit ''Given key name %s with value %s assign to config failed''))"
    by (simp only: line_spec_def Let_def u_def k_def)
  show ?thesis
  proof (cases "u = []")
    case True
    then show ?thesis
      using strtok_colon_none [of _ lead c r "length lead"] c58 proc spec len wf_parse_line [OF assms(1)]
      by (simp add: parses_to_def)
  next
    case False
    have "hd u \<noteq> 58" using False hd_dropWhile [of "\<lambda>c. c = 58" "strip t"] by (simp add: u_def)
    then have k: "k \<noteq> []" "58 \<notin> set k" "0 \<notin> set k"
      using False nn by (cases u; auto simp: k_def dest: set_takeWhileD)+
    have ku: "u = k @ dropWhile (\<lambda>c. c \<noteq> 58) u" by (simp add: k_def)
    show ?thesis
    proof (cases "dropWhile (\<lambda>c. c \<noteq> 58) u")
      case Nil
      with ku have u: "u = k" by simp
      then have "strtok (lead @ c @ u @ 0 # r) (length lead) [58] =
          Ret (Some (length (lead @ c)), (lead @ c) @ k @ 0 # r, length (lead @ c) + length k)"
        using strtok_colon_some [of _ lead c k 0 r "length lead"] c58 k by simp
      then show ?thesis
        using lone_key_pass [of "st\<lparr>ps_line := (lead @ c) @ k @ 0 # r, ps_save := length (lead @ c) + length k\<rparr>" "lead @ c" k r]
          proc spec u len k wf_parse_line [OF assms(1)] False by (simp cong: if_cong)
    next
      case (Cons x v)
      have "x = 58" using hd_dropWhile [of "\<lambda>c. c \<noteq> 58" u] Cons by simp
      with ku Cons have u: "u = k @ 58 # v" by simp
      then have "strtok (lead @ c @ u @ 0 # r) (length lead) [58] =
          Ret (Some (length (lead @ c)), (lead @ c) @ k @ 0 # v @ 0 # r, Suc (length (lead @ c) + length k))"
        using strtok_colon_some [of _ lead c k 58 "v @ 0 # r" "length lead"] c58 k by simp
      moreover have "0 \<notin> set v" using nn u by simp
      ultimately show ?thesis
        using key_pass [of "st\<lparr>ps_line := (lead @ c) @ k @ 0 # v @ 0 # r, ps_save := Suc (length (lead @ c) + length k)\<rparr>"
            "lead @ c" k v r] proc spec u len k wf_parse_line [OF assms(1)] False by (simp cong: if_cong)
    qed
  qed
qed

text \<open>A newline at the end of a line is white space and does not matter.\<close>

lemma strip_newline: "strip (l @ [10]) = strip l"
proof -
  have sp: "isspace 10" by (simp add: isspace_def)
  show ?thesis
  proof (cases "\<forall>c \<in> set l. isspace c")
    case True
    then have "dropWhile isspace (l @ [10]) = []" "dropWhile isspace l = []" using sp by (auto simp: dropWhile_eq_Nil_conv)
    then show ?thesis by (simp only: strip_def)
  next
    case False
    then obtain c where "c \<in> set l" and "\<not> isspace c" by blast
    then have "dropWhile isspace (l @ [10]) = dropWhile isspace l @ [10]" by (rule dropWhile_append1)
    then show ?thesis using sp by (simp add: strip_def)
  qed
qed

lemma line_spec_newline: "line_spec (l @ [10]) cfg = line_spec l cfg"
  by (simp add: line_spec_def strip_newline)

lemma line_spec_Nil [simp]: "line_spec [] cfg = Ret cfg"
  by (simp add: line_spec_def strip_def)

lemma lines_of_not_Nil [simp]: "lines_of s \<noteq> []"
  by (induction s) auto

lemma lines_of_line:
  "10 \<notin> set l \<Longrightarrow> lines_of (l @ 10 # s) = l # lines_of s"
  "10 \<notin> set l \<Longrightarrow> lines_of l = [l]"
  by (induction l) auto

lemma takeWhile_line:
  "10 \<notin> set l \<Longrightarrow> takeWhile (\<lambda>c. c \<noteq> 10) (l @ 10 # s) = l"
  "10 \<notin> set l \<Longrightarrow> takeWhile (\<lambda>c. c \<noteq> 10) l = (l :: byte list)"
  by (induction l) auto

lemma fgets_line:
  assumes "10 \<notin> set l" and "length l < MAX_LINE_LENGTH - 1"
  shows "fgets MAX_LINE_LENGTH (l @ 10 # s) = Some (l @ [10], s)"
    and "l \<noteq> [] \<Longrightarrow> fgets MAX_LINE_LENGTH l = Some (l, [])"
  using assms by (simp_all add: fgets_def Let_def takeWhile_line)

lemma split_line: "(\<exists>l s. f = l @ 10 # s \<and> 10 \<notin> set l) \<or> 10 \<notin> set f"
  for f :: "byte list"
  by (metis split_list_first)

lemma file_run:
  assumes "wf_parse st" and "0 \<notin> set f" and "\<forall>l \<in> set (lines_of f). length l < MAX_LINE_LENGTH - 1"
  shows "rel_outcome parses_to (file_loop f st) (file_spec (lines_of f) (ps_cfg st))"
  using assms
proof (induction "length f" arbitrary: f st rule: less_induct)
  case less
  show ?case
  proof (cases "10 \<in> set f")
    case True
    then obtain l s where f: "f = l @ 10 # s" and l: "10 \<notin> set l" using split_line [of f] by blast
    then have short: "length l < 32767" using less.prems(3) by (simp add: lines_of_line)
    have "rel_outcome parses_to (process_line (l @ [10]) st) (line_spec l (ps_cfg st))"
      using line_run [of st "l @ [10]"] less.prems(1,2) f short by (simp add: line_spec_newline)
    moreover have "rel_outcome parses_to (file_loop s st') (file_spec (lines_of s) cfg)" if "parses_to st' cfg" for st' cfg
      using less.hyps [of s st'] less.prems(2,3) f l that by (auto simp: parses_to_def lines_of_line)
    ultimately show ?thesis
      using fgets_line(1) [OF l, of s] short f l
      by (subst file_loop.simps) (auto simp: lines_of_line intro: rel_bind_o simp del: file_loop.simps)
  next
    case False
    show ?thesis
    proof (cases "f = []")
      case True
      then show ?thesis using less.prems(1) by (subst file_loop.simps) (simp add: fgets_def parses_to_def del: file_loop.simps)
    next
      case nonempty: False
      have short: "length f < 32767" using less.prems(3) False by (simp add: lines_of_line)
      have "rel_outcome parses_to (process_line f st) (line_spec f (ps_cfg st))"
        using line_run [of st f] less.prems(1,2) short by simp
      moreover have "rel_outcome parses_to (file_loop [] st') (Ret cfg)" if "parses_to st' cfg" for st' cfg
        using that by (subst file_loop.simps) (simp add: fgets_def del: file_loop.simps)
      ultimately show ?thesis
        using fgets_line(2) [OF False _ nonempty] short False
        by (subst file_loop.simps) (auto simp: lines_of_line intro: rel_bind_o simp del: file_loop.simps)
    qed
  qed
qed

section \<open>Properties\<close>

lemma Config_file_run:
  assumes "length line = MAX_LINE_LENGTH" and "length name = MAX_TOKEN_NAME_LENGTH" and "0 \<notin> set f"
    and "\<forall>l \<in> set (lines_of f). length l < MAX_LINE_LENGTH - 1"
  shows "Config_new_from_file line name (Some f) = file_spec (lines_of f) blank_config"
proof -
  let ?st = "\<lparr>ps_line = line, ps_save = 0, ps_name = name, ps_cfg = blank_config\<rparr>"
  have "rel_outcome parses_to (file_loop f ?st) (file_spec (lines_of f) blank_config)"
    using file_run [of ?st f] assms by (simp add: wf_parse_def)
  then show ?thesis
    by (cases "file_loop f ?st"; cases "file_spec (lines_of f) blank_config")
      (auto simp: Config_new_from_file_def parses_to_def simp del: file_loop.simps)
qed

text \<open>A file of one line \<open>key:value\<close>.\<close>

lemma strip_same: "s \<noteq> [] \<Longrightarrow> \<not> isspace (hd s) \<Longrightarrow> \<not> isspace (last s) \<Longrightarrow> strip s = s"
proof -
  assume s: "s \<noteq> []" "\<not> isspace (hd s)" "\<not> isspace (last s)"
  then have "dropWhile isspace s = s" by (cases s) auto
  moreover have "dropWhile isspace (rev s) = rev s" using s(1,3) by (cases s rule: rev_cases) auto
  ultimately show ?thesis by (simp only: strip_def rev_rev_ident)
qed

definition plain :: "byte list \<Rightarrow> bool" where
  "plain s \<longleftrightarrow> s \<noteq> [] \<and> \<not> isspace (hd s) \<and> \<not> isspace (last s) \<and> 0 \<notin> set s \<and> 10 \<notin> set s"

lemma line_spec_entry:
  assumes "plain key" and "plain val" and "58 \<notin> set key" and "length key < MAX_TOKEN_NAME_LENGTH"
  shows "line_spec (key @ [58] @ val) cfg = bind_o (assign_spec cfg key val) (\<lambda>(ok, cfg).
      if ok then Ret cfg else Exit ''Given key name %s with value %s assign to config failed'')"
proof -
  let ?f = "key @ [58] @ val"
  have "strip ?f = ?f" using assms(1,2) by (intro strip_same) (auto simp: plain_def)
  moreover have "dropWhile (\<lambda>c. c = 58) ?f = ?f" using assms(1,3) by (cases key) (auto simp: plain_def)
  moreover have "takeWhile (\<lambda>c. c \<noteq> 58) ?f = key" using assms(3) by (induction key) auto
  moreover have "strip key = key" "strip val = val" using assms(1,2) by (auto simp: plain_def intro: strip_same)
  ultimately show ?thesis using assms(2,4) by (simp add: line_spec_def plain_def)
qed

lemma one_line_run:
  assumes "plain key" and "plain val" and "58 \<notin> set key" and "length key < MAX_TOKEN_NAME_LENGTH"
    and "length key + length val < MAX_LINE_LENGTH - 2"
    and "length line = MAX_LINE_LENGTH" and "length name = MAX_TOKEN_NAME_LENGTH"
  shows "Config_new_from_file line name (Some (key @ [58] @ val)) =
    bind_o (assign_spec blank_config key val) (\<lambda>(ok, cfg).
      if ok then Ret cfg else Exit ''Given key name %s with value %s assign to config failed'')"
proof -
  let ?f = "key @ [58] @ val"
  have f: "10 \<notin> set ?f" "0 \<notin> set ?f" using assms(1,2) by (auto simp: plain_def)
  have "lines_of ?f = [?f]" using f(1) by (rule lines_of_line)
  then show ?thesis
    using Config_file_run [OF assms(6,7) f(2)] line_spec_entry [OF assms(1-4)] assms(5) by (simp add: file_spec_Nil)
qed

lemma atoi_decimal: "atoi (decimal p) = (if int p < 2 ^ 31 then Ret (int p) else Fault Int_Overflow)"
proof -
  have tw: "takeWhile (\<lambda>c. 48 \<le> c \<and> c \<le> 57) (map digit_char ds) = map digit_char ds"
    and mp: "map (\<lambda>c. unat c - 48) (map digit_char ds) = ds" if "digits_ok 10 ds" for ds
    using that by (induction ds) (simp_all add: digit_char_bounds unat_digit_char)
  have digits: "atoi_digits (map digit_char ds) = radix_val 10 ds" if "digits_ok 10 ds" for ds
    by (simp only: atoi_digits_def tw [OF that] mp [OF that])
  have dec: "decimal p = map digit_char (if p = 0 then [0] else radix_digits 10 p)"
    by (simp add: decimal_def digit_char_def)
  have ok: "digits_ok 10 (if p = 0 then [0] else radix_digits 10 p)" by simp
  obtain d ds where ds: "(if p = 0 then [0] else radix_digits 10 p) = d # ds"
    using r10.digits_hd [of p] by (cases "if p = 0 then [0] else radix_digits 10 p") (auto split: if_splits)
  with ok have "d < 10" by (metis digits_ok_simps(2))
  then have "\<not> isspace (digit_char d)" "digit_char d \<noteq> 45" "digit_char d \<noteq> 43"
    using unat_digit_char [of d] by (auto simp: isspace_def word_le_nat_alt word_unat_eq_iff)
  moreover have "atoi_digits (decimal p) = p" using digits [OF ok] dec by simp
  ultimately show ?thesis using dec ds by (simp add: atoi_def Let_def)
qed

lemma plain_decimal: "plain (decimal p)"
proof -
  have "\<forall>c \<in> set (decimal p). 48 \<le> c \<and> c \<le> 57"
    using r10.digits_digits_ok [of p]
    by (auto simp: decimal_def digits_ok_def digit_char_bounds)
  moreover have "decimal p \<noteq> []" using r10.digits_hd [of p] by (simp add: decimal_def)
  moreover have "48 \<le> c \<Longrightarrow> \<not> isspace c \<and> c \<noteq> 0 \<and> c \<noteq> 10" for c :: byte
    by (auto simp: isspace_def word_le_nat_alt word_unat_eq_iff)
  ultimately show ?thesis unfolding plain_def by (metis hd_in_set last_in_set)
qed

text \<open>
  C11: \<^verbatim>\<open>Config_new_from_file\<close> computes the meaning of the file: on a file without NUL
  bytes and with lines that fit the line buffer, the in-place trimming and tokenising
  give exactly what reading the file line by line, splitting each stripped line at its
  first colon and assigning the stripped value to the stripped key gives, whatever
  the local arrays hold at the start. A line without a value is ignored.
\<close>

theorem Config_file_refines:
  assumes "length line = MAX_LINE_LENGTH" and "length name = MAX_TOKEN_NAME_LENGTH" and "0 \<notin> set f"
    and "\<forall>l \<in> set (lines_of f). length l < MAX_LINE_LENGTH - 1"
  shows "Config_new_from_file line name (Some f) = file_spec (lines_of f) blank_config"
  by (rule Config_file_run [OF assms])

theorem Config_file_refines_witness:
  "Config_new_from_file (replicate 32768 0) (replicate 8192 0) (Some (bytes_of ''port'' @ [58] @ decimal 8080 @ [10, 32, 10])) =
     Ret (blank_config\<lparr>port := Some 8080\<rparr>)"
proof -
  let ?l = "bytes_of ''port'' @ [58] @ decimal 8080"
  have port: "plain (bytes_of ''port'')" "58 \<notin> set (bytes_of ''port'')" "length (bytes_of ''port'') = 4"
    by (simp_all add: plain_def bytes_of_def isspace_def)
  have len: "length (decimal 8080) = 4" by (simp add: decimal_def r10.digits_unfold [of 8080] r10.digits_unfold)
  have "10 \<notin> set ?l" "0 \<notin> set ?l" using port(1) plain_decimal [of 8080] by (auto simp: plain_def)
  then have lines: "lines_of (bytes_of ''port'' @ [58] @ decimal 8080 @ [10, 32, 10]) = [?l, [32], []]"
    using lines_of_line(1) [of ?l "[32, 10]"] by simp
  have "line_spec ?l blank_config = Ret (blank_config\<lparr>port := Some 8080\<rparr>)"
    using line_spec_entry [OF port(1) plain_decimal port(2)] port(3) len by (simp add: assign_spec_def atoi_decimal)
  moreover have "line_spec [32] cfg = Ret cfg" for cfg by (simp add: line_spec_def strip_def isspace_def)
  ultimately have "file_spec [?l, [32], []] blank_config = Ret (blank_config\<lparr>port := Some 8080\<rparr>)" by simp
  then show ?thesis
    using Config_file_refines [of "replicate 32768 0" "replicate 8192 0" "bytes_of ''port'' @ [58] @ decimal 8080 @ [10, 32, 10]"]
      lines len port(3) \<open>0 \<notin> set ?l\<close> by simp
qed

text \<open>
  C29: A \<^verbatim>\<open>port\<close> line sets the port exactly to the number its numeral denotes when that is
  between 1 and 65535; a number outside this range that fits an \<^verbatim>\<open>int\<close> ends the
  process, and the value of a larger one is undefined.
\<close>

theorem Config_port_line:
  assumes "length line = MAX_LINE_LENGTH" and "length name = MAX_TOKEN_NAME_LENGTH" and "length (decimal p) \<le> MAX_TOKEN_VALUE_LENGTH"
  shows "Config_new_from_file line name (Some (bytes_of ''port:'' @ decimal p)) =
    (if 2 ^ 31 \<le> p then Fault Int_Overflow
     else if 1 \<le> p \<and> p \<le> 65535 then Ret (blank_config\<lparr>port := Some (int p)\<rparr>)
     else Exit ''Given key name %s with value %s assign to config failed'')"
proof -
  have key: "plain (bytes_of ''port'')" "58 \<notin> set (bytes_of ''port'')" "length (bytes_of ''port'') = 4"
    "bytes_of ''port:'' = bytes_of ''port'' @ [58]"
    by (simp_all add: plain_def bytes_of_def isspace_def)
  have "assign_spec blank_config (bytes_of ''port'') (decimal p) =
      (if 2 ^ 31 \<le> p then Fault Int_Overflow
       else Ret (if 1 \<le> p \<and> p \<le> 65535 then (True, blank_config\<lparr>port := Some (int p)\<rparr>) else (False, blank_config)))"
    using assms(3) by (auto simp: assign_spec_def atoi_decimal)
  then show ?thesis
    using one_line_run [OF key(1) plain_decimal [of p] key(2) _ _ assms(1,2)] assms(3) key(3,4) by simp
qed

theorem Config_port_line_witness:
  "Config_new_from_file (replicate 32768 0) (replicate 8192 0) (Some (bytes_of ''port:'' @ decimal 8080)) =
     Ret (blank_config\<lparr>port := Some 8080\<rparr>)"
proof -
  have "length (decimal 8080) \<le> 24576" by (simp add: decimal_def r10.digits_unfold [of 8080] r10.digits_unfold)
  then show ?thesis
    using Config_port_line [of "replicate 32768 0" "replicate 8192 0" 8080] by simp
qed

text \<open>
  C27: A \<^verbatim>\<open>pem_file\<close> line copies its value to the member without a terminating NUL, so
  that the bytes after the value stay indeterminate; a value of more than 8192 bytes,
  which the test for 24576 lets through, is written past the member.
\<close>

theorem Config_pem_file_line:
  assumes "plain val" and "length val \<le> MAX_TOKEN_VALUE_LENGTH"
    and "length line = MAX_LINE_LENGTH" and "length name = MAX_TOKEN_NAME_LENGTH"
  shows "Config_new_from_file line name (Some (bytes_of ''pem_file:'' @ val)) =
    (if length val \<le> MAX_STRING
     then Ret (blank_config\<lparr>pem_file := map Some val @ replicate (MAX_STRING - length val) None\<rparr>)
     else Fault Out_Of_Bounds)"
proof -
  have key: "plain (bytes_of ''pem_file'')" "58 \<notin> set (bytes_of ''pem_file'')" "length (bytes_of ''pem_file'') = 8"
    "bytes_of ''pem_file:'' = bytes_of ''pem_file'' @ [58]"
    by (simp_all add: plain_def bytes_of_def isspace_def)
  have "assign_spec blank_config (bytes_of ''pem_file'') val =
      (if length val \<le> 8192
       then Ret (True, blank_config\<lparr>pem_file := map Some val @ replicate (8192 - length val) None\<rparr>)
       else Fault Out_Of_Bounds)"
    using assms(2) by (simp add: assign_spec_def bytes_of_def array_write_def splice_0 blank_config_def)
  then show ?thesis
    using one_line_run [OF key(1) assms(1) key(2) _ _ assms(3,4)] assms(2) key(3,4) by simp
qed

theorem Config_pem_file_line_witness:
  "Config_new_from_file (replicate 32768 0) (replicate 8192 0) (Some (bytes_of ''pem_file:'' @ replicate 8193 97)) =
     Fault Out_Of_Bounds"
  using Config_pem_file_line [of "replicate 8193 97" "replicate 32768 0" "replicate 8192 0"]
  by (simp add: plain_def isspace_def)

text \<open>
  C28: The name buffer has room for 8191 characters and a NUL, but a key of 8192
  characters passes the length test, and its NUL is written past the buffer.
\<close>

theorem Config_key_overflow:
  assumes "plain key" and "58 \<notin> set key" and "length key = MAX_TOKEN_NAME_LENGTH"
    and "length line = MAX_LINE_LENGTH" and "length name = MAX_TOKEN_NAME_LENGTH"
  shows "Config_new_from_file line name (Some key) = Fault Out_Of_Bounds"
proof -
  have k: "10 \<notin> set key" "0 \<notin> set key" using assms(1) by (auto simp: plain_def)
  have s: "strip key = key" using assms(1) by (auto simp: plain_def intro: strip_same)
  have d: "dropWhile (\<lambda>c. c = 58) key = key" using assms(1,2) by (cases key) (auto simp: plain_def)
  have w: "takeWhile (\<lambda>c. c \<noteq> 58) key = key" using assms(2) by (induction key) auto
  have "line_spec key blank_config = Fault Out_Of_Bounds"
    unfolding line_spec_def s d w Let_def using assms(1,3) by (simp add: plain_def)
  then show ?thesis
    using Config_file_run [OF assms(4,5) k(2)] lines_of_line(2) [OF k(1)] assms(3) by simp
qed

theorem Config_key_overflow_witness:
  "Config_new_from_file (replicate 32768 0) (replicate 8192 0) (Some (replicate 8192 97)) = Fault Out_Of_Bounds"
  using Config_key_overflow [of "replicate 8192 97" "replicate 32768 0" "replicate 8192 0"]
  by (simp add: plain_def isspace_def)

end
