(* ===== verification/Unity_Print.thy ===== *)
theory Unity_Print
  imports Radix C_Memory
begin

text \<open>
  The output side of the test framework, \<^verbatim>\<open>test-framework/unity.c\<close> as the makefile
  builds it: \<^verbatim>\<open>UNITY_SUPPORT_64\<close> and \<^verbatim>\<open>UNITY_OUTPUT_COLOR\<close> defined, an \<^verbatim>\<open>int\<close> of 32 and
  a \<^verbatim>\<open>long\<close> of 64 bits, \<^verbatim>\<open>char\<close> signed. The state is the global struct \<^verbatim>\<open>Unity\<close> and what
  has been written to the standard output. A \<^verbatim>\<open>const char *\<close> is \<open>None\<close> for NULL, or
  the bytes from the pointer to the end of the array it points into. The reference
  texts (\<open>decimal\<close>, \<open>hexadecimal\<close>, \<open>render\<close>) say what the printers write.
\<close>

section \<open>State and types\<close>

type_synonym cstring = "byte list option"

record UNITY_STORAGE_T =
  TestFile :: cstring
  CurrentTestName :: cstring
  CurrentDetail1 :: cstring
  CurrentDetail2 :: cstring
  CurrentTestLineNumber :: u64
  NumberOfTests :: u64
  TestFailures :: u64
  TestIgnores :: u64
  CurrentTestFailed :: u64
  CurrentTestIgnored :: u64

record unity = UNITY_STORAGE_T +
  stdout :: "byte list"

text \<open>The global \<^verbatim>\<open>Unity\<close> at program start.\<close>

definition Unity :: unity where
  "Unity = \<lparr>TestFile = None, CurrentTestName = None, CurrentDetail1 = None, CurrentDetail2 = None,
     CurrentTestLineNumber = 0, NumberOfTests = 0, TestFailures = 0, TestIgnores = 0,
     CurrentTestFailed = 0, CurrentTestIgnored = 0, stdout = []\<rparr>"

datatype UNITY_DISPLAY_STYLE_T =
    UNITY_DISPLAY_STYLE_INT | UNITY_DISPLAY_STYLE_INT8 | UNITY_DISPLAY_STYLE_INT16
  | UNITY_DISPLAY_STYLE_INT32 | UNITY_DISPLAY_STYLE_INT64
  | UNITY_DISPLAY_STYLE_UINT | UNITY_DISPLAY_STYLE_UINT8 | UNITY_DISPLAY_STYLE_UINT16
  | UNITY_DISPLAY_STYLE_UINT32 | UNITY_DISPLAY_STYLE_UINT64
  | UNITY_DISPLAY_STYLE_HEX8 | UNITY_DISPLAY_STYLE_HEX16
  | UNITY_DISPLAY_STYLE_HEX32 | UNITY_DISPLAY_STYLE_HEX64
  | UNITY_DISPLAY_STYLE_CHAR | UNITY_DISPLAY_STYLE_UNKNOWN

abbreviation (input) UNITY_INT_WIDTH :: nat where "UNITY_INT_WIDTH \<equiv> 32"
abbreviation (input) UNITY_MAX_NIBBLES :: u32 where "UNITY_MAX_NIBBLES \<equiv> 16"
abbreviation (input) UNITY_DISPLAY_RANGE_INT :: u32 where "UNITY_DISPLAY_RANGE_INT \<equiv> 0x10"
abbreviation (input) UNITY_DISPLAY_RANGE_UINT :: u32 where "UNITY_DISPLAY_RANGE_UINT \<equiv> 0x20"
abbreviation (input) UNITY_DISPLAY_RANGE_HEX :: u32 where "UNITY_DISPLAY_RANGE_HEX \<equiv> 0x40"
abbreviation (input) UNITY_DISPLAY_RANGE_CHAR :: u32 where "UNITY_DISPLAY_RANGE_CHAR \<equiv> 0x80"

text \<open>The values of the enumeration.\<close>

fun style_value :: "UNITY_DISPLAY_STYLE_T \<Rightarrow> u32" where
  "style_value UNITY_DISPLAY_STYLE_INT = 4 + UNITY_DISPLAY_RANGE_INT"
| "style_value UNITY_DISPLAY_STYLE_INT8 = 1 + UNITY_DISPLAY_RANGE_INT"
| "style_value UNITY_DISPLAY_STYLE_INT16 = 2 + UNITY_DISPLAY_RANGE_INT"
| "style_value UNITY_DISPLAY_STYLE_INT32 = 4 + UNITY_DISPLAY_RANGE_INT"
| "style_value UNITY_DISPLAY_STYLE_INT64 = 8 + UNITY_DISPLAY_RANGE_INT"
| "style_value UNITY_DISPLAY_STYLE_UINT = 4 + UNITY_DISPLAY_RANGE_UINT"
| "style_value UNITY_DISPLAY_STYLE_UINT8 = 1 + UNITY_DISPLAY_RANGE_UINT"
| "style_value UNITY_DISPLAY_STYLE_UINT16 = 2 + UNITY_DISPLAY_RANGE_UINT"
| "style_value UNITY_DISPLAY_STYLE_UINT32 = 4 + UNITY_DISPLAY_RANGE_UINT"
| "style_value UNITY_DISPLAY_STYLE_UINT64 = 8 + UNITY_DISPLAY_RANGE_UINT"
| "style_value UNITY_DISPLAY_STYLE_HEX8 = 1 + UNITY_DISPLAY_RANGE_HEX"
| "style_value UNITY_DISPLAY_STYLE_HEX16 = 2 + UNITY_DISPLAY_RANGE_HEX"
| "style_value UNITY_DISPLAY_STYLE_HEX32 = 4 + UNITY_DISPLAY_RANGE_HEX"
| "style_value UNITY_DISPLAY_STYLE_HEX64 = 8 + UNITY_DISPLAY_RANGE_HEX"
| "style_value UNITY_DISPLAY_STYLE_CHAR = 1 + UNITY_DISPLAY_RANGE_CHAR + UNITY_DISPLAY_RANGE_INT"
| "style_value UNITY_DISPLAY_STYLE_UNKNOWN = 2 + UNITY_DISPLAY_RANGE_CHAR + UNITY_DISPLAY_RANGE_INT"

section \<open>Characters\<close>

definition put_char :: "byte \<Rightarrow> (unit, unity) prog" where
  "put_char c u = Ret ((), u\<lparr>stdout := stdout u @ [c]\<rparr>)"

text \<open>Statements one after the other.\<close>

fun do_all :: "(unit, 's) prog list \<Rightarrow> (unit, 's) prog" where
  "do_all [] = ret ()"
| "do_all (p # ps) = bind p (\<lambda>_. do_all ps)"

section \<open>Numbers\<close>

text \<open>The loop of \<^verbatim>\<open>UnityPrintNumberHex\<close>; the argument counts the nibbles left.\<close>

fun hex_loop :: "u64 \<Rightarrow> nat \<Rightarrow> (unit, unity) prog" where
  "hex_loop number 0 = ret ()"
| "hex_loop number (Suc nibbles) =
     (let nibble = (ucast (drop_bit (nibbles * 4) number) :: u32) AND 0x0F
      in bind (put_char (if nibble \<le> 9 then ucast (48 + nibble) else ucast (65 - 10 + nibble)))
           (\<lambda>_. hex_loop number nibbles))"

definition UnityPrintNumberHex :: "u64 \<Rightarrow> byte \<Rightarrow> (unit, unity) prog" where
  "UnityPrintNumberHex number nibbles_to_print =
     (let nibbles = (if (scast nibbles_to_print :: u32) > UNITY_MAX_NIBBLES then 16 else nibbles_to_print)
      in hex_loop number (nat (sint nibbles)))"

text \<open>The two loops of \<^verbatim>\<open>UnityPrintNumberUnsigned\<close>.\<close>

function first_divisor :: "u64 \<Rightarrow> u64 \<Rightarrow> u64" where
  "first_divisor number divisor =
     (if number div divisor > 9 then first_divisor number (divisor * 10) else divisor)"
  by pat_completeness auto

lemma divisor_step:
  fixes number divisor :: u64
  assumes "number div divisor > 9"
  shows "unat (divisor * 10) = unat divisor * 10" and "unat divisor * 10 \<le> unat number" and "0 < unat divisor"
proof -
  have q: "9 < unat number div unat divisor" using assms by (simp add: word_less_nat_alt unat_div_distrib)
  then show pos: "0 < unat divisor" by (metis div_by_0 gr0I less_zeroE)
  have "10 \<le> unat number div unat divisor" using q by simp
  then show le: "unat divisor * 10 \<le> unat number" using pos by (simp add: less_eq_div_iff_mult_less_eq mult.commute)
  show "unat (divisor * 10) = unat divisor * 10"
    using le_less_trans [OF le unat_u64_less] by (simp add: unat_word_ariths)
qed

termination first_divisor
proof (relation "measure (\<lambda>(number, divisor). unat number - unat divisor)")
  show "((number, divisor * 10), number, divisor) \<in> measure (\<lambda>(number, divisor). unat number - unat divisor)"
    if "9 < number div divisor" for number divisor :: u64
    using divisor_step [OF that] by (simp; linarith)
qed simp

function digits_loop :: "u64 \<Rightarrow> u64 \<Rightarrow> (unit, unity) prog" where
  "digits_loop number divisor =
     bind (put_char (ucast (48 + number div divisor mod 10)))
       (\<lambda>_. if divisor div 10 > 0 then digits_loop number (divisor div 10) else ret ())"
  by pat_completeness auto

termination
proof (relation "measure (\<lambda>(number, divisor). unat divisor)")
  show "((number, divisor div 10), number, divisor) \<in> measure (\<lambda>(number, divisor). unat divisor)"
    if "0 < divisor div 10" for number divisor :: u64
    using that by (auto simp: word_less_nat_alt unat_div_distrib)
qed simp

declare first_divisor.simps [simp del] digits_loop.simps [simp del]

definition UnityPrintNumberUnsigned :: "u64 \<Rightarrow> (unit, unity) prog" where
  "UnityPrintNumberUnsigned number = digits_loop number (first_divisor number 1)"

definition UnityPrintNumber :: "u64 \<Rightarrow> (unit, unity) prog" where
  "UnityPrintNumber number_to_print =
     (if sint number_to_print < 0
      then bind (put_char 45) (\<lambda>_. UnityPrintNumberUnsigned (NOT number_to_print + 1))
      else UnityPrintNumberUnsigned number_to_print)"

definition UnityPrintNumberByStyle :: "u64 \<Rightarrow> UNITY_DISPLAY_STYLE_T \<Rightarrow> (unit, unity) prog" where
  "UnityPrintNumberByStyle number style =
     (if style_value style AND UNITY_DISPLAY_RANGE_INT = UNITY_DISPLAY_RANGE_INT then
        (if style_value style = style_value UNITY_DISPLAY_STYLE_CHAR then
           do_all
             [put_char 39,
              if sint number \<le> 126 \<and> sint number \<ge> 32 then put_char (ucast number)
              else if sint number = 13 then do_all [put_char 92, put_char 114]
              else if sint number = 10 then do_all [put_char 92, put_char 110]
              else do_all [put_char 92, put_char 120, UnityPrintNumberHex number 2],
              put_char 39]
         else UnityPrintNumber number)
      else if style_value style AND UNITY_DISPLAY_RANGE_UINT = UNITY_DISPLAY_RANGE_UINT then
        UnityPrintNumberUnsigned number
      else
        do_all [put_char 48, put_char 120,
          UnityPrintNumberHex number (ucast ((style_value style AND 0xF) * 2))])"

fun mask_loop :: "u64 \<Rightarrow> u64 \<Rightarrow> u64 \<Rightarrow> nat \<Rightarrow> (unit, unity) prog" where
  "mask_loop bits number current_bit 0 = ret ()"
| "mask_loop bits number current_bit (Suc n) =
     bind (put_char (if current_bit AND bits \<noteq> 0 then if current_bit AND number \<noteq> 0 then 49 else 48 else 88))
       (\<lambda>_. mask_loop bits number (drop_bit 1 current_bit) n)"

definition UnityPrintMask :: "u64 \<Rightarrow> u64 \<Rightarrow> (unit, unity) prog" where
  "UnityPrintMask bits number = mask_loop bits number (push_bit (UNITY_INT_WIDTH - 1) 1) UNITY_INT_WIDTH"

section \<open>Strings\<close>

definition UnityPrintChar :: "byte \<Rightarrow> (unit, unity) prog" where
  "UnityPrintChar pch =
     (if sint pch \<le> 126 \<and> sint pch \<ge> 32 then put_char pch
      else if pch = 13 then do_all [put_char 92, put_char 114]
      else if pch = 10 then do_all [put_char 92, put_char 110]
      else do_all [put_char 92, put_char 120, UnityPrintNumberHex (scast pch) 2])"

fun ansi_loop :: "byte list \<Rightarrow> nat \<Rightarrow> (nat, unity) prog" where
  "ansi_loop [] count = fault Out_Of_Bounds"
| "ansi_loop (c # cs) count =
     (if c \<noteq> 0 \<and> c \<noteq> 109 then bind (put_char c) (\<lambda>_. ansi_loop cs (Suc count)) else ret count)"

definition UnityPrintAnsiEscapeString :: "byte list \<Rightarrow> (nat, unity) prog" where
  "UnityPrintAnsiEscapeString string =
     bind (ansi_loop string 0) (\<lambda>count. bind (put_char 109) (\<lambda>_. ret (Suc count)))"

lemma ansi_count: "UnityPrintAnsiEscapeString s u = Ret (count, u') \<Longrightarrow> 0 < count"
  by (auto simp: UnityPrintAnsiEscapeString_def prog_simps bind_o_eq_Ret put_char_def)

text \<open>The loop of \<^verbatim>\<open>UnityPrint\<close> on the bytes from \<^verbatim>\<open>pch\<close> on.\<close>

function print_loop :: "byte list \<Rightarrow> (unit, unity) prog" where
  "print_loop s u =
     (case s of
        [] \<Rightarrow> Fault Out_Of_Bounds
      | c # cs \<Rightarrow>
          if c = 0 then Ret ((), u)
          else
            bind_o (if c = 27 then bind_o (array_read cs 0) (\<lambda>d. Ret (d = 91)) else Ret False) (\<lambda>esc.
              if esc then bind_o (UnityPrintAnsiEscapeString s u) (\<lambda>(count, u'). print_loop (drop count s) u')
              else bind_o (UnityPrintChar c u) (\<lambda>(_, u'). print_loop cs u')))"
  by pat_completeness auto

termination
  by (relation "measure (\<lambda>(s, u). length s)") (auto dest: ansi_count)

declare print_loop.simps [simp del]

definition UnityPrint :: "cstring \<Rightarrow> (unit, unity) prog" where
  "UnityPrint string = (case string of None \<Rightarrow> ret () | Some s \<Rightarrow> print_loop s)"

text \<open>The loop of \<^verbatim>\<open>UnityPrintLen\<close>; \<open>k\<close> is \<^verbatim>\<open>pch - string\<close>.\<close>

fun print_len_loop :: "u32 \<Rightarrow> byte list \<Rightarrow> nat \<Rightarrow> (unit, unity) prog" where
  "print_len_loop len [] k = fault Out_Of_Bounds"
| "print_len_loop len (c # cs) k =
     (if c \<noteq> 0 \<and> (of_nat k :: u32) < len then
        bind
          (if sint c \<le> 126 \<and> sint c \<ge> 32 then put_char c
           else if c = 13 then do_all [put_char 92, put_char 114]
           else if c = 10 then do_all [put_char 92, put_char 110]
           else do_all [put_char 92, put_char 120, UnityPrintNumberHex (scast c) 2])
          (\<lambda>_. print_len_loop len cs (Suc k))
      else ret ())"

definition UnityPrintLen :: "cstring \<Rightarrow> u32 \<Rightarrow> (unit, unity) prog" where
  "UnityPrintLen string len = (case string of None \<Rightarrow> ret () | Some s \<Rightarrow> print_len_loop len s 0)"

end
