(* ===== verification/Unity_Text.thy ===== *)
theory Unity_Text
  imports Unity_Print
begin

text \<open>
  What the printers of the test framework write. Every printer is shown to return and
  to append a reference text to the standard output: decimal and hexadecimal numerals,
  the escaped characters of a string, the bits of a mask. The fact collection
  \<open>unity_simps\<close> holds these effects for the proofs on the assertions.
\<close>

section \<open>What the printers write\<close>

named_theorems unity_simps \<open>effects of the framework's functions on a state\<close>

text \<open>The state after writing a text.\<close>

definition emit :: "byte list \<Rightarrow> unity \<Rightarrow> unity" where
  "emit t u = u\<lparr>stdout := stdout u @ t\<rparr>"

lemma emit_Nil [simp]: "emit [] u = u" and emit_emit [simp]: "emit t (emit s u) = emit (s @ t) u"
  by (simp_all add: emit_def)

lemma emit_fields [simp]:
  "TestFile (emit t u) = TestFile u" "CurrentTestName (emit t u) = CurrentTestName u"
  "CurrentDetail1 (emit t u) = CurrentDetail1 u" "CurrentDetail2 (emit t u) = CurrentDetail2 u"
  "CurrentTestLineNumber (emit t u) = CurrentTestLineNumber u"
  "NumberOfTests (emit t u) = NumberOfTests u" "TestFailures (emit t u) = TestFailures u"
  "TestIgnores (emit t u) = TestIgnores u" "CurrentTestFailed (emit t u) = CurrentTestFailed u"
  "CurrentTestIgnored (emit t u) = CurrentTestIgnored u" "stdout (emit t u) = stdout u @ t"
  by (simp_all add: emit_def)

lemma put_char_run [unity_simps]: "put_char c u = Ret ((), emit [c] u)"
  by (simp add: put_char_def emit_def)

lemma do_all_run [unity_simps]:
  "do_all [] u = Ret ((), u)" "do_all (p # ps) u = bind_o (p u) (\<lambda>(_, u'). do_all ps u')"
  by (simp_all add: prog_simps)

text \<open>Hexadecimal digits.\<close>

definition hex_char :: "nat \<Rightarrow> byte" where
  "hex_char d = of_nat (if d \<le> 9 then 48 + d else 55 + d)"

definition hexadecimal :: "nat \<Rightarrow> nat \<Rightarrow> byte list" where
  "hexadecimal k n = map hex_char (radix_fixed 16 k n)"

lemma radix_fixed_Cons: "radix_fixed b (Suc k) n = (n div b ^ k mod b) # radix_fixed b k n"
proof (induction k arbitrary: n)
  case (Suc k)
  have "radix_fixed b (Suc (Suc k)) n = radix_fixed b (Suc k) (n div b) @ [n mod b]" by simp
  also have "\<dots> = (n div b div b ^ k mod b) # radix_fixed b k (n div b) @ [n mod b]" by (simp only: Suc.IH append_Cons)
  also have "\<dots> = (n div b ^ Suc k mod b) # radix_fixed b (Suc k) n" by (simp add: div_mult2_eq)
  finally show ?case .
qed simp

lemma nibble_char:
  fixes number :: u64 and k :: nat
  defines "nibble \<equiv> (ucast (drop_bit (k * 4) number) :: u32) AND 0x0F"
  shows "(if nibble \<le> 9 then ucast (48 + nibble) else ucast (65 - 10 + nibble)) =
    hex_char (unat number div 16 ^ k mod 16)"
proof -
  let ?d = "unat number div 16 ^ k mod 16"
  have m: "(0x0F :: u32) = mask 4" by (simp add: mask_eq_exp_minus_1)
  have n: "unat nibble = ?d"
    unfolding nibble_def m take_bit_eq_mask [symmetric]
    by (simp only: unsigned_take_bit_eq unsigned_ucast_eq unsigned_drop_bit_eq)
      (simp add: take_bit_eq_mod drop_bit_eq_div power_mult mult.commute [of k] mod_mod_cancel)
  have d: "?d < 16" by simp
  have "nibble \<le> 9 \<longleftrightarrow> ?d \<le> 9" using n by (simp add: word_le_nat_alt)
  moreover have "ucast (48 + nibble) = (of_nat (48 + ?d) :: byte)" "ucast (65 - 10 + nibble) = (of_nat (55 + ?d) :: byte)"
    using n d by (simp_all add: word_unat_eq_iff unat_word_ariths unsigned_ucast_eq take_bit_eq_mod unat_of_nat del: of_nat_add of_nat_mod)
  ultimately show ?thesis by (simp add: hex_char_def del: of_nat_add of_nat_mod)
qed

lemma hex_loop_run: "hex_loop number k u = Ret ((), emit (hexadecimal k (unat number)) u)"
proof (induction k arbitrary: u)
  case (Suc k)
  then show ?case
    by (simp only: hex_loop.simps Let_def nibble_char hexadecimal_def radix_fixed_Cons list.map prog_simps
        unity_simps bind_o_simps case_prod_conv emit_emit append_Cons append_Nil)
qed (simp add: prog_simps hexadecimal_def)

lemma hex_nibbles:
  assumes "k \<le> 16"
  shows "UnityPrintNumberHex number (of_nat k) u = Ret ((), emit (hexadecimal k (unat number)) u)"
proof -
  have "sint (of_nat k :: byte) = int k"
    using assms by (simp add: signed_of_nat signed_take_bit_int_eq_self)
  moreover have "unat (scast (of_nat k :: byte) :: u32) = k"
    using assms by (simp add: signed_of_nat signed_take_bit_int_eq_self unat_of_nat)
  ultimately have "sint (of_nat k :: byte) = int k" "\<not> (scast (of_nat k :: byte) :: u32) > 16" using assms unfolding word_less_nat_alt by simp_all
  then show ?thesis by (simp add: UnityPrintNumberHex_def hex_loop_run)
qed


text \<open>Decimal digits.\<close>

lemma first_divisor_power:
  "unat divisor = 10 ^ k \<Longrightarrow> k = 0 \<or> 10 ^ k \<le> unat number \<Longrightarrow>
   \<exists>j. unat (first_divisor number divisor) = 10 ^ j \<and> unat number < 10 ^ Suc j \<and> (j = 0 \<or> 10 ^ j \<le> unat number)"
proof (induction number divisor arbitrary: k rule: first_divisor.induct)
  case (1 number divisor)
  show ?case
  proof (cases "number div divisor > 9")
    case True
    have "unat (divisor * 10) = 10 ^ Suc k" "10 ^ Suc k \<le> unat number"
      using divisor_step [OF True] "1.prems"(1) by (simp_all add: mult.commute)
    then show ?thesis using "1.IH" [OF True, of "Suc k"] True by (subst first_divisor.simps) simp
  next
    case False
    then have "unat number div 10 ^ k < 10" using "1.prems"(1) by (simp add: word_less_nat_alt unat_div_distrib)
    then have "unat number < 10 ^ Suc k" by (simp add: div_less_iff_less_mult mult.commute)
    then show ?thesis using False "1.prems" by (subst first_divisor.simps) auto
  qed
qed

lemma digit_byte:
  assumes "unat divisor = 10 ^ j"
  shows "ucast (48 + number div divisor mod 10 :: u64) = digit_char (unat number div 10 ^ j mod 10)"
proof -
  have "unat (number div divisor mod 10) = unat number div 10 ^ j mod 10"
    using assms by (simp add: unat_div_distrib unat_mod_distrib)
  then show ?thesis
    by (simp add: word_unat_eq_iff digit_char_def unsigned_ucast_eq unat_word_ariths take_bit_eq_mod unat_of_nat
        del: of_nat_add of_nat_mod)
qed

lemma digits_loop_run:
  "unat divisor = 10 ^ j \<Longrightarrow>
   digits_loop number divisor u = Ret ((), emit (map digit_char (radix_fixed 10 (Suc j) (unat number))) u)"
proof (induction j arbitrary: divisor u)
  case 0
  then have "divisor = 1" by (simp add: word_unat_eq_iff)
  then show ?case
    using digit_byte [OF 0]
    by (subst digits_loop.simps) (simp add: prog_simps unity_simps word_less_nat_alt unat_div_distrib)
next
  case (Suc j)
  have d: "unat (divisor div 10) = 10 ^ j" using Suc.prems by (simp add: unat_div_distrib)
  then have "0 < divisor div 10" by (simp add: word_less_nat_alt)
  then show ?case
    using digit_byte [OF Suc.prems, of number] Suc.IH [OF d]
    by (subst digits_loop.simps)
      (simp add: prog_simps unity_simps radix_fixed_Cons [of _ "Suc j"] del: radix_fixed.simps)
qed

lemma decimal_fixed:
  assumes "n < 10 ^ Suc j" and "j = 0 \<or> 10 ^ j \<le> n"
  shows "map digit_char (radix_fixed 10 (Suc j) n) = decimal n"
proof (cases "n = 0")
  case True
  then show ?thesis using assms(2) by (simp add: decimal_def digit_char_def)
next
  case False
  let ?ds = "radix_fixed 10 (Suc j) n"
  have "0 < n div 10 ^ j" using assms(2) False by (auto simp: div_greater_zero_iff)
  moreover have "n div 10 ^ j < 10" using assms(1) by (simp add: div_less_iff_less_mult mult.commute)
  ultimately have "hd ?ds \<noteq> 0" by (simp add: radix_fixed_Cons del: radix_fixed.simps)
  moreover have "radix_val 10 ?ds = n" using assms(1) r10.fixed_val [of "Suc j" n] by simp
  ultimately have "radix_digits 10 n = ?ds"
    using r10.digits_of_val [of ?ds] by simp
  with False show ?thesis by (simp add: decimal_def)
qed

lemma UnityPrintNumberUnsigned_run [unity_simps]:
  "UnityPrintNumberUnsigned number u = Ret ((), emit (decimal (unat number)) u)"
proof -
  obtain j where "unat (first_divisor number 1) = 10 ^ j" "unat number < 10 ^ Suc j" "j = 0 \<or> 10 ^ j \<le> unat number"
    using first_divisor_power [of 1 0 number] by auto
  then show ?thesis
    unfolding UnityPrintNumberUnsigned_def by (simp only: digits_loop_run decimal_fixed)
qed

definition signed_decimal :: "int \<Rightarrow> byte list" where
  "signed_decimal i = (if i < 0 then 45 # decimal (nat (- i)) else decimal (nat i))"

lemma unat_negate:
  fixes number :: u64
  shows "sint number < 0 \<Longrightarrow> unat (NOT number + 1) = nat (- sint number)"
    and "0 \<le> sint number \<Longrightarrow> unat number = nat (sint number)"
proof -
  have l: "uint number < 18446744073709551616" "0 \<le> uint number" using uint_lt2p [of number] by simp_all
  have m: "NOT number + 1 = - number" by (simp add: minus_eq_not_plus_1)
  assume n: "sint number < 0"
  then have "uint number \<noteq> 0" by (auto simp: sint_cases)
  then have "uint (- number) = 18446744073709551616 - uint number" using l by (simp add: uint_word_ariths zmod_zminus1_eq_if)
  moreover have "sint number = uint number - 18446744073709551616" using sint_cases [of number] n l by (simp split: if_splits)
  ultimately show "unat (NOT number + 1) = nat (- sint number)" unfolding m by (simp only: unat_eq_nat_uint minus_diff_eq)
next
  assume "0 \<le> sint number"
  then show "unat number = nat (sint number)" using uint_lt2p [of number] sint_cases [of number] by (simp only: unat_eq_nat_uint) (simp split: if_splits)
qed

lemma UnityPrintNumber_run [unity_simps]:
  "UnityPrintNumber number u = Ret ((), emit (signed_decimal (sint number)) u)"
  by (simp add: UnityPrintNumber_def signed_decimal_def prog_simps unity_simps unat_negate)

text \<open>Characters.\<close>

definition shown :: "byte \<Rightarrow> byte list" where
  "shown c =
     (if 32 \<le> c \<and> c \<le> 126 then [c] else if c = 13 then [92, 114] else if c = 10 then [92, 110]
      else [92, 120] @ hexadecimal 2 (unat c))"

lemma radix_fixed_mod: "radix_fixed b k (n mod b ^ k) = radix_fixed b k n"
proof (induction k arbitrary: n)
  case (Suc k)
  have "n mod b ^ Suc k div b = n div b mod b ^ k" by (cases "b = 0") (simp_all add: mod_mult2_eq)
  moreover have "n mod b ^ Suc k mod b = n mod b" by (simp add: mod_mod_cancel)
  ultimately show ?case using Suc.IH [of "n div b"] by simp
qed simp

lemma hexadecimal_mod: "n mod 16 ^ k = m mod 16 ^ k \<Longrightarrow> hexadecimal k n = hexadecimal k m"
  unfolding hexadecimal_def by (metis radix_fixed_mod)

lemma char_range: "sint c \<le> 126 \<and> sint c \<ge> 32 \<longleftrightarrow> 32 \<le> c \<and> c \<le> 126" for c :: byte
  using uint_lt2p [of c] by (auto simp: sint_byte word_le_def)

lemma unat_scast_byte: "unat (scast c :: u64) mod 256 = unat c" for c :: byte
proof -
  have "uint (scast c :: u64) mod 256 = sint c mod 18446744073709551616 mod 256"
    by (subst of_int_sint [symmetric]) (simp only: unsigned_of_int take_bit_eq_mod, simp)
  also have "\<dots> = uint c" using uint_lt2p [of c] by (simp add: mod_mod_cancel sint_byte)
  finally show ?thesis by (simp flip: of_nat_eq_iff [where 'a = int] add: zmod_int)
qed

lemma UnityPrintChar_run [unity_simps]: "UnityPrintChar c u = Ret ((), emit (shown c) u)"
proof -
  have "hexadecimal 2 (unat (scast c :: u64)) = hexadecimal 2 (unat c)"
    by (rule hexadecimal_mod) (simp add: unat_scast_byte)
  then show ?thesis
    using hex_nibbles [of 2 "scast c"]
    by (simp add: UnityPrintChar_def char_range shown_def unity_simps del: do_all.simps)
qed

text \<open>
  The text of a NUL-terminated string: characters as \<open>shown\<close>, escape sequences from
  \<^verbatim>\<open>ESC [\<close> to the next \<^verbatim>\<open>m\<close> as they are. A sequence without an \<^verbatim>\<open>m\<close> has no text.
\<close>

function render :: "byte list \<Rightarrow> byte list option" where
  "render s =
     (case s of
        [] \<Rightarrow> None
      | c # cs \<Rightarrow>
          if c = 0 then Some []
          else if c = 27 \<and> take 1 cs = [91] then
            (if 109 \<in> set (c_str cs)
             then map_option (append (takeWhile (\<lambda>d. d \<noteq> 109) s @ [109])) (render (tl (dropWhile (\<lambda>d. d \<noteq> 109) s)))
             else None)
          else if c = 27 \<and> cs = [] then None
          else map_option (append (shown c)) (render cs))"
  by pat_completeness auto

termination
proof (relation "measure length")
  show "(tl (dropWhile (\<lambda>d. d \<noteq> 109) s), s) \<in> measure length"
    if "s = c # cs" for s c and cs :: "byte list"
    using that length_dropWhile_le [of "\<lambda>d. d \<noteq> 109" s] by (auto simp: less_Suc_eq_le)
qed auto

declare render.simps [simp del]

lemma render_Cons: "render (c # cs) =
   (if c = 0 then Some []
    else if c = 27 \<and> take 1 cs = [91] then
      (if 109 \<in> set (c_str cs)
       then map_option (append (takeWhile (\<lambda>d. d \<noteq> 109) (c # cs) @ [109]))
         (render (tl (dropWhile (\<lambda>d. d \<noteq> 109) (c # cs))))
       else None)
    else if c = 27 \<and> cs = [] then None
    else map_option (append (shown c)) (render cs))"
  by (subst render.simps) simp

lemmas print_loop_Cons = print_loop.simps [of "c # cs" for c cs, simplified]

lemma ansi_loop_run:
  "109 \<in> set (c_str s) \<Longrightarrow> ansi_loop s k u =
     Ret (k + length (takeWhile (\<lambda>d. d \<noteq> 109) s), emit (takeWhile (\<lambda>d. d \<noteq> 109) s) u)"
  by (induction s arbitrary: k u) (auto simp: prog_simps unity_simps split: if_splits)

lemma print_loop_run: "render s = Some t \<Longrightarrow> print_loop s u = Ret ((), emit t u)"
proof (induction s arbitrary: t u rule: render.induct)
  case (1 s)
  show ?case
  proof (cases s)
    case Nil
    then show ?thesis using "1.prems" by (simp add: render.simps)
  next
    case s: (Cons c cs)
    consider "c = 0" | (esc) "c = 27" "take 1 cs = [91]" | (char) "c \<noteq> 0" "\<not> (c = 27 \<and> take 1 cs = [91])" by blast
    then show ?thesis
    proof cases
      case 1
      then show ?thesis using "1.prems" s by (simp add: render.simps print_loop.simps)
    next
      case esc
      let ?w = "takeWhile (\<lambda>d. d \<noteq> 109) s" and ?r = "tl (dropWhile (\<lambda>d. d \<noteq> 109) s)"
      have m: "109 \<in> set (c_str cs)" using "1.prems" s esc by (simp add: render_Cons split: if_splits)
      then obtain t' where t': "render ?r = Some t'" "t = ?w @ [109] @ t'"
        using "1.prems" s esc by (auto simp: render_Cons)
      have "drop (Suc (length ?w)) s = ?r" by (simp add: dropWhile_eq_drop drop_Suc tl_drop)
      moreover have "print_loop ?r u' = Ret ((), emit t' u')" for u'
        using "1.IH"(1) [OF s _ _ m t'(1)] esc by simp
      ultimately show ?thesis
        using s esc m t'(2) ansi_loop_run [of s 0]
        by (cases cs) (simp_all add: print_loop_Cons UnityPrintAnsiEscapeString_def prog_simps unity_simps)
    next
      case char
      have ne: "\<not> (c = 27 \<and> cs = [])" using "1.prems" s char by (auto simp: render_Cons)
      then obtain t' where t': "render cs = Some t'" "t = shown c @ t'"
        using "1.prems" s char by (auto simp: render_Cons)
      have "print_loop cs u' = Ret ((), emit t' u')" for u'
        using "1.IH"(2) [OF s _ _ ne t'(1)] char by simp
      then show ?thesis
        using s char ne t'(2) by (cases cs) (auto simp: print_loop_Cons unity_simps)
    qed
  qed
qed

definition printable :: "cstring \<Rightarrow> bool" where
  "printable p \<longleftrightarrow> (case p of None \<Rightarrow> True | Some s \<Rightarrow> render s \<noteq> None)"

definition text_of :: "cstring \<Rightarrow> byte list" where
  "text_of p = (case p of None \<Rightarrow> [] | Some s \<Rightarrow> the (render s))"

lemma UnityPrint_run [unity_simps]: "printable p \<Longrightarrow> UnityPrint p u = Ret ((), emit (text_of p) u)"
  by (auto simp: printable_def text_of_def UnityPrint_def prog_simps print_loop_run split: option.splits)

lemma render_plain: "terminated s \<Longrightarrow> 27 \<notin> set (c_str s) \<Longrightarrow> render s = Some (concat (map shown (c_str s)))"
  by (induction s) (auto simp: terminated_def render_Cons)

lemma print_len_loop_run:
  assumes "k \<le> unat len"
  shows "print_len_loop len s k u =
    (if terminated s \<or> unat len - k < length s
     then Ret ((), emit (concat (map shown (c_str (take (unat len - k) s)))) u)
     else Fault Out_Of_Bounds)"
  using assms
proof (induction s arbitrary: k u)
  case Nil
  then show ?case by (simp add: prog_simps terminated_def)
next
  case (Cons c cs)
  have k: "unat (of_nat k :: u32) = k" using Cons.prems unat_u32_less [of len] by (intro unat_of_nat_u32) linarith
  then have lt: "(of_nat k :: u32) < len \<longleftrightarrow> k < unat len" by (simp add: word_less_nat_alt)
  show ?case
  proof (cases "c \<noteq> 0 \<and> k < unat len")
    case True
    moreover have "unat len - k = Suc (unat len - Suc k)" using True by (simp add: Suc_diff_Suc)
    moreover have "print_len_loop len (c # cs) k u = bind (UnityPrintChar c) (\<lambda>_. print_len_loop len cs (Suc k)) u"
      using True lt by (simp add: UnityPrintChar_def)
    ultimately show ?thesis
      using Cons.IH [of "Suc k"] by (simp add: prog_simps unity_simps terminated_def)
  next
    case False
    then consider "c = 0" | "c \<noteq> 0" "unat len - k = 0" by fastforce
    then show ?thesis using False lt by cases (simp_all add: prog_simps terminated_def take_Cons')
  qed
qed

lemma UnityPrintLen_run:
  "UnityPrintLen (Some s) len u =
    (if terminated s \<or> unat len < length s
     then Ret ((), emit (concat (map shown (c_str (take (unat len) s)))) u)
     else Fault Out_Of_Bounds)"
  using print_len_loop_run [of 0 len s u] by (simp add: UnityPrintLen_def)

text \<open>Numbers in a display style.\<close>

definition style_bytes :: "UNITY_DISPLAY_STYLE_T \<Rightarrow> nat" where
  "style_bytes style = unat (style_value style AND 0xF)"

definition is_int :: "UNITY_DISPLAY_STYLE_T \<Rightarrow> bool" where
  "is_int style \<longleftrightarrow> style_value style AND UNITY_DISPLAY_RANGE_INT = UNITY_DISPLAY_RANGE_INT"

definition is_uint :: "UNITY_DISPLAY_STYLE_T \<Rightarrow> bool" where
  "is_uint style \<longleftrightarrow> style_value style AND UNITY_DISPLAY_RANGE_UINT = UNITY_DISPLAY_RANGE_UINT"

definition char_text :: "u64 \<Rightarrow> byte list" where
  "char_text number =
     (if sint number \<le> 126 \<and> sint number \<ge> 32 then [ucast number]
      else if sint number = 13 then [92, 114] else if sint number = 10 then [92, 110]
      else [92, 120] @ hexadecimal 2 (unat number))"

definition number_text :: "u64 \<Rightarrow> UNITY_DISPLAY_STYLE_T \<Rightarrow> byte list" where
  "number_text number style =
     (if is_int style then
        if style = UNITY_DISPLAY_STYLE_CHAR then [39] @ char_text number @ [39]
        else signed_decimal (sint number)
      else if is_uint style then decimal (unat number)
      else [48, 120] @ hexadecimal (2 * style_bytes style) (unat number))"

lemma style_bytes_cases: "style_bytes style \<in> {1, 2, 4, 8}"
  by (cases style) (simp_all add: style_bytes_def)

lemma style_char_iff: "style_value style = style_value UNITY_DISPLAY_STYLE_CHAR \<longleftrightarrow> style = UNITY_DISPLAY_STYLE_CHAR"
  by (cases style) simp_all

lemma UnityPrintNumberByStyle_run [unity_simps]:
  "UnityPrintNumberByStyle number style u = Ret ((), emit (number_text number style) u)"
proof -
  have "(ucast ((style_value style AND 0xF) * 2) :: byte) = of_nat (2 * style_bytes style)" and "2 * style_bytes style \<le> 16"
    by (cases style; simp add: style_bytes_def)+
  then have hex: "UnityPrintNumberHex number (ucast ((style_value style AND 0xF) * 2)) u =
      Ret ((), emit (hexadecimal (2 * style_bytes style) (unat number)) u)" for u
    by (simp only: hex_nibbles)
  show ?thesis
    unfolding UnityPrintNumberByStyle_def style_char_iff number_text_def is_int_def [symmetric] is_uint_def [symmetric] char_text_def
    using hex_nibbles [of 2 number] by (simp add: unity_simps hex del: do_all.simps)
qed

text \<open>Masked bits, from bit 31 down.\<close>

definition mask_text :: "u64 \<Rightarrow> u64 \<Rightarrow> byte list" where
  "mask_text bits number =
     map (\<lambda>i. if bit bits i then if bit number i then 49 else 48 else 88) (rev [0..<UNITY_INT_WIDTH])"

lemma bit_test: "(push_bit i 1 :: u64) AND x = 0 \<longleftrightarrow> \<not> bit x i"
  by (simp add: push_bit_eq_mult and.commute and_exp_eq_0_iff_not_bit)

lemma mask_loop_Suc:
  "mask_loop bits number (push_bit i 1) (Suc n) u =
     mask_loop bits number (drop_bit 1 (push_bit i 1)) n
       (emit [if bit bits i then if bit number i then 49 else 48 else 88] u)"
  by (simp only: mask_loop.simps bit_test prog_simps unity_simps bind_o_simps case_prod_conv not_not)

lemma mask_loop_run:
  "i < 64 \<Longrightarrow> mask_loop bits number (push_bit i 1) (Suc i) u =
     Ret ((), emit (map (\<lambda>i. if bit bits i then if bit number i then 49 else 48 else 88) (rev [0..<Suc i])) u)"
proof (induction i arbitrary: u)
  case 0
  show ?case unfolding mask_loop_Suc by (simp add: prog_simps)
next
  case (Suc i)
  have d: "drop_bit 1 (push_bit (Suc i) 1 :: u64) = push_bit i 1"
    using Suc.prems by (intro bit_eqI) (auto simp: bit_simps)
  show ?case
    unfolding mask_loop_Suc [of _ _ "Suc i"] d using Suc.IH [OF Suc_lessD [OF Suc.prems]]
    by (simp only: upt_Suc_append [of 0 "Suc i"] le0 rev.simps rev_append append_Cons append_Nil list.map emit_emit)
qed

lemma UnityPrintMask_run [unity_simps]: "UnityPrintMask bits number u = Ret ((), emit (mask_text bits number) u)"
proof -
  have e: "Suc 31 = 32" "32 - 1 = (31 :: nat)" by simp_all
  show ?thesis
    unfolding UnityPrintMask_def mask_text_def e(2) by (rule mask_loop_run [of 31, unfolded e(1)]) simp
qed

section \<open>Properties\<close>

text \<open>
  C25: The number printers are exact on all 64-bit values: the unsigned one writes the
  decimal numeral without leading zeros, the signed one the numeral of the absolute
  value after a minus sign, also for the least integer, whose absolute value is not
  representable. Both loops end.
\<close>

theorem UnityPrintNumber_decimal:
  "UnityPrintNumberUnsigned number u = Ret ((), u\<lparr>stdout := stdout u @ decimal (unat number)\<rparr>) \<and>
   UnityPrintNumber number u = Ret ((), u\<lparr>stdout := stdout u @
     (if sint number < 0 then 45 # decimal (nat (- sint number)) else decimal (nat (sint number)))\<rparr>)"
  by (simp add: unity_simps emit_def signed_decimal_def)

lemma ansi_loop_nul:
  "0 \<notin> set s \<Longrightarrow> 109 \<notin> set s \<Longrightarrow> ansi_loop (s @ 0 # r) k u = Ret (k + length s, emit s u)"
  by (induction s arbitrary: k u) (auto simp: prog_simps unity_simps)

lemma print_loop_overrun:
  assumes "0 \<notin> set seq" and "109 \<notin> set seq"
  shows "print_loop (27 # 91 # seq @ [0]) u = Fault Out_Of_Bounds"
  using ansi_loop_nul [of "27 # 91 # seq" "[]"] assms
  by (simp add: print_loop_Cons UnityPrintAnsiEscapeString_def prog_simps unity_simps print_loop.simps [of "[]"]
      del: ansi_loop.simps)

text \<open>
  C40: A string that ends inside an escape sequence is printed past its end: the escape
  printer counts the NUL as if it were the closing \<^verbatim>\<open>m\<close>, and the caller goes on behind it.
\<close>

theorem UnityPrint_overrun:
  assumes "0 \<notin> set pre" and "27 \<notin> set pre" and "0 \<notin> set seq" and "109 \<notin> set seq"
  shows "UnityPrint (Some (pre @ [27, 91] @ seq @ [0])) u = Fault Out_Of_Bounds"
proof -
  have "print_loop (pre @ [27, 91] @ seq @ [0]) u = Fault Out_Of_Bounds"
    using assms(1,2)
  proof (induction pre arbitrary: u)
    case Nil
    then show ?case using print_loop_overrun [OF assms(3,4)] by simp
  next
    case (Cons c cs)
    then show ?case by (simp add: print_loop_Cons unity_simps)
  qed
  then show ?thesis by (simp add: UnityPrint_def)
qed

theorem UnityPrint_overrun_witness:
  "UnityPrint (Some (bytes_of ''red: '' @ [27, 91] @ bytes_of ''31'' @ [0])) Unity = Fault Out_Of_Bounds"
  using UnityPrint_overrun [of "bytes_of ''red: ''" "bytes_of ''31''" Unity]
  by (simp add: bytes_of_def)

end
