(* ===== verification/Unity_Assert.thy ===== *)
theory Unity_Assert
  imports Unity_Text
begin

text \<open>
  The assertion functions and the control functions of \<^verbatim>\<open>test-framework/unity.c\<close>. An
  assertion either returns or leaves the test by \<^verbatim>\<open>longjmp\<close>; its result says which. Arrays
  are NULL or an address with the elements from there to the end of the array, integers
  in memory are little-endian. The line and the message are passed as in the source.
\<close>

section \<open>Strings of the framework\<close>

definition literal :: "string \<Rightarrow> cstring" where
  "literal s = Some (bytes_of s @ [0])"

text \<open>A text between the escape sequence of a background colour and the reset sequence.\<close>

definition coloured :: "string \<Rightarrow> string \<Rightarrow> cstring" where
  "coloured col s = Some ([27] @ bytes_of (''['' @ col @ ''m'' @ s) @ [27] @ bytes_of ''[00m'' @ [0])"

definition UnityStrOk :: cstring where "UnityStrOk = coloured ''42'' ''OK''"
definition UnityStrPass :: cstring where "UnityStrPass = coloured ''42'' ''PASS''"
definition UnityStrFail :: cstring where "UnityStrFail = coloured ''41'' ''FAIL''"
definition UnityStrIgnore :: cstring where "UnityStrIgnore = coloured ''43'' ''IGNORE''"
definition UnityStrNull :: cstring where "UnityStrNull = literal ''NULL''"
definition UnityStrSpacer :: cstring where "UnityStrSpacer = literal ''. ''"
definition UnityStrExpected :: cstring where "UnityStrExpected = literal '' Expected ''"
definition UnityStrWas :: cstring where "UnityStrWas = literal '' Was ''"
definition UnityStrGt :: cstring where "UnityStrGt = literal '' to be greater than ''"
definition UnityStrLt :: cstring where "UnityStrLt = literal '' to be less than ''"
definition UnityStrOrEqual :: cstring where "UnityStrOrEqual = literal ''or equal to ''"
definition UnityStrNotEqual :: cstring where "UnityStrNotEqual = literal '' to be not equal to ''"
definition UnityStrElement :: cstring where "UnityStrElement = literal '' Element ''"
definition UnityStrByte :: cstring where "UnityStrByte = literal '' Byte ''"
definition UnityStrMemory :: cstring where "UnityStrMemory = literal '' Memory Mismatch.''"
definition UnityStrDelta :: cstring where "UnityStrDelta = literal '' Values Not Within Delta ''"
definition UnityStrPointless :: cstring where
  "UnityStrPointless = literal '' You Asked Me To Compare Nothing, Which Was Pointless.''"
definition UnityStrNullPointerForExpected :: cstring where
  "UnityStrNullPointerForExpected = literal '' Expected pointer to be NULL''"
definition UnityStrNullPointerForActual :: cstring where
  "UnityStrNullPointerForActual = literal '' Actual pointer was NULL''"
definition UnityStrBreaker :: cstring where "UnityStrBreaker = literal ''-----------------------''"
definition UnityStrResultsTests :: cstring where "UnityStrResultsTests = literal '' Tests ''"
definition UnityStrResultsFailures :: cstring where "UnityStrResultsFailures = literal '' Failures ''"
definition UnityStrResultsIgnored :: cstring where "UnityStrResultsIgnored = literal '' Ignored ''"
definition UnityStrDetail1Name :: cstring where "UnityStrDetail1Name = literal ''Function ''"
definition UnityStrDetail2Name :: cstring where "UnityStrDetail2Name = literal '' Argument ''"

section \<open>Control\<close>

datatype flow = Returned | Aborted

definition UNITY_FAIL_AND_BAIL :: "(flow, unity) prog" where
  "UNITY_FAIL_AND_BAIL u = Ret (Aborted, u\<lparr>CurrentTestFailed := 1\<rparr>)"

definition UNITY_IGNORE_AND_BAIL :: "(flow, unity) prog" where
  "UNITY_IGNORE_AND_BAIL u = Ret (Aborted, u\<lparr>CurrentTestIgnored := 1\<rparr>)"

text \<open>\<^verbatim>\<open>RETURN_IF_FAIL_OR_IGNORE\<close> and the rest of the function.\<close>

definition RETURN_IF_FAIL_OR_IGNORE :: "(flow, unity) prog \<Rightarrow> (flow, unity) prog" where
  "RETURN_IF_FAIL_OR_IGNORE rest u =
     (if CurrentTestFailed u \<noteq> 0 \<or> CurrentTestIgnored u \<noteq> 0 then Ret (Aborted, u) else rest u)"

text \<open>A report and the end of the test.\<close>

definition fail_with :: "(unit, unity) prog list \<Rightarrow> (flow, unity) prog" where
  "fail_with ps = bind (do_all ps) (\<lambda>_. UNITY_FAIL_AND_BAIL)"

section \<open>Reports\<close>

definition UnityTestResultsBegin :: "cstring \<Rightarrow> u64 \<Rightarrow> (unit, unity) prog" where
  "UnityTestResultsBegin file line u =
     do_all [UnityPrint file, put_char 58, UnityPrintNumber line, put_char 58,
       UnityPrint (CurrentTestName u), put_char 58] u"

definition UnityTestResultsFailBegin :: "u64 \<Rightarrow> (unit, unity) prog" where
  "UnityTestResultsFailBegin line u =
     do_all [UnityTestResultsBegin (TestFile u) line, UnityPrint UnityStrFail, put_char 58] u"

text \<open>The details of the test, which messages and failures print when they are set.\<close>

definition print_details :: "(unit, unity) prog" where
  "print_details u =
     (if CurrentDetail1 u \<noteq> None then
        do_all
          [UnityPrint UnityStrDetail1Name, UnityPrint (CurrentDetail1 u),
           if CurrentDetail2 u \<noteq> None
           then do_all [UnityPrint UnityStrDetail2Name, UnityPrint (CurrentDetail2 u)] else ret (),
           UnityPrint UnityStrSpacer] u
      else Ret ((), u))"

definition UnityAddMsgIfSpecified :: "cstring \<Rightarrow> (unit, unity) prog" where
  "UnityAddMsgIfSpecified msg =
     (if msg \<noteq> None then do_all [UnityPrint UnityStrSpacer, print_details, UnityPrint msg] else ret ())"

definition UnityPrintExpectedAndActualStrings :: "cstring \<Rightarrow> cstring \<Rightarrow> (unit, unity) prog" where
  "UnityPrintExpectedAndActualStrings expected actual =
     do_all
       [UnityPrint UnityStrExpected,
        if expected \<noteq> None then do_all [put_char 39, UnityPrint expected, put_char 39] else UnityPrint UnityStrNull,
        UnityPrint UnityStrWas,
        if actual \<noteq> None then do_all [put_char 39, UnityPrint actual, put_char 39] else UnityPrint UnityStrNull]"

definition UnityPrintExpectedAndActualStringsLen :: "cstring \<Rightarrow> cstring \<Rightarrow> u32 \<Rightarrow> (unit, unity) prog" where
  "UnityPrintExpectedAndActualStringsLen expected actual len =
     do_all
       [UnityPrint UnityStrExpected,
        if expected \<noteq> None then do_all [put_char 39, UnityPrintLen expected len, put_char 39]
        else UnityPrint UnityStrNull,
        UnityPrint UnityStrWas,
        if actual \<noteq> None then do_all [put_char 39, UnityPrintLen actual len, put_char 39]
        else UnityPrint UnityStrNull]"

section \<open>Pointers\<close>

type_synonym 'e array = "(nat \<times> 'e list) option"

definition same_pointer :: "'d array \<Rightarrow> 'e array \<Rightarrow> bool" where
  "same_pointer p q \<longleftrightarrow> map_option fst p = map_option fst q"

definition UnityIsOneArrayNull :: "'d array \<Rightarrow> 'e array \<Rightarrow> u64 \<Rightarrow> cstring \<Rightarrow> (bool, unity) prog" where
  "UnityIsOneArrayNull expected actual line msg =
     (if same_pointer expected actual then ret False
      else if expected = None then
        bind (do_all [UnityTestResultsFailBegin line, UnityPrint UnityStrNullPointerForExpected, UnityAddMsgIfSpecified msg])
          (\<lambda>_. ret True)
      else if actual = None then
        bind (do_all [UnityTestResultsFailBegin line, UnityPrint UnityStrNullPointerForActual, UnityAddMsgIfSpecified msg])
          (\<lambda>_. ret True)
      else ret False)"

definition UnityPrintPointlessAndBail :: "u64 \<Rightarrow> cstring \<Rightarrow> (flow, unity) prog" where
  "UnityPrintPointlessAndBail line msg =
     fail_with [UnityTestResultsFailBegin line, UnityPrint UnityStrPointless, UnityAddMsgIfSpecified msg]"

section \<open>Assertions on numbers\<close>

definition UnityAssertBits :: "u64 \<Rightarrow> u64 \<Rightarrow> u64 \<Rightarrow> cstring \<Rightarrow> u64 \<Rightarrow> (flow, unity) prog" where
  "UnityAssertBits bits expected actual msg line = RETURN_IF_FAIL_OR_IGNORE
     (if bits AND expected \<noteq> bits AND actual then
        fail_with [UnityTestResultsFailBegin line, UnityPrint UnityStrExpected, UnityPrintMask bits expected,
          UnityPrint UnityStrWas, UnityPrintMask bits actual, UnityAddMsgIfSpecified msg]
      else ret Returned)"

definition UnityAssertEqualNumber ::
  "u64 \<Rightarrow> u64 \<Rightarrow> cstring \<Rightarrow> u64 \<Rightarrow> UNITY_DISPLAY_STYLE_T \<Rightarrow> (flow, unity) prog" where
  "UnityAssertEqualNumber expected actual msg line style = RETURN_IF_FAIL_OR_IGNORE
     (if expected \<noteq> actual then
        fail_with [UnityTestResultsFailBegin line, UnityPrint UnityStrExpected, UnityPrintNumberByStyle expected style,
          UnityPrint UnityStrWas, UnityPrintNumberByStyle actual style, UnityAddMsgIfSpecified msg]
      else ret Returned)"

datatype UNITY_COMPARISON_T =
    UNITY_WITHIN | UNITY_EQUAL_TO | UNITY_GREATER_THAN | UNITY_GREATER_OR_EQUAL
  | UNITY_SMALLER_THAN | UNITY_SMALLER_OR_EQUAL | UNITY_NOT_EQUAL | UNITY_UNKNOWN

fun comparison_value :: "UNITY_COMPARISON_T \<Rightarrow> u32" where
  "comparison_value UNITY_WITHIN = 0"
| "comparison_value UNITY_EQUAL_TO = 1"
| "comparison_value UNITY_GREATER_THAN = 2"
| "comparison_value UNITY_GREATER_OR_EQUAL = 2 + 1"
| "comparison_value UNITY_SMALLER_THAN = 4"
| "comparison_value UNITY_SMALLER_OR_EQUAL = 4 + 1"
| "comparison_value UNITY_NOT_EQUAL = 0"
| "comparison_value UNITY_UNKNOWN = 1"

definition has :: "UNITY_COMPARISON_T \<Rightarrow> UNITY_COMPARISON_T \<Rightarrow> bool" where
  "has compare flag \<longleftrightarrow> comparison_value compare AND comparison_value flag \<noteq> 0"

definition UnityAssertGreaterOrLessOrEqualNumber ::
  "u64 \<Rightarrow> u64 \<Rightarrow> UNITY_COMPARISON_T \<Rightarrow> cstring \<Rightarrow> u64 \<Rightarrow> UNITY_DISPLAY_STYLE_T \<Rightarrow> (flow, unity) prog" where
  "UnityAssertGreaterOrLessOrEqualNumber threshold actual compare msg line style = RETURN_IF_FAIL_OR_IGNORE
     (if threshold = actual \<and> has compare UNITY_EQUAL_TO then ret Returned
      else
        let failed = threshold = actual \<or>
          (if style_value style AND UNITY_DISPLAY_RANGE_INT = UNITY_DISPLAY_RANGE_INT
           then sint actual > sint threshold \<and> has compare UNITY_SMALLER_THAN \<or>
                sint actual < sint threshold \<and> has compare UNITY_GREATER_THAN
           else actual > threshold \<and> has compare UNITY_SMALLER_THAN \<or>
                actual < threshold \<and> has compare UNITY_GREATER_THAN)
        in if failed then
             fail_with [UnityTestResultsFailBegin line, UnityPrint UnityStrExpected, UnityPrintNumberByStyle actual style,
               if has compare UNITY_GREATER_THAN then UnityPrint UnityStrGt else ret (),
               if has compare UNITY_SMALLER_THAN then UnityPrint UnityStrLt else ret (),
               if has compare UNITY_EQUAL_TO then UnityPrint UnityStrOrEqual else ret (),
               if comparison_value compare = comparison_value UNITY_NOT_EQUAL then UnityPrint UnityStrNotEqual else ret (),
               UnityPrintNumberByStyle threshold style, UnityAddMsgIfSpecified msg]
           else ret Returned)"

text \<open>The test of \<^verbatim>\<open>UnityAssertNumbersWithin\<close> and of the array version.\<close>

definition beyond_delta :: "u64 \<Rightarrow> u64 \<Rightarrow> u64 \<Rightarrow> UNITY_DISPLAY_STYLE_T \<Rightarrow> bool" where
  "beyond_delta delta expected actual style =
     (if style_value style AND UNITY_DISPLAY_RANGE_INT = UNITY_DISPLAY_RANGE_INT then
        if sint actual > sint expected then actual - expected > delta else expected - actual > delta
      else
        if actual > expected then actual - expected > delta else expected - actual > delta)"

definition UnityAssertNumbersWithin ::
  "u64 \<Rightarrow> u64 \<Rightarrow> u64 \<Rightarrow> cstring \<Rightarrow> u64 \<Rightarrow> UNITY_DISPLAY_STYLE_T \<Rightarrow> (flow, unity) prog" where
  "UnityAssertNumbersWithin delta expected actual msg line style = RETURN_IF_FAIL_OR_IGNORE (\<lambda>u.
     let u' = u\<lparr>CurrentTestFailed := of_bool (beyond_delta delta expected actual style)\<rparr>
     in if CurrentTestFailed u' \<noteq> 0 then
          fail_with [UnityTestResultsFailBegin line, UnityPrint UnityStrDelta, UnityPrintNumberByStyle delta style,
            UnityPrint UnityStrExpected, UnityPrintNumberByStyle expected style,
            UnityPrint UnityStrWas, UnityPrintNumberByStyle actual style, UnityAddMsgIfSpecified msg] u'
        else Ret (Returned, u'))"

section \<open>Assertions on arrays of integers\<close>

datatype UNITY_FLAGS_T = UNITY_ARRAY_TO_VAL | UNITY_ARRAY_TO_ARRAY | UNITY_ARRAY_UNKNOWN

text \<open>The size of an element; sizes other than 1, 2 and 8 are taken as 4.\<close>

definition element_size :: "UNITY_DISPLAY_STYLE_T \<Rightarrow> nat" where
  "element_size style =
     (let len = unat (style_value style AND 0xF) in if len = 1 \<or> len = 2 \<or> len = 8 then len else 4)"

text \<open>A signed integer of \<open>n\<close> bytes at the start of an array, converted to \<^verbatim>\<open>UNITY_INT\<close>.\<close>

definition load_int :: "nat \<Rightarrow> byte list \<Rightarrow> u64 outcome" where
  "load_int n bs =
     (if n \<le> length bs
      then Ret (word_of_int (signed_take_bit (8 * n - 1) (int (radix_val 256 (map unat (rev (take n bs)))))))
      else Fault Out_Of_Bounds)"

text \<open>What a failure report shows of an element.\<close>

definition remove_sign_extension :: "UNITY_DISPLAY_STYLE_T \<Rightarrow> u64 \<Rightarrow> u64" where
  "remove_sign_extension style v =
     (if style_value style AND UNITY_DISPLAY_RANGE_UINT \<noteq> 0 \<and> element_size style < UNITY_INT_WIDTH div 8
      then v AND (push_bit (8 * element_size style) 1 - 1) else v)"

fun int_array_loop ::
  "u32 \<Rightarrow> cstring \<Rightarrow> u64 \<Rightarrow> UNITY_DISPLAY_STYLE_T \<Rightarrow> UNITY_FLAGS_T \<Rightarrow> nat \<Rightarrow> byte list \<Rightarrow> byte list \<Rightarrow>
   (flow, unity) prog" where
  "int_array_loop num_elements msg line style flags 0 expected actual = ret Returned"
| "int_array_loop num_elements msg line style flags (Suc elements) expected actual =
     bind (lift (load_int (element_size style) expected)) (\<lambda>expect_val.
     bind (lift (load_int (element_size style) actual)) (\<lambda>actual_val.
       if expect_val \<noteq> actual_val then
         fail_with [UnityTestResultsFailBegin line, UnityPrint UnityStrElement,
           UnityPrintNumberUnsigned (ucast (num_elements - of_nat elements - 1)),
           UnityPrint UnityStrExpected, UnityPrintNumberByStyle (remove_sign_extension style expect_val) style,
           UnityPrint UnityStrWas, UnityPrintNumberByStyle (remove_sign_extension style actual_val) style,
           UnityAddMsgIfSpecified msg]
       else
         int_array_loop num_elements msg line style flags elements
           (if flags = UNITY_ARRAY_TO_ARRAY then drop (element_size style) expected else expected)
           (drop (element_size style) actual)))"

text \<open>The tests all array assertions make before they compare.\<close>

definition compare_arrays ::
  "bool \<Rightarrow> 'd array \<Rightarrow> 'e array \<Rightarrow> u64 \<Rightarrow> cstring \<Rightarrow> ('d list \<Rightarrow> 'e list \<Rightarrow> (flow, unity) prog) \<Rightarrow> (flow, unity) prog" where
  "compare_arrays pointless expected actual line msg loop =
     (if pointless then UnityPrintPointlessAndBail line msg
      else if same_pointer expected actual then ret Returned
      else bind (UnityIsOneArrayNull expected actual line msg) (\<lambda>null.
        if null then UNITY_FAIL_AND_BAIL
        else case (expected, actual) of
          (Some (_, e), Some (_, a)) \<Rightarrow> loop e a
        | _ \<Rightarrow> fault Null_Pointer))"

definition UnityAssertEqualIntArray ::
  "byte array \<Rightarrow> byte array \<Rightarrow> u32 \<Rightarrow> cstring \<Rightarrow> u64 \<Rightarrow> UNITY_DISPLAY_STYLE_T \<Rightarrow> UNITY_FLAGS_T \<Rightarrow> (flow, unity) prog" where
  "UnityAssertEqualIntArray expected actual num_elements msg line style flags = RETURN_IF_FAIL_OR_IGNORE
     (compare_arrays (num_elements = 0) expected actual line msg
       (int_array_loop num_elements msg line style flags (unat num_elements)))"

fun within_array_loop ::
  "u64 \<Rightarrow> u32 \<Rightarrow> cstring \<Rightarrow> u64 \<Rightarrow> UNITY_DISPLAY_STYLE_T \<Rightarrow> UNITY_FLAGS_T \<Rightarrow> nat \<Rightarrow> byte list \<Rightarrow> byte list \<Rightarrow>
   (flow, unity) prog" where
  "within_array_loop delta num_elements msg line style flags 0 expected actual = ret Returned"
| "within_array_loop delta num_elements msg line style flags (Suc elements) expected actual =
     bind (lift (load_int (element_size style) expected)) (\<lambda>expect_val.
     bind (lift (load_int (element_size style) actual)) (\<lambda>actual_val u.
       let u' = u\<lparr>CurrentTestFailed := of_bool (beyond_delta delta expect_val actual_val style)\<rparr>
       in if CurrentTestFailed u' \<noteq> 0 then
         fail_with [UnityTestResultsFailBegin line, UnityPrint UnityStrDelta, UnityPrintNumberByStyle delta style,
           UnityPrint UnityStrElement, UnityPrintNumberUnsigned (ucast (num_elements - of_nat elements - 1)),
           UnityPrint UnityStrExpected, UnityPrintNumberByStyle (remove_sign_extension style expect_val) style,
           UnityPrint UnityStrWas, UnityPrintNumberByStyle (remove_sign_extension style actual_val) style,
           UnityAddMsgIfSpecified msg] u'
       else
         within_array_loop delta num_elements msg line style flags elements
           (if flags = UNITY_ARRAY_TO_ARRAY then drop (element_size style) expected else expected)
           (drop (element_size style) actual) u'))"

definition UnityAssertNumbersArrayWithin ::
  "u64 \<Rightarrow> byte array \<Rightarrow> byte array \<Rightarrow> u32 \<Rightarrow> cstring \<Rightarrow> u64 \<Rightarrow> UNITY_DISPLAY_STYLE_T \<Rightarrow> UNITY_FLAGS_T \<Rightarrow>
   (flow, unity) prog" where
  "UnityAssertNumbersArrayWithin delta expected actual num_elements msg line style flags = RETURN_IF_FAIL_OR_IGNORE
     (compare_arrays (num_elements = 0) expected actual line msg
       (within_array_loop delta num_elements msg line style flags (unat num_elements)))"

text \<open>
  \<^verbatim>\<open>UnityNumToPtr\<close>: the bytes of \<^verbatim>\<open>UnityQuickCompare\<close> after the store and the pointer to
  them, whose address is \<open>quick\<close>.
\<close>

definition UnityNumToPtr :: "nat \<Rightarrow> byte list \<Rightarrow> u64 \<Rightarrow> byte \<Rightarrow> byte array" where
  "UnityNumToPtr quick union_bytes num sz =
     (let n = (if sz = 1 then 1 else if sz = 2 then 2 else if sz = 8 then 8 else 4)
      in Some (quick, splice union_bytes 0 (map of_nat (rev (radix_fixed 256 n (unat num))))))"

section \<open>Assertions on strings and memory\<close>

text \<open>
  The loop of \<^verbatim>\<open>UnityAssertEqualString\<close>, whose index is a \<^verbatim>\<open>UNITY_UINT32\<close>; the result says
  whether a difference was found.
\<close>

partial_function (option) string_loop :: "byte list \<Rightarrow> byte list \<Rightarrow> u32 \<Rightarrow> bool outcome option" where
  "string_loop expected actual i =
     (if unat i < length expected \<and> unat i < length actual then
        let x = expected ! unat i; y = actual ! unat i
        in if x \<noteq> 0 \<or> y \<noteq> 0 then
             if x \<noteq> y then Some (Ret True) else string_loop expected actual (i + 1)
           else Some (Ret False)
      else Some (Fault Out_Of_Bounds))"

definition strings_differ :: "cstring \<Rightarrow> cstring \<Rightarrow> (bool, unity) prog" where
  "strings_differ expected actual u =
     (case (expected, actual) of
        (Some e, Some a) \<Rightarrow> (case string_loop e a 0 of None \<Rightarrow> Diverges | Some r \<Rightarrow> lift r u)
      | _ \<Rightarrow> Ret ((expected = None) \<noteq> (actual = None), u))"

definition UnityAssertEqualString :: "cstring \<Rightarrow> cstring \<Rightarrow> cstring \<Rightarrow> u64 \<Rightarrow> (flow, unity) prog" where
  "UnityAssertEqualString expected actual msg line = RETURN_IF_FAIL_OR_IGNORE
     (bind (strings_differ expected actual) (\<lambda>differ u.
        let u' = (if differ then u\<lparr>CurrentTestFailed := 1\<rparr> else u)
        in if CurrentTestFailed u' \<noteq> 0 then
             fail_with [UnityTestResultsFailBegin line, UnityPrintExpectedAndActualStrings expected actual,
               UnityAddMsgIfSpecified msg] u'
           else Ret (Returned, u')))"

text \<open>The loop of \<^verbatim>\<open>UnityAssertEqualStringLen\<close>, with \<open>n\<close> characters left.\<close>

fun string_len_loop :: "nat \<Rightarrow> byte list \<Rightarrow> byte list \<Rightarrow> bool outcome" where
  "string_len_loop 0 expected actual = Ret False"
| "string_len_loop (Suc n) (x # expected) (y # actual) =
     (if x \<noteq> 0 \<or> y \<noteq> 0 then if x \<noteq> y then Ret True else string_len_loop n expected actual else Ret False)"
| "string_len_loop (Suc n) expected actual = Fault Out_Of_Bounds"

definition UnityAssertEqualStringLen :: "cstring \<Rightarrow> cstring \<Rightarrow> u32 \<Rightarrow> cstring \<Rightarrow> u64 \<Rightarrow> (flow, unity) prog" where
  "UnityAssertEqualStringLen expected actual len msg line = RETURN_IF_FAIL_OR_IGNORE
     (bind
       (case (expected, actual) of
          (Some e, Some a) \<Rightarrow> lift (string_len_loop (unat len) e a)
        | _ \<Rightarrow> ret ((expected = None) \<noteq> (actual = None)))
       (\<lambda>differ u.
        let u' = (if differ then u\<lparr>CurrentTestFailed := 1\<rparr> else u)
        in if CurrentTestFailed u' \<noteq> 0 then
             fail_with [UnityTestResultsFailBegin line, UnityPrintExpectedAndActualStringsLen expected actual len,
               UnityAddMsgIfSpecified msg] u'
           else Ret (Returned, u')))"

text \<open>
  The argument \<^verbatim>\<open>expected\<close> of \<^verbatim>\<open>UnityAssertEqualStringArray\<close> points to an array of strings, or
  with another flag to the characters of one string; reading it as what it is not
  has no defined value.
\<close>

datatype expected_string = String_Pointer cstring | Character byte

definition expected_at :: "UNITY_FLAGS_T \<Rightarrow> expected_string list \<Rightarrow> nat \<Rightarrow> cstring outcome" where
  "expected_at flags expected j =
     (if flags = UNITY_ARRAY_TO_ARRAY then
        bind_o (array_read expected j) (\<lambda>x. case x of String_Pointer s \<Rightarrow> Ret s | Character _ \<Rightarrow> Fault Indeterminate)
      else if list_all (\<lambda>x. case x of String_Pointer _ \<Rightarrow> False | Character _ \<Rightarrow> True) expected
      then Ret (Some (map (\<lambda>x. case x of String_Pointer _ \<Rightarrow> 0 | Character c \<Rightarrow> c) expected))
      else Fault Indeterminate)"

text \<open>The loop over the elements, \<open>n\<close> of them left.\<close>

fun string_array_loop ::
  "u32 \<Rightarrow> cstring \<Rightarrow> u64 \<Rightarrow> UNITY_FLAGS_T \<Rightarrow> nat \<Rightarrow> expected_string list \<Rightarrow> cstring list \<Rightarrow> (flow, unity) prog" where
  "string_array_loop num_elements msg line flags 0 expected actual = ret Returned"
| "string_array_loop num_elements msg line flags (Suc n) expected actual =
     (let j = unat num_elements - Suc n
      in bind (lift (array_read actual j)) (\<lambda>act.
         bind (lift (expected_at flags expected j)) (\<lambda>expd.
         bind (strings_differ expd act) (\<lambda>differ u.
           let u' = (if differ then u\<lparr>CurrentTestFailed := 1\<rparr> else u)
           in if CurrentTestFailed u' \<noteq> 0 then
                fail_with [UnityTestResultsFailBegin line,
                  if num_elements > 1
                  then do_all [UnityPrint UnityStrElement, UnityPrintNumberUnsigned (of_nat j)] else ret (),
                  UnityPrintExpectedAndActualStrings expd act, UnityAddMsgIfSpecified msg] u'
              else string_array_loop num_elements msg line flags n expected actual u'))))"

definition UnityAssertEqualStringArray ::
  "expected_string array \<Rightarrow> cstring array \<Rightarrow> u32 \<Rightarrow> cstring \<Rightarrow> u64 \<Rightarrow> UNITY_FLAGS_T \<Rightarrow> (flow, unity) prog" where
  "UnityAssertEqualStringArray expected actual num_elements msg line flags = RETURN_IF_FAIL_OR_IGNORE
     (compare_arrays (num_elements = 0) expected actual line msg
       (string_array_loop num_elements msg line flags (unat num_elements)))"

text \<open>
  The inner loop of \<^verbatim>\<open>UnityAssertEqualMemory\<close>: the first difference, with the bytes left
  after it, and the two pointers.
\<close>

fun bytes_loop ::
  "nat \<Rightarrow> byte list \<Rightarrow> byte list \<Rightarrow> ((nat \<times> byte \<times> byte) option \<times> byte list \<times> byte list) outcome" where
  "bytes_loop 0 ptr_exp ptr_act = Ret (None, ptr_exp, ptr_act)"
| "bytes_loop (Suc bytes) (x # ptr_exp) (y # ptr_act) =
     (if x \<noteq> y then Ret (Some (bytes, x, y), x # ptr_exp, y # ptr_act) else bytes_loop bytes ptr_exp ptr_act)"
| "bytes_loop (Suc bytes) ptr_exp ptr_act = Fault Out_Of_Bounds"

fun memory_loop ::
  "u32 \<Rightarrow> u32 \<Rightarrow> cstring \<Rightarrow> u64 \<Rightarrow> UNITY_FLAGS_T \<Rightarrow> byte list \<Rightarrow> nat \<Rightarrow> byte list \<Rightarrow> byte list \<Rightarrow> (flow, unity) prog" where
  "memory_loop len num_elements msg line flags expected 0 ptr_exp ptr_act = ret Returned"
| "memory_loop len num_elements msg line flags expected (Suc elements) ptr_exp ptr_act =
     bind (lift (bytes_loop (unat len) ptr_exp ptr_act)) (\<lambda>(difference, ptr_exp, ptr_act).
       case difference of
         Some (bytes, x, y) \<Rightarrow>
           fail_with [UnityTestResultsFailBegin line, UnityPrint UnityStrMemory,
             if num_elements > 1
             then do_all [UnityPrint UnityStrElement, UnityPrintNumberUnsigned (ucast (num_elements - of_nat elements - 1))]
             else ret (),
             UnityPrint UnityStrByte, UnityPrintNumberUnsigned (ucast (len - of_nat bytes - 1)),
             UnityPrint UnityStrExpected, UnityPrintNumberByStyle (ucast x) UNITY_DISPLAY_STYLE_HEX8,
             UnityPrint UnityStrWas, UnityPrintNumberByStyle (ucast y) UNITY_DISPLAY_STYLE_HEX8,
             UnityAddMsgIfSpecified msg]
       | None \<Rightarrow>
           memory_loop len num_elements msg line flags expected elements
             (if flags = UNITY_ARRAY_TO_VAL then expected else ptr_exp) ptr_act)"

definition UnityAssertEqualMemory ::
  "byte array \<Rightarrow> byte array \<Rightarrow> u32 \<Rightarrow> u32 \<Rightarrow> cstring \<Rightarrow> u64 \<Rightarrow> UNITY_FLAGS_T \<Rightarrow> (flow, unity) prog" where
  "UnityAssertEqualMemory expected actual len num_elements msg line flags = RETURN_IF_FAIL_OR_IGNORE
     (compare_arrays (num_elements = 0 \<or> len = 0) expected actual line msg
       (\<lambda>e a. memory_loop len num_elements msg line flags e (unat num_elements) e a))"

section \<open>Ends of a test and messages\<close>

definition UnityFail :: "cstring \<Rightarrow> u64 \<Rightarrow> (flow, unity) prog" where
  "UnityFail msg line = RETURN_IF_FAIL_OR_IGNORE (\<lambda>u.
     fail_with
       [UnityTestResultsBegin (TestFile u) line, UnityPrint UnityStrFail,
        case msg of
          None \<Rightarrow> ret ()
        | Some s \<Rightarrow>
            do_all [put_char 58, print_details,
              bind (lift (array_read s 0)) (\<lambda>c. if c \<noteq> 32 then put_char 32 else ret ()),
              UnityPrint msg]] u)"

definition UnityIgnore :: "cstring \<Rightarrow> u64 \<Rightarrow> (flow, unity) prog" where
  "UnityIgnore msg line = RETURN_IF_FAIL_OR_IGNORE (\<lambda>u.
     bind
       (do_all
         [UnityTestResultsBegin (TestFile u) line, UnityPrint UnityStrIgnore,
          if msg \<noteq> None then do_all [put_char 58, put_char 32, UnityPrint msg] else ret ()])
       (\<lambda>_. UNITY_IGNORE_AND_BAIL) u)"

definition UnityMessage :: "cstring \<Rightarrow> u64 \<Rightarrow> (unit, unity) prog" where
  "UnityMessage msg line u =
     do_all
       [UnityTestResultsBegin (TestFile u) line, UnityPrint (literal ''INFO''),
        if msg \<noteq> None then do_all [put_char 58, put_char 32, UnityPrint msg] else ret (),
        put_char 10] u"

end
