(* ===== verification/Unity_Contract.thy ===== *)
theory Unity_Contract
  imports Unity_Assert
begin

text \<open>
  The contract of an assertion and the proof that the assertion functions keep it: in a
  test that has failed or is ignored it does nothing and leaves the test, otherwise it
  returns without a trace when its condition holds, and when the condition fails it
  writes a report, marks the test as failed and leaves the test. The locale \<open>assertion\<close>
  states this for a condition and its opposite, and is interpreted for each function.
\<close>

section \<open>Reports\<close>

definition fresh :: "unity \<Rightarrow> bool" where
  "fresh u \<longleftrightarrow> CurrentTestFailed u = 0 \<and> CurrentTestIgnored u = 0"

text \<open>The strings every report prints are printable.\<close>

definition ready :: "unity \<Rightarrow> bool" where
  "ready u \<longleftrightarrow> printable (TestFile u) \<and> printable (CurrentTestName u) \<and>
     printable (CurrentDetail1 u) \<and> printable (CurrentDetail2 u)"

lemma ready_emit [simp]: "ready (emit t u) \<longleftrightarrow> ready u" and fresh_emit [simp]: "fresh (emit t u) \<longleftrightarrow> fresh u"
  by (simp_all add: ready_def fresh_def)

lemma ready_flags [simp]:
  "ready (u\<lparr>CurrentTestFailed := x\<rparr>) \<longleftrightarrow> ready u" "ready (u\<lparr>CurrentTestIgnored := x\<rparr>) \<longleftrightarrow> ready u"
  by (simp_all add: ready_def)

lemma failed_emit: "(emit t (u\<lparr>CurrentTestFailed := x\<rparr>))\<lparr>CurrentTestFailed := y\<rparr> = (emit t u)\<lparr>CurrentTestFailed := y\<rparr>"
  by (simp add: emit_def)

text \<open>Statements that only write a text.\<close>

definition writes :: "(unit, unity) prog \<Rightarrow> bool" where
  "writes p \<longleftrightarrow> (\<forall>u. ready u \<longrightarrow> (\<exists>t. p u = Ret ((), emit t u)))"

named_theorems writes_intros \<open>statements that only write a text\<close>

lemma printable_None [simp]: "printable None"
  by (simp add: printable_def)

lemma of_char_byte_eq: "(of_char c :: byte) = of_char d \<longleftrightarrow> c = d"
proof
  assume "(of_char c :: byte) = of_char d"
  then have "unat (of_nat (of_char c) :: byte) = unat (of_nat (of_char d) :: byte)" by (simp only: of_nat_of_char)
  then have "(of_char c :: nat) = of_char d" by (simp add: unat_of_nat)
  then show "c = d" by simp
qed simp

lemma in_bytes_of:
  "0 \<in> set (bytes_of s) \<longleftrightarrow> CHR 0x00 \<in> set s" "27 \<in> set (bytes_of s) \<longleftrightarrow> CHR 0x1B \<in> set s"
  "109 \<in> set (bytes_of s) \<longleftrightarrow> CHR ''m'' \<in> set s"
proof -
  have *: "of_char d \<in> set (bytes_of s) \<longleftrightarrow> d \<in> set s" for d
    by (auto simp: bytes_of_def of_char_byte_eq)
  show "0 \<in> set (bytes_of s) \<longleftrightarrow> CHR 0x00 \<in> set s" "27 \<in> set (bytes_of s) \<longleftrightarrow> CHR 0x1B \<in> set s"
    "109 \<in> set (bytes_of s) \<longleftrightarrow> CHR ''m'' \<in> set s"
    using * [of "CHR 0x00"] * [of "CHR 0x1B"] * [of "CHR ''m''"] by simp_all
qed

lemma render_text:
  "27 \<notin> set s \<Longrightarrow> 0 \<notin> set s \<Longrightarrow> render (s @ rest) = map_option (append (concat (map shown s))) (render rest)"
  by (induction s) (cases "render rest"; auto simp: render_Cons)+

lemma c_str_append: "0 \<notin> set s \<Longrightarrow> c_str (s @ r) = s @ c_str r"
  by (induction s) auto

lemma render_escape:
  assumes "109 \<notin> set seq" and "0 \<notin> set seq"
  shows "render (27 # 91 # seq @ 109 # rest) = map_option (append (27 # 91 # seq @ [109])) (render rest)"
proof -
  have "takeWhile (\<lambda>d. d \<noteq> 109) (seq @ 109 # rest) = seq" "dropWhile (\<lambda>d. d \<noteq> 109) (seq @ 109 # rest) = 109 # rest"
    using assms(1) by (induction seq) auto
  then show ?thesis using assms(2) by (simp add: render_Cons [of 27] c_str_append)
qed

lemma printable_literal:
  "CHR 0x1B \<notin> set s \<Longrightarrow> CHR 0x00 \<notin> set s \<Longrightarrow> printable (literal s)"
  by (simp add: literal_def printable_def render_text in_bytes_of render_Cons)

lemma printable_coloured:
  assumes "CHR ''m'' \<notin> set col" "CHR 0x00 \<notin> set col" and "CHR 0x1B \<notin> set s" "CHR 0x00 \<notin> set s"
  shows "printable (coloured col s)"
proof -
  have "[27] @ bytes_of (''['' @ col @ ''m'' @ s) @ [27] @ bytes_of ''[00m'' @ [0] =
      27 # 91 # bytes_of col @ 109 # bytes_of s @ 27 # 91 # [48, 48] @ 109 # [0]"
    by (simp add: bytes_of_def)
  then show ?thesis
    using assms unfolding coloured_def printable_def
    by (simp only:) (simp add: render_escape [of "bytes_of col"] render_text [of "bytes_of s"] render_escape [of "[48, 48]", simplified]
        in_bytes_of render_Cons [of 0])
qed

lemma printable_constants [simp]:
  "printable UnityStrOk" "printable UnityStrPass" "printable UnityStrFail" "printable UnityStrIgnore"
  "printable UnityStrNull" "printable UnityStrSpacer" "printable UnityStrExpected" "printable UnityStrWas"
  "printable UnityStrGt" "printable UnityStrLt" "printable UnityStrOrEqual" "printable UnityStrNotEqual"
  "printable UnityStrElement" "printable UnityStrByte" "printable UnityStrMemory" "printable UnityStrDelta"
  "printable UnityStrPointless" "printable UnityStrNullPointerForExpected" "printable UnityStrNullPointerForActual"
  "printable UnityStrBreaker" "printable UnityStrResultsTests" "printable UnityStrResultsFailures"
  "printable UnityStrResultsIgnored" "printable UnityStrDetail1Name" "printable UnityStrDetail2Name"
  "printable (literal ''INFO'')"
  by (unfold UnityStrOk_def UnityStrPass_def UnityStrFail_def UnityStrIgnore_def UnityStrNull_def UnityStrSpacer_def
      UnityStrExpected_def UnityStrWas_def UnityStrGt_def UnityStrLt_def UnityStrOrEqual_def UnityStrNotEqual_def
      UnityStrElement_def UnityStrByte_def UnityStrMemory_def UnityStrDelta_def UnityStrPointless_def
      UnityStrNullPointerForExpected_def UnityStrNullPointerForActual_def UnityStrBreaker_def UnityStrResultsTests_def
      UnityStrResultsFailures_def UnityStrResultsIgnored_def UnityStrDetail1Name_def UnityStrDetail2Name_def)
    ((rule printable_literal printable_coloured; simp)+)

lemma writes_basic [writes_intros]:
  "writes (ret ())" "writes (put_char c)" "writes (UnityPrintNumber n)" "writes (UnityPrintNumberUnsigned n)"
  "writes (UnityPrintNumberByStyle n style)" "writes (UnityPrintMask bits n)"
  "printable p \<Longrightarrow> writes (UnityPrint p)"
  by (auto simp: writes_def prog_simps unity_simps intro: exI [of _ "[]"])

lemma writes_if [writes_intros]: "(b \<Longrightarrow> writes p) \<Longrightarrow> (\<not> b \<Longrightarrow> writes q) \<Longrightarrow> writes (if b then p else q)"
  by simp

lemma writes_do_all [writes_intros]: "list_all writes ps \<Longrightarrow> writes (do_all ps)"
proof (induction ps)
  case Nil
  then show ?case by (simp add: writes_basic)
next
  case (Cons p ps)
  show ?case
    unfolding writes_def
  proof (intro allI impI)
    fix u assume u: "ready u"
    then obtain t where t: "p u = Ret ((), emit t u)" using Cons.prems by (auto simp: writes_def)
    have "writes (do_all ps)" using Cons by simp
    then obtain t' where "do_all ps (emit t u) = Ret ((), emit t' (emit t u))"
      using u unfolding writes_def by (metis ready_emit)
    then show "\<exists>t. do_all (p # ps) u = Ret ((), emit t u)" using t by (auto simp: prog_simps)
  qed
qed

lemma writes_run: "writes p \<Longrightarrow> ready u \<Longrightarrow> \<exists>t. p u = Ret ((), emit t u)"
  by (simp add: writes_def)

lemma do_all_writes: "ready u \<Longrightarrow> list_all writes ps \<Longrightarrow> \<exists>t. do_all ps u = Ret ((), emit t u)"
  by (rule writes_run [OF writes_do_all])

lemma writes_reports [writes_intros]:
  "printable name \<Longrightarrow> writes (UnityTestResultsBegin name line)"
  "writes (UnityTestResultsFailBegin line)"
  "writes print_details"
  "printable msg \<Longrightarrow> writes (UnityAddMsgIfSpecified msg)"
  "printable e \<Longrightarrow> printable a \<Longrightarrow> writes (UnityPrintExpectedAndActualStrings e a)"
proof -
  show results: "writes (UnityTestResultsBegin name line)" if "printable name" for name line
    using that by (auto simp: writes_def [of "UnityTestResultsBegin _ _"] UnityTestResultsBegin_def ready_def
        intro!: do_all_writes writes_intros simp del: do_all.simps)
  show "writes (UnityTestResultsFailBegin line)"
    by (auto simp: writes_def [of "UnityTestResultsFailBegin _"] UnityTestResultsFailBegin_def ready_def
        intro!: do_all_writes writes_intros results simp del: do_all.simps)
  show details: "writes print_details"
  proof -
    have "\<exists>t. print_details u = Ret ((), emit t u)" if "ready u" for u
    proof (cases "CurrentDetail1 u = None")
      case True
      then show ?thesis by (auto simp: print_details_def intro: exI [of _ "[]"])
    next
      case False
      then show ?thesis
        unfolding print_details_def using that
        by (auto simp: ready_def intro!: do_all_writes writes_intros simp del: do_all.simps)
    qed
    then show ?thesis by (simp add: writes_def)
  qed
  show "writes (UnityAddMsgIfSpecified msg)" if "printable msg"
    unfolding UnityAddMsgIfSpecified_def using that details by (auto intro!: writes_intros simp del: do_all.simps)
  show "writes (UnityPrintExpectedAndActualStrings e a)" if "printable e" "printable a"
    unfolding UnityPrintExpectedAndActualStrings_def using that by (auto intro!: writes_intros simp del: do_all.simps)
qed

lemma fail_with_run:
  assumes "list_all writes ps" and "ready u"
  shows "\<exists>t. fail_with ps u = Ret (Aborted, (emit t u)\<lparr>CurrentTestFailed := 1\<rparr>)"
  using writes_run [OF writes_do_all [OF assms(1)] assms(2)]
  by (auto simp: fail_with_def UNITY_FAIL_AND_BAIL_def prog_simps)

section \<open>The contract\<close>

locale assertion =
  fixes check :: "(flow, unity) prog" and ok :: bool and bad :: bool
  assumes skip: "\<not> fresh u \<Longrightarrow> check u = Ret (Aborted, u)"
    and pass: "fresh u \<Longrightarrow> ok \<Longrightarrow> check u = Ret (Returned, u)"
    and fail: "fresh u \<Longrightarrow> ready u \<Longrightarrow> bad \<Longrightarrow>
      \<exists>t. check u = Ret (Aborted, (emit t u)\<lparr>CurrentTestFailed := 1\<rparr>)"
begin

lemma ok_not_bad: "ok \<Longrightarrow> \<not> bad"
proof
  assume "ok" and "bad"
  moreover have "fresh Unity" and "ready Unity" by (simp_all add: fresh_def ready_def Unity_def)
  ultimately obtain t where "Ret (Returned, Unity) = Ret (Aborted, (emit t Unity)\<lparr>CurrentTestFailed := 1\<rparr>)"
    using pass [of Unity] fail [of Unity] by metis
  then show False by (simp only: outcome.inject prod.inject flow.distinct simp_thms)
qed

lemma returns_when:
  assumes "fresh u" and "ready u" and "ok \<or> bad"
  shows "(\<exists>u'. check u = Ret (Returned, u')) \<longleftrightarrow> ok"
proof
  assume "\<exists>u'. check u = Ret (Returned, u')"
  then obtain u' where u': "check u = Ret (Returned, u')" by blast
  have "\<not> bad"
  proof
    assume "bad"
    then obtain t where "check u = Ret (Aborted, (emit t u)\<lparr>CurrentTestFailed := 1\<rparr>)"
      using fail [OF assms(1,2)] by blast
    with u' show False by (simp only: outcome.inject prod.inject flow.distinct simp_thms)
  qed
  with assms(3) show ok by blast
qed (use pass [OF assms(1)] in blast)

end

text \<open>The next statement of a test is reached when the assertion returns.\<close>

definition and_then :: "(flow, unity) prog \<Rightarrow> (flow, unity) prog \<Rightarrow> (flow, unity) prog" where
  "and_then p q = bind p (\<lambda>f. case f of Returned \<Rightarrow> q | Aborted \<Rightarrow> ret Aborted)"

text \<open>Assertions compose: a sequence of assertions is an assertion of the conjunction.\<close>

lemma assertion_and_then:
  assumes "assertion p ok bad" and "assertion q ok' bad'"
  shows "assertion (and_then p q) (ok \<and> ok') (bad \<or> ok \<and> bad')"
proof
  note p = assertion.skip [OF assms(1)] assertion.pass [OF assms(1)] assertion.fail [OF assms(1)]
    and q = assertion.pass [OF assms(2)] assertion.fail [OF assms(2)]
  show "and_then p q u = Ret (Aborted, u)" if "\<not> fresh u" for u
    using p(1) [OF that] by (simp add: and_then_def prog_simps)
  show "and_then p q u = Ret (Returned, u)" if "fresh u" "ok \<and> ok'" for u
    using p(2) [OF that(1)] q(1) [OF that(1)] that(2) by (simp add: and_then_def prog_simps)
  show "\<exists>t. and_then p q u = Ret (Aborted, (emit t u)\<lparr>CurrentTestFailed := 1\<rparr>)"
    if "fresh u" "ready u" "bad \<or> ok \<and> bad'" for u
    using that(3)
  proof
    assume "bad"
    then show ?thesis using p(3) [OF that(1,2)] by (auto simp: and_then_def prog_simps)
  next
    assume b: "ok \<and> bad'"
    then show ?thesis using p(2) [OF that(1)] q(2) [OF that(1,2)] by (simp add: and_then_def prog_simps)
  qed
qed

text \<open>An assertion that tests a condition and then reports.\<close>

lemma assertion_if:
  assumes "good \<Longrightarrow> list_all writes ps"
  shows "assertion (RETURN_IF_FAIL_OR_IGNORE (if b then fail_with ps else ret Returned)) (\<not> b) (b \<and> good)"
proof
  let ?check = "RETURN_IF_FAIL_OR_IGNORE (if b then fail_with ps else ret Returned)"
  show "?check u = Ret (Aborted, u)" if "\<not> fresh u" for u
    using that by (simp add: RETURN_IF_FAIL_OR_IGNORE_def fresh_def)
  have run: "?check u = (if b then fail_with ps else ret Returned) u" if "fresh u" for u
    using that by (simp add: RETURN_IF_FAIL_OR_IGNORE_def fresh_def)
  show "?check u = Ret (Returned, u)" if "fresh u" "\<not> b" for u
    using run [OF that(1)] that(2) by (simp add: prog_simps)
  show "\<exists>t. ?check u = Ret (Aborted, (emit t u)\<lparr>CurrentTestFailed := 1\<rparr>)"
    if "fresh u" "ready u" "b \<and> good" for u
    using run [OF that(1)] that(3) fail_with_run [OF assms that(2)] by simp
qed

interpretation bits: assertion "UnityAssertBits m e a msg line" "m AND e = m AND a"
  "m AND e \<noteq> m AND a \<and> printable msg" for m e a msg line
proof -
  have "assertion (UnityAssertBits m e a msg line) (\<not> m AND e \<noteq> m AND a) (m AND e \<noteq> m AND a \<and> printable msg)"
    unfolding UnityAssertBits_def by (rule assertion_if) (simp add: writes_intros)
  then show "assertion (UnityAssertBits m e a msg line) (m AND e = m AND a) (m AND e \<noteq> m AND a \<and> printable msg)"
    by simp
qed

interpretation equal_number: assertion "UnityAssertEqualNumber e a msg line style" "e = a" "e \<noteq> a \<and> printable msg"
  for e a msg line style
proof -
  have "assertion (UnityAssertEqualNumber e a msg line style) (\<not> e \<noteq> a) (e \<noteq> a \<and> printable msg)"
    unfolding UnityAssertEqualNumber_def by (rule assertion_if) (simp add: writes_intros)
  then show "assertion (UnityAssertEqualNumber e a msg line style) (e = a) (e \<noteq> a \<and> printable msg)" by simp
qed

text \<open>The value of a number in a display style, and what the comparisons ask of it.\<close>

definition style_int :: "UNITY_DISPLAY_STYLE_T \<Rightarrow> u64 \<Rightarrow> int" where
  "style_int style v = (if is_int style then sint v else uint v)"

fun comparison_holds :: "UNITY_COMPARISON_T \<Rightarrow> int \<Rightarrow> int \<Rightarrow> bool" where
  "comparison_holds UNITY_GREATER_THAN x y \<longleftrightarrow> x > y"
| "comparison_holds UNITY_GREATER_OR_EQUAL x y \<longleftrightarrow> x \<ge> y"
| "comparison_holds UNITY_SMALLER_THAN x y \<longleftrightarrow> x < y"
| "comparison_holds UNITY_SMALLER_OR_EQUAL x y \<longleftrightarrow> x \<le> y"
| "comparison_holds UNITY_NOT_EQUAL x y \<longleftrightarrow> x \<noteq> y"
| "comparison_holds UNITY_WITHIN x y \<longleftrightarrow> x \<noteq> y"
| "comparison_holds UNITY_EQUAL_TO x y \<longleftrightarrow> True"
| "comparison_holds UNITY_UNKNOWN x y \<longleftrightarrow> True"

lemma style_int_eq_iff: "style_int style v = style_int style w \<longleftrightarrow> v = w"
  by (auto simp: style_int_def intro: signed_word_eqI unsigned_word_eqI)

interpretation comparison: assertion "UnityAssertGreaterOrLessOrEqualNumber th a compare msg line style"
  "comparison_holds compare (style_int style a) (style_int style th)"
  "\<not> comparison_holds compare (style_int style a) (style_int style th) \<and> printable msg"
  for th a compare msg line style
proof -
  let ?x = "style_int style a" and ?y = "style_int style th"
  let ?failed = "th = a \<or>
          (if style_value style AND UNITY_DISPLAY_RANGE_INT = UNITY_DISPLAY_RANGE_INT
           then sint a > sint th \<and> has compare UNITY_SMALLER_THAN \<or> sint a < sint th \<and> has compare UNITY_GREATER_THAN
           else a > th \<and> has compare UNITY_SMALLER_THAN \<or> a < th \<and> has compare UNITY_GREATER_THAN)"
  let ?ps = "[UnityTestResultsFailBegin line, UnityPrint UnityStrExpected, UnityPrintNumberByStyle a style,
               if has compare UNITY_GREATER_THAN then UnityPrint UnityStrGt else ret (),
               if has compare UNITY_SMALLER_THAN then UnityPrint UnityStrLt else ret (),
               if has compare UNITY_EQUAL_TO then UnityPrint UnityStrOrEqual else ret (),
               if comparison_value compare = comparison_value UNITY_NOT_EQUAL then UnityPrint UnityStrNotEqual else ret (),
               UnityPrintNumberByStyle th style, UnityAddMsgIfSpecified msg]"
  have eq: "th = a \<longleftrightarrow> ?x = ?y" using style_int_eq_iff by metis
  moreover have "?failed \<longleftrightarrow> ?x = ?y \<or> ?x > ?y \<and> has compare UNITY_SMALLER_THAN \<or> ?x < ?y \<and> has compare UNITY_GREATER_THAN"
    unfolding eq by (simp add: style_int_def is_int_def word_less_def)
  ultimately have iff: "\<not> (th = a \<and> has compare UNITY_EQUAL_TO) \<and> ?failed \<longleftrightarrow> \<not> comparison_holds compare ?x ?y"
    by (cases compare) (auto simp: has_def)
  have "UnityAssertGreaterOrLessOrEqualNumber th a compare msg line style = RETURN_IF_FAIL_OR_IGNORE
      (if \<not> (th = a \<and> has compare UNITY_EQUAL_TO) \<and> ?failed then fail_with ?ps else ret Returned)"
    unfolding UnityAssertGreaterOrLessOrEqualNumber_def Let_def
    by (cases "th = a \<and> has compare UNITY_EQUAL_TO") (simp_all only: if_True if_False simp_thms)
  then have "UnityAssertGreaterOrLessOrEqualNumber th a compare msg line style = RETURN_IF_FAIL_OR_IGNORE
      (if \<not> comparison_holds compare ?x ?y then fail_with ?ps else ret Returned)"
    by (simp only: iff)
  moreover have "printable msg \<Longrightarrow> list_all writes ?ps" by (simp add: writes_intros)
  ultimately show "assertion (UnityAssertGreaterOrLessOrEqualNumber th a compare msg line style)
      (comparison_holds compare ?x ?y) (\<not> comparison_holds compare ?x ?y \<and> printable msg)"
    using assertion_if [of "printable msg" ?ps "\<not> comparison_holds compare ?x ?y"] by simp
qed

end
