(* ===== verification/Unity_Arrays.thy ===== *)
theory Unity_Arrays
  imports Unity_Contract
begin

text \<open>
  The contracts of the assertions on distances, arrays of integers and memory. Integer
  arrays and memory are compared by the bytes they occupy.
\<close>

section \<open>Distances\<close>

lemma fail_with_flag:
  assumes "list_all writes ps" and "ready u"
  shows "\<exists>t. fail_with ps (u\<lparr>CurrentTestFailed := x\<rparr>) = Ret (Aborted, (emit t u)\<lparr>CurrentTestFailed := 1\<rparr>)"
  using fail_with_run [OF assms(1), of "u\<lparr>CurrentTestFailed := x\<rparr>"] assms(2) by (auto simp: failed_emit)

lemma fresh_flag: "fresh u \<Longrightarrow> u\<lparr>CurrentTestFailed := 0\<rparr> = u"
  by (cases u) (simp add: fresh_def)

lemma style_int_bounds:
  "of_int (style_int style v) = v" "style_int style v - style_int style w < 2 ^ 64"
proof -
  show "of_int (style_int style v) = v" by (simp add: style_int_def)
  have "uint v < 2 ^ 64" using uint_lt2p [of v] by simp
  then have "uint v - uint w < 2 ^ 64" using uint_ge_0 [of w] by linarith
  moreover have "sint v - sint w < 2 ^ 64" using sint_lt [of v] sint_ge [of w] by simp
  ultimately show "style_int style v - style_int style w < 2 ^ 64" by (simp only: style_int_def split: if_split) blast
qed

lemma uint_distance:
  assumes "style_int style w \<le> style_int style v"
  shows "uint (v - w) = style_int style v - style_int style w"
proof -
  have "v - w = of_int (style_int style v - style_int style w)" by (simp add: style_int_bounds)
  then have "uint (v - w) = (style_int style v - style_int style w) mod 2 ^ 64"
    by (simp only: unsigned_of_int take_bit_eq_mod) simp
  then show ?thesis using assms style_int_bounds(2) [of style v w] by simp
qed

lemma beyond_delta_iff:
  "beyond_delta delta e a style \<longleftrightarrow> \<bar>style_int style a - style_int style e\<bar> > uint delta"
proof -
  have "beyond_delta delta e a style =
      (if style_int style a > style_int style e then uint (a - e) > uint delta else uint (e - a) > uint delta)"
    by (simp add: beyond_delta_def style_int_def is_int_def word_less_def)
  then show ?thesis
    using uint_distance [of style e a] uint_distance [of style a e]
    by (cases "style_int style a > style_int style e") simp_all
qed

interpretation within: assertion "UnityAssertNumbersWithin delta e a msg line style"
  "\<bar>style_int style a - style_int style e\<bar> \<le> uint delta"
  "\<bar>style_int style a - style_int style e\<bar> > uint delta \<and> printable msg" for delta e a msg line style
proof
  let ?check = "UnityAssertNumbersWithin delta e a msg line style"
    and ?d = "\<bar>style_int style a - style_int style e\<bar>"
  let ?ps = "[UnityTestResultsFailBegin line, UnityPrint UnityStrDelta, UnityPrintNumberByStyle delta style,
            UnityPrint UnityStrExpected, UnityPrintNumberByStyle e style,
            UnityPrint UnityStrWas, UnityPrintNumberByStyle a style, UnityAddMsgIfSpecified msg]"
  show "?check u = Ret (Aborted, u)" if "\<not> fresh u" for u
    using that by (simp add: UnityAssertNumbersWithin_def RETURN_IF_FAIL_OR_IGNORE_def fresh_def)
  have run: "?check u = (if ?d > uint delta then fail_with ?ps (u\<lparr>CurrentTestFailed := 1\<rparr>) else Ret (Returned, u))"
    if "fresh u" for u
    using that fresh_flag [OF that]
    by (simp add: UnityAssertNumbersWithin_def RETURN_IF_FAIL_OR_IGNORE_def fresh_def beyond_delta_iff Let_def)
  show "?check u = Ret (Returned, u)" if "fresh u" "?d \<le> uint delta" for u
    using run [OF that(1)] that(2) by simp
  show "\<exists>t. ?check u = Ret (Aborted, (emit t u)\<lparr>CurrentTestFailed := 1\<rparr>)"
    if "fresh u" "ready u" "?d > uint delta \<and> printable msg" for u
    using run [OF that(1)] that(3) fail_with_flag [of ?ps u 1] that(2) by (simp add: writes_intros)
qed

section \<open>Arrays\<close>

definition arrays_ok :: "bool \<Rightarrow> 'd array \<Rightarrow> 'e array \<Rightarrow> ('d list \<Rightarrow> 'e list \<Rightarrow> bool) \<Rightarrow> bool" where
  "arrays_ok pointless p q equal \<longleftrightarrow> \<not> pointless \<and>
     (same_pointer p q \<or> (case (p, q) of (Some (_, e), Some (_, a)) \<Rightarrow> equal e a | _ \<Rightarrow> False))"

definition arrays_bad :: "bool \<Rightarrow> 'd array \<Rightarrow> 'e array \<Rightarrow> ('d list \<Rightarrow> 'e list \<Rightarrow> bool) \<Rightarrow> bool" where
  "arrays_bad pointless p q unequal \<longleftrightarrow> pointless \<or>
     \<not> same_pointer p q \<and> (case (p, q) of (Some (_, e), Some (_, a)) \<Rightarrow> unequal e a | _ \<Rightarrow> True)"

lemma one_null_run:
  assumes "\<not> same_pointer p q"
  shows "p \<noteq> None \<Longrightarrow> q \<noteq> None \<Longrightarrow> UnityIsOneArrayNull p q line msg u = Ret (False, u)"
    and "p = None \<or> q = None \<Longrightarrow> printable msg \<Longrightarrow> ready u \<Longrightarrow>
      \<exists>t. UnityIsOneArrayNull p q line msg u = Ret (True, emit t u)"
proof -
  show "UnityIsOneArrayNull p q line msg u = Ret (False, u)" if "p \<noteq> None" "q \<noteq> None"
    by (simp only: UnityIsOneArrayNull_def that assms if_False prog_simps)
  assume null: "p = None \<or> q = None" and msg: "printable msg" and u: "ready u"
  have "\<exists>t. bind (do_all [UnityTestResultsFailBegin line, UnityPrint s, UnityAddMsgIfSpecified msg]) (\<lambda>_. ret True) u =
      Ret (True, emit t u)" if "printable s" for s
    using do_all_writes [OF u, of "[UnityTestResultsFailBegin line, UnityPrint s, UnityAddMsgIfSpecified msg]"] that msg
    by (auto simp: writes_intros prog_simps simp del: do_all.simps)
  then show "\<exists>t. UnityIsOneArrayNull p q line msg u = Ret (True, emit t u)"
    using assms null by (auto simp: UnityIsOneArrayNull_def simp del: do_all.simps)
qed

lemma assertion_arrays:
  assumes pass: "\<And>e a u. fresh u \<Longrightarrow> equal e a \<Longrightarrow> loop e a u = Ret (Returned, u)"
    and fail: "\<And>e a u. fresh u \<Longrightarrow> ready u \<Longrightarrow> printable msg \<Longrightarrow> unequal e a \<Longrightarrow>
      \<exists>t. loop e a u = Ret (Aborted, (emit t u)\<lparr>CurrentTestFailed := 1\<rparr>)"
  shows "assertion (RETURN_IF_FAIL_OR_IGNORE (compare_arrays pointless p q line msg loop))
    (arrays_ok pointless p q equal) (arrays_bad pointless p q unequal \<and> printable msg)"
proof
  let ?check = "RETURN_IF_FAIL_OR_IGNORE (compare_arrays pointless p q line msg loop)"
  show "?check u = Ret (Aborted, u)" if "\<not> fresh u" for u
    using that by (simp add: RETURN_IF_FAIL_OR_IGNORE_def fresh_def)
  have run: "?check u = compare_arrays pointless p q line msg loop u" if "fresh u" for u
    using that by (simp add: RETURN_IF_FAIL_OR_IGNORE_def fresh_def)
  show "?check u = Ret (Returned, u)" if "fresh u" "arrays_ok pointless p q equal" for u
    unfolding run [OF that(1)] using that pass [OF that(1)] one_null_run(1) [of p q line msg u]
    by (auto simp: compare_arrays_def arrays_ok_def prog_simps split: option.splits prod.splits)
  show "\<exists>t. ?check u = Ret (Aborted, (emit t u)\<lparr>CurrentTestFailed := 1\<rparr>)"
    if u: "fresh u" "ready u" and bad: "arrays_bad pointless p q unequal \<and> printable msg" for u
  proof (cases pointless)
    case True
    then show ?thesis
      unfolding run [OF u(1)] unfolding compare_arrays_def UnityPrintPointlessAndBail_def
      using fail_with_run [OF _ u(2)] bad by (simp add: writes_intros)
  next
    case False
    then have np: "\<not> same_pointer p q" using bad by (simp add: arrays_bad_def)
    show ?thesis
    proof (cases "p = None \<or> q = None")
      case True
      then show ?thesis
        unfolding run [OF u(1)] using one_null_run(2) [OF np True _ u(2), of msg line] bad np False
        by (auto simp: compare_arrays_def prog_simps UNITY_FAIL_AND_BAIL_def)
    next
      case both: False
      then obtain i e j a where pq: "p = Some (i, e)" "q = Some (j, a)" by (auto simp: prod_eq_iff)
      then show ?thesis
        unfolding run [OF u(1)] using one_null_run(1) [OF np, of line msg u] fail [OF u, of e a] bad np False
        by (simp add: compare_arrays_def prog_simps arrays_bad_def)
    qed
  qed
qed

section \<open>Integers in memory\<close>

definition int_value :: "nat \<Rightarrow> byte list \<Rightarrow> u64" where
  "int_value w bs = word_of_int (signed_take_bit (8 * w - 1) (int (radix_val 256 (map unat (rev (take w bs))))))"

lemma load_int_run: "w \<le> length bs \<Longrightarrow> load_int w bs = Ret (int_value w bs)"
  by (simp add: load_int_def int_value_def)

lemma int_value_eq_iff:
  assumes "0 < w" and "w \<le> 8" and "w \<le> length bs" and "w \<le> length cs"
  shows "int_value w bs = int_value w cs \<longleftrightarrow> take w bs = take w cs"
proof -
  define v where "v bs = radix_val 256 (map unat (rev (take w bs)))" for bs :: "byte list"
  have bound: "v bs < 2 ^ (8 * w)" if "w \<le> length bs" for bs
    using r256.val_bound [of "map unat (rev (take w bs))"] that by (simp add: v_def power_mult)
  have word: "int_value w bs = word_of_int (signed_take_bit (8 * w - 1) (int (v bs)))" for bs
    by (simp add: int_value_def v_def)
  have "min (8 * w - 1) 63 = 8 * w - 1" using assms(2) by simp
  then have signed: "sint (int_value w bs) = signed_take_bit (8 * w - 1) (int (v bs))" for bs
    unfolding word signed_of_int by (simp add: min.commute)
  have self: "take_bit (8 * w) (int (v bs)) = int (v bs)" if "w \<le> length bs" for bs
    using bound [OF that] by (simp add: take_bit_int_eq_self of_nat_less_numeral_power_cancel_iff)
  have "int_value w bs = int_value w cs \<longleftrightarrow> sint (int_value w bs) = sint (int_value w cs)"
    by (auto intro: signed_word_eqI)
  also have "\<dots> \<longleftrightarrow> take_bit (8 * w) (int (v bs)) = take_bit (8 * w) (int (v cs))"
    using assms(1) signed_take_bit_eq_iff_take_bit_eq [of "8 * w - 1" "int (v bs)" "int (v cs)"] by (simp add: signed)
  also have "\<dots> \<longleftrightarrow> v bs = v cs" using self [OF assms(3)] self [OF assms(4)] by simp
  also have "\<dots> \<longleftrightarrow> map unat (rev (take w bs)) = map unat (rev (take w cs))"
    using assms(3,4) r256.val_inj [of "map unat (rev (take w bs))" "map unat (rev (take w cs))"] by (auto simp: v_def)
  finally show ?thesis by simp
qed

lemma element_size_bounds [simp]: "0 < element_size style" "element_size style \<le> 8"
  by (cases style; simp add: element_size_def Let_def)+

text \<open>
  The bytes \<open>n\<close> elements of \<open>w\<close> bytes must have: those of the expected array, or the
  bytes of one expected value over and over.
\<close>

definition wanted :: "bool \<Rightarrow> nat \<Rightarrow> nat \<Rightarrow> byte list \<Rightarrow> byte list" where
  "wanted each n w e = (if each then concat (replicate n (take w e)) else take (n * w) e)"

definition readable :: "bool \<Rightarrow> nat \<Rightarrow> nat \<Rightarrow> byte list \<Rightarrow> byte list \<Rightarrow> bool" where
  "readable each n w e a \<longleftrightarrow> (if each then w else n * w) \<le> length e \<and> n * w \<le> length a"

lemma wanted_simps:
  "wanted each 0 w e = []"
  "wanted each (Suc n) w e = take w e @ wanted each n w (if each then e else drop w e)"
  by (simp_all add: wanted_def take_add)

lemma readable_Suc:
  assumes "readable each (Suc n) w e a"
  shows "w \<le> length e" "w \<le> length a" "readable each n w (if each then e else drop w e) (drop w a)"
  using assms by (auto simp: readable_def split: if_splits)

lemma wanted_Suc_iff:
  assumes "readable each (Suc n) w e a"
  shows "wanted each (Suc n) w e = take (w + n * w) a \<longleftrightarrow>
    take w e = take w a \<and> wanted each n w (if each then e else drop w e) = take (n * w) (drop w a)"
proof -
  have "length (take w e) = length (take w a)" using readable_Suc(1,2) [OF assms] by simp
  then show ?thesis by (simp add: wanted_simps take_add)
qed

lemma int_array_loop_step:
  fixes style flags e a
  defines "w \<equiv> element_size style" and "each \<equiv> flags \<noteq> UNITY_ARRAY_TO_ARRAY"
  assumes "readable each (Suc n) w e a"
  shows "int_array_loop num msg line style flags (Suc n) e a u =
    (if take w e = take w a
     then int_array_loop num msg line style flags n (if each then e else drop w e) (drop w a) u
     else fail_with [UnityTestResultsFailBegin line, UnityPrint UnityStrElement,
           UnityPrintNumberUnsigned (ucast (num - of_nat n - 1)),
           UnityPrint UnityStrExpected, UnityPrintNumberByStyle (remove_sign_extension style (int_value w e)) style,
           UnityPrint UnityStrWas, UnityPrintNumberByStyle (remove_sign_extension style (int_value w a)) style,
           UnityAddMsgIfSpecified msg] u)"
  using readable_Suc(1,2) [OF assms(3)] int_value_eq_iff [of w e a]
  by (auto simp: w_def each_def load_int_run prog_simps)

lemma int_array_loop_pass:
  "readable (flags \<noteq> UNITY_ARRAY_TO_ARRAY) n (element_size style) e a \<Longrightarrow>
   wanted (flags \<noteq> UNITY_ARRAY_TO_ARRAY) n (element_size style) e = take (n * element_size style) a \<Longrightarrow>
   int_array_loop num msg line style flags n e a u = Ret (Returned, u)"
proof (induction n arbitrary: e a)
  case (Suc n)
  then show ?case
    using readable_Suc(3) [OF Suc.prems(1)] by (simp add: int_array_loop_step wanted_Suc_iff del: int_array_loop.simps)
qed (simp add: prog_simps)

lemma int_array_loop_fail:
  "readable (flags \<noteq> UNITY_ARRAY_TO_ARRAY) n (element_size style) e a \<Longrightarrow>
   wanted (flags \<noteq> UNITY_ARRAY_TO_ARRAY) n (element_size style) e \<noteq> take (n * element_size style) a \<Longrightarrow>
   ready u \<Longrightarrow> printable msg \<Longrightarrow>
   \<exists>t. int_array_loop num msg line style flags n e a u = Ret (Aborted, (emit t u)\<lparr>CurrentTestFailed := 1\<rparr>)"
proof (induction n arbitrary: e a)
  case 0
  then show ?case by (simp add: wanted_simps)
next
  case (Suc n)
  show ?case
  proof (cases "take (element_size style) e = take (element_size style) a")
    case True
    then show ?thesis
      using Suc.IH [OF readable_Suc(3) [OF Suc.prems(1)] _ Suc.prems(3,4)] Suc.prems(1,2)
      by (simp add: int_array_loop_step wanted_Suc_iff del: int_array_loop.simps)
  next
    case False
    then show ?thesis
      using fail_with_run [OF _ Suc.prems(3)] Suc.prems(1,4)
      by (simp add: int_array_loop_step writes_intros del: int_array_loop.simps)
  qed
qed

interpretation int_array: assertion "UnityAssertEqualIntArray p q num msg line style flags"
  "arrays_ok (num = 0) p q (\<lambda>e a. readable (flags \<noteq> UNITY_ARRAY_TO_ARRAY) (unat num) (element_size style) e a \<and>
     wanted (flags \<noteq> UNITY_ARRAY_TO_ARRAY) (unat num) (element_size style) e = take (unat num * element_size style) a)"
  "arrays_bad (num = 0) p q (\<lambda>e a. readable (flags \<noteq> UNITY_ARRAY_TO_ARRAY) (unat num) (element_size style) e a \<and>
     wanted (flags \<noteq> UNITY_ARRAY_TO_ARRAY) (unat num) (element_size style) e \<noteq> take (unat num * element_size style) a) \<and>
   printable msg"
  for p q num msg line style flags
  unfolding UnityAssertEqualIntArray_def
  by (rule assertion_arrays; elim conjE; (rule int_array_loop_pass | rule int_array_loop_fail); assumption)

section \<open>Arrays of integers within a distance\<close>

fun int_values :: "bool \<Rightarrow> nat \<Rightarrow> nat \<Rightarrow> byte list \<Rightarrow> u64 list" where
  "int_values each w 0 bs = []"
| "int_values each w (Suc n) bs = int_value w bs # int_values each w n (if each then bs else drop w bs)"

definition near :: "u64 \<Rightarrow> UNITY_DISPLAY_STYLE_T \<Rightarrow> u64 \<Rightarrow> u64 \<Rightarrow> bool" where
  "near delta style x y \<longleftrightarrow> \<bar>style_int style y - style_int style x\<bar> \<le> uint delta"

definition all_within :: "u64 \<Rightarrow> UNITY_DISPLAY_STYLE_T \<Rightarrow> u64 list \<Rightarrow> u64 list \<Rightarrow> bool" where
  "all_within delta style = list_all2 (near delta style)"

lemma within_array_loop_step:
  fixes style flags e a
  defines "w \<equiv> element_size style" and "each \<equiv> flags \<noteq> UNITY_ARRAY_TO_ARRAY"
  assumes "readable each (Suc n) w e a" and "fresh u"
  shows "within_array_loop delta num msg line style flags (Suc n) e a u =
    (if near delta style (int_value w e) (int_value w a)
     then within_array_loop delta num msg line style flags n (if each then e else drop w e) (drop w a) u
     else fail_with [UnityTestResultsFailBegin line, UnityPrint UnityStrDelta, UnityPrintNumberByStyle delta style,
           UnityPrint UnityStrElement, UnityPrintNumberUnsigned (ucast (num - of_nat n - 1)),
           UnityPrint UnityStrExpected, UnityPrintNumberByStyle (remove_sign_extension style (int_value w e)) style,
           UnityPrint UnityStrWas, UnityPrintNumberByStyle (remove_sign_extension style (int_value w a)) style,
           UnityAddMsgIfSpecified msg] (u\<lparr>CurrentTestFailed := 1\<rparr>))"
proof -
  have "beyond_delta delta (int_value w e) (int_value w a) style \<longleftrightarrow> \<not> near delta style (int_value w e) (int_value w a)"
    unfolding beyond_delta_iff near_def by (rule not_le [symmetric])
  then show ?thesis
    using readable_Suc(1,2) [OF assms(3)]
    by (cases "near delta style (int_value w e) (int_value w a)")
      (simp_all add: w_def each_def load_int_run prog_simps fresh_flag [OF assms(4)] assms(4) [unfolded fresh_def])
qed

lemma within_array_loop_pass:
  "readable (flags \<noteq> UNITY_ARRAY_TO_ARRAY) n (element_size style) e a \<Longrightarrow> fresh u \<Longrightarrow>
   all_within delta style (int_values (flags \<noteq> UNITY_ARRAY_TO_ARRAY) (element_size style) n e)
     (int_values False (element_size style) n a) \<Longrightarrow>
   within_array_loop delta num msg line style flags n e a u = Ret (Returned, u)"
proof (induction n arbitrary: e a)
  case 0
  then show ?case by (simp add: prog_simps)
next
  case (Suc n)
  let ?w = "element_size style" and ?each = "flags \<noteq> UNITY_ARRAY_TO_ARRAY"
  have near: "near delta style (int_value ?w e) (int_value ?w a)"
    and rest: "all_within delta style (int_values ?each ?w n (if ?each then e else drop ?w e)) (int_values False ?w n (drop ?w a))"
    using Suc.prems(3) by (simp_all only: all_within_def int_values.simps list.rel_inject if_False simp_thms)
  show ?case
    unfolding within_array_loop_step [OF Suc.prems(1,2)] if_P [OF near]
    by (rule Suc.IH [OF readable_Suc(3) [OF Suc.prems(1)] Suc.prems(2) rest])
qed

lemma within_array_loop_fail:
  "readable (flags \<noteq> UNITY_ARRAY_TO_ARRAY) n (element_size style) e a \<Longrightarrow> fresh u \<Longrightarrow>
   \<not> all_within delta style (int_values (flags \<noteq> UNITY_ARRAY_TO_ARRAY) (element_size style) n e)
     (int_values False (element_size style) n a) \<Longrightarrow> ready u \<Longrightarrow> printable msg \<Longrightarrow>
   \<exists>t. within_array_loop delta num msg line style flags n e a u = Ret (Aborted, (emit t u)\<lparr>CurrentTestFailed := 1\<rparr>)"
proof (induction n arbitrary: e a)
  case 0
  then show ?case by (simp add: all_within_def)
next
  case (Suc n)
  let ?w = "element_size style" and ?each = "flags \<noteq> UNITY_ARRAY_TO_ARRAY"
  show ?case
  proof (cases "near delta style (int_value ?w e) (int_value ?w a)")
    case True
    have "\<not> all_within delta style (int_values ?each ?w n (if ?each then e else drop ?w e)) (int_values False ?w n (drop ?w a))"
      using Suc.prems(3) True by (simp only: all_within_def int_values.simps list.rel_inject if_False simp_thms)
    then show ?thesis
      unfolding within_array_loop_step [OF Suc.prems(1,2)] if_P [OF True]
      by (rule Suc.IH [OF readable_Suc(3) [OF Suc.prems(1)] Suc.prems(2) _ Suc.prems(4,5)])
  next
    case False
    show ?thesis
      unfolding within_array_loop_step [OF Suc.prems(1,2)] if_not_P [OF False]
      by (rule fail_with_flag [OF _ Suc.prems(4)]) (simp add: writes_intros Suc.prems(5))
  qed
qed

interpretation within_array: assertion "UnityAssertNumbersArrayWithin delta p q num msg line style flags"
  "arrays_ok (num = 0) p q (\<lambda>e a. readable (flags \<noteq> UNITY_ARRAY_TO_ARRAY) (unat num) (element_size style) e a \<and>
     all_within delta style (int_values (flags \<noteq> UNITY_ARRAY_TO_ARRAY) (element_size style) (unat num) e)
       (int_values False (element_size style) (unat num) a))"
  "arrays_bad (num = 0) p q (\<lambda>e a. readable (flags \<noteq> UNITY_ARRAY_TO_ARRAY) (unat num) (element_size style) e a \<and>
     \<not> all_within delta style (int_values (flags \<noteq> UNITY_ARRAY_TO_ARRAY) (element_size style) (unat num) e)
       (int_values False (element_size style) (unat num) a)) \<and> printable msg"
  for delta p q num msg line style flags
  unfolding UnityAssertNumbersArrayWithin_def
  by (rule assertion_arrays; elim conjE; (rule within_array_loop_pass | rule within_array_loop_fail); assumption)

section \<open>Memory\<close>

lemma bytes_loop_run:
  assumes "n \<le> length e" and "n \<le> length a"
  shows "take n e = take n a \<Longrightarrow> bytes_loop n e a = Ret (None, drop n e, drop n a)"
    and "take n e \<noteq> take n a \<Longrightarrow> \<exists>d e' a'. bytes_loop n e a = Ret (Some d, e', a')"
  using assms by (induction n e a rule: bytes_loop.induct) auto

lemma memory_loop_step:
  assumes "readable (flags = UNITY_ARRAY_TO_VAL) (Suc n) (unat len) e a" and "flags = UNITY_ARRAY_TO_VAL \<longrightarrow> e = expected"
    and "take (unat len) e = take (unat len) a"
  shows "memory_loop len num msg line flags expected (Suc n) e a u =
    memory_loop len num msg line flags expected n
      (if flags = UNITY_ARRAY_TO_VAL then e else drop (unat len) e) (drop (unat len) a) u"
  using bytes_loop_run(1) [OF readable_Suc(1,2) [OF assms(1)] assms(3)] assms(2)
  by (cases "flags = UNITY_ARRAY_TO_VAL") (simp_all add: prog_simps)

lemma memory_loop_pass:
  "readable (flags = UNITY_ARRAY_TO_VAL) n (unat len) e a \<Longrightarrow> flags = UNITY_ARRAY_TO_VAL \<longrightarrow> e = expected \<Longrightarrow>
   wanted (flags = UNITY_ARRAY_TO_VAL) n (unat len) e = take (n * unat len) a \<Longrightarrow>
   memory_loop len num msg line flags expected n e a u = Ret (Returned, u)"
proof (induction n arbitrary: e a)
  case 0
  then show ?case by (simp add: prog_simps)
next
  case (Suc n)
  let ?each = "flags = UNITY_ARRAY_TO_VAL" and ?w = "unat len"
  have eq: "take ?w e = take ?w a" "wanted ?each n ?w (if ?each then e else drop ?w e) = take (n * ?w) (drop ?w a)"
    using wanted_Suc_iff [OF Suc.prems(1)] Suc.prems(3) by simp_all
  have "memory_loop len num msg line flags expected n (if ?each then e else drop ?w e) (drop ?w a) u = Ret (Returned, u)"
    using Suc.prems(2) by (intro Suc.IH [OF readable_Suc(3) [OF Suc.prems(1)] _ eq(2)]) simp
  then show ?case unfolding memory_loop_step [OF Suc.prems(1,2) eq(1)] .
qed

lemma memory_loop_fail:
  "readable (flags = UNITY_ARRAY_TO_VAL) n (unat len) e a \<Longrightarrow> flags = UNITY_ARRAY_TO_VAL \<longrightarrow> e = expected \<Longrightarrow>
   wanted (flags = UNITY_ARRAY_TO_VAL) n (unat len) e \<noteq> take (n * unat len) a \<Longrightarrow> ready u \<Longrightarrow> printable msg \<Longrightarrow>
   \<exists>t. memory_loop len num msg line flags expected n e a u = Ret (Aborted, (emit t u)\<lparr>CurrentTestFailed := 1\<rparr>)"
proof (induction n arbitrary: e a)
  case 0
  then show ?case by (simp add: wanted_simps)
next
  case (Suc n)
  let ?each = "flags = UNITY_ARRAY_TO_VAL" and ?w = "unat len"
  show ?case
  proof (cases "take ?w e = take ?w a")
    case True
    then have "wanted ?each n ?w (if ?each then e else drop ?w e) \<noteq> take (n * ?w) (drop ?w a)"
      using wanted_Suc_iff [OF Suc.prems(1)] Suc.prems(3) by simp
    then have "\<exists>t. memory_loop len num msg line flags expected n (if ?each then e else drop ?w e) (drop ?w a) u =
        Ret (Aborted, (emit t u)\<lparr>CurrentTestFailed := 1\<rparr>)"
      using Suc.prems(2) by (intro Suc.IH [OF readable_Suc(3) [OF Suc.prems(1)] _ _ Suc.prems(4,5)]) simp_all
    then show ?thesis unfolding memory_loop_step [OF Suc.prems(1,2) True] .
  next
    case False
    then obtain d e' a' where d: "bytes_loop ?w e a = Ret (Some d, e', a')"
      using bytes_loop_run(2) [OF readable_Suc(1,2) [OF Suc.prems(1)]] by blast
    obtain k x y where "d = (k, x, y)" by (cases d)
    then show ?thesis
      by (simp only: memory_loop.simps prog_simps d bind_o_simps case_prod_conv option.case)
        (rule fail_with_run [OF _ Suc.prems(4)], simp add: writes_intros Suc.prems(5) del: do_all.simps)
  qed
qed

interpretation memory: assertion "UnityAssertEqualMemory p q len num msg line flags"
  "arrays_ok (num = 0 \<or> len = 0) p q (\<lambda>e a. readable (flags = UNITY_ARRAY_TO_VAL) (unat num) (unat len) e a \<and>
     wanted (flags = UNITY_ARRAY_TO_VAL) (unat num) (unat len) e = take (unat num * unat len) a)"
  "arrays_bad (num = 0 \<or> len = 0) p q (\<lambda>e a. readable (flags = UNITY_ARRAY_TO_VAL) (unat num) (unat len) e a \<and>
     wanted (flags = UNITY_ARRAY_TO_VAL) (unat num) (unat len) e \<noteq> take (unat num * unat len) a) \<and> printable msg"
  for p q len num msg line flags
  unfolding UnityAssertEqualMemory_def
  by (rule assertion_arrays; elim conjE; (rule memory_loop_pass | rule memory_loop_fail); (assumption | rule impI refl)+)

end
