(* ===== verification/Unity_Strings.thy ===== *)
theory Unity_Strings
  imports Unity_Arrays
begin

text \<open>
  The contracts of the assertions on strings. The plain comparison counts characters with
  a 32-bit index; the comparison of a given length may be used on arrays without a NUL.
\<close>

section \<open>Strings\<close>

lemma c_str_nth: "i < length (c_str s) \<Longrightarrow> s ! i = c_str s ! i \<and> c_str s ! i \<noteq> 0"
  by (metis c_str_prefix nth_append nth_mem zero_notin_c_str)

lemma c_str_end: "terminated s \<Longrightarrow> length (c_str s) < length s \<and> s ! length (c_str s) = 0"
  unfolding terminated_def by (induction s) (auto split: if_splits)

text \<open>
  The common prefix of two strings has been passed: the loop returns, with a difference
  exactly when the strings differ. The index does not wrap below 4294967296 characters.
\<close>

lemma string_loop_run:
  assumes e: "terminated e" and a: "terminated a" and "length (c_str e) < 4294967296"
    and "unat i \<le> length (c_str e)" and "take (unat i) (c_str e) = take (unat i) (c_str a)" and "unat i \<le> length (c_str a)"
  shows "string_loop e a i = Some (Ret (c_str e \<noteq> c_str a))"
  using assms(4-6)
proof (induction "length (c_str e) - unat i" arbitrary: i rule: less_induct)
  case less
  let ?i = "unat i"
  have in_e: "?i < length e" and in_a: "?i < length a" using c_str_end [OF e] c_str_end [OF a] less.prems by linarith+
  show ?case
  proof (cases "?i < length (c_str e) \<and> ?i < length (c_str a) \<and> c_str e ! ?i = c_str a ! ?i")
    case True
    then have step: "unat (i + 1) = Suc ?i" using assms(3) by (simp add: unat_word_ariths)
    have "take (Suc ?i) (c_str e) = take (Suc ?i) (c_str a)" using True less.prems(2) by (simp add: take_Suc_snoc)
    then have "string_loop e a (i + 1) = Some (Ret (c_str e \<noteq> c_str a))"
      using less.hyps [of "i + 1"] True step diff_less_mono2 [of ?i "Suc ?i" "length (c_str e)"] by simp
    moreover have "e ! ?i = a ! ?i" "e ! ?i \<noteq> 0" using True c_str_nth by metis+
    ultimately show ?thesis using in_e in_a by (subst string_loop.simps) simp
  next
    case False
    have e_nth: "e ! ?i = (if ?i < length (c_str e) then c_str e ! ?i else 0)"
      and a_nth: "a ! ?i = (if ?i < length (c_str a) then c_str a ! ?i else 0)"
      using c_str_nth [of ?i e] c_str_nth [of ?i a] c_str_end [OF e] c_str_end [OF a] less.prems(1,3)
      by (auto simp: le_less)
    show ?thesis
    proof (cases "?i = length (c_str e) \<and> ?i = length (c_str a)")
      case True
      then have "c_str e = c_str a" using less.prems(2) by simp
      then show ?thesis using True in_e in_a e_nth a_nth by (subst string_loop.simps) simp
    next
      case ne: False
      have "e ! ?i \<noteq> a ! ?i" using False ne e_nth a_nth less.prems(1,3) c_str_nth [of ?i e] c_str_nth [of ?i a] by auto
      moreover have "c_str e \<noteq> c_str a" using False ne less.prems(1,3) by auto
      ultimately show ?thesis using in_e in_a by (subst string_loop.simps) (auto simp: Let_def)
    qed
  qed
qed

text \<open>A difference is never found in the first 4294967296 characters if there is none.\<close>

lemma string_loop_diverges:
  assumes "\<forall>k < 4294967296. k < length e \<and> k < length a \<and> e ! k = a ! k \<and> e ! k \<noteq> 0"
  shows "string_loop e a i = None"
proof (rule ccontr)
  assume "string_loop e a i \<noteq> None"
  then obtain r where r: "string_loop e a i = Some r" by auto
  have "(\<forall>k < 4294967296. k < length e \<and> k < length a \<and> e ! k = a ! k \<and> e ! k \<noteq> 0) \<longrightarrow> False"
  proof (rule string_loop.raw_induct [where P = "\<lambda>e a i r.
      (\<forall>k < 4294967296. k < length e \<and> k < length a \<and> e ! k = a ! k \<and> e ! k \<noteq> 0) \<longrightarrow> False", OF _ r])
    fix f :: "byte list \<Rightarrow> byte list \<Rightarrow> u32 \<Rightarrow> bool outcome option" and e a :: "byte list" and i :: u32 and r
    assume IH: "\<And>e a i r. f e a i = Some r \<Longrightarrow>
        (\<forall>k < 4294967296. k < length e \<and> k < length a \<and> e ! k = a ! k \<and> e ! k \<noteq> 0) \<longrightarrow> False"
      and eq: "(if unat i < length e \<and> unat i < length a
        then let x = e ! unat i; y = a ! unat i
             in if x \<noteq> 0 \<or> y \<noteq> 0 then if x \<noteq> y then Some (Ret True) else f e a (i + 1) else Some (Ret False)
        else Some (Fault Out_Of_Bounds)) = Some r"
    show "(\<forall>k < 4294967296. k < length e \<and> k < length a \<and> e ! k = a ! k \<and> e ! k \<noteq> 0) \<longrightarrow> False"
    proof
      assume all: "\<forall>k < 4294967296. k < length e \<and> k < length a \<and> e ! k = a ! k \<and> e ! k \<noteq> 0"
      then have "unat i < length e" "unat i < length a" "a ! unat i \<noteq> 0" "e ! unat i = a ! unat i"
        using unat_u32_less [of i] by metis+
      then have "f e a (i + 1) = Some r" using eq by (simp only: Let_def simp_thms if_True if_False)
      then show False using IH all by blast
    qed
  qed
  with assms show False by blast
qed

definition valid_string :: "cstring \<Rightarrow> bool" where
  "valid_string p \<longleftrightarrow> (case p of None \<Rightarrow> True | Some s \<Rightarrow> terminated s \<and> length (c_str s) < 4294967296)"

definition same_string :: "cstring \<Rightarrow> cstring \<Rightarrow> bool" where
  "same_string p q \<longleftrightarrow> map_option c_str p = map_option c_str q"

lemma strings_differ_run:
  assumes "valid_string p" and "valid_string q"
  shows "strings_differ p q u = Ret (\<not> same_string p q, u)"
proof (cases "p = None \<or> q = None")
  case True
  then show ?thesis by (auto simp: strings_differ_def same_string_def split: option.splits)
next
  case False
  then obtain e a where "p = Some e" "q = Some a" by auto
  then show ?thesis
    using assms string_loop_run [of e a 0]
    by (simp add: strings_differ_def same_string_def valid_string_def prog_simps)
qed

text \<open>The last part of the string assertions: the mark of a failure, then the report.\<close>

lemma flagged_run:
  assumes "fresh u"
  shows "(let u' = (if d then u\<lparr>CurrentTestFailed := 1\<rparr> else u)
      in if CurrentTestFailed u' \<noteq> 0 then f u' else g u') = (if d then f (u\<lparr>CurrentTestFailed := 1\<rparr>) else g u)"
  using assms by (simp add: fresh_def)

interpretation equal_string: assertion "UnityAssertEqualString p q msg line"
  "valid_string p \<and> valid_string q \<and> same_string p q"
  "valid_string p \<and> valid_string q \<and> \<not> same_string p q \<and> printable p \<and> printable q \<and> printable msg" for p q msg line
proof
  let ?check = "UnityAssertEqualString p q msg line"
  let ?ps = "[UnityTestResultsFailBegin line, UnityPrintExpectedAndActualStrings p q, UnityAddMsgIfSpecified msg]"
  show "?check u = Ret (Aborted, u)" if "\<not> fresh u" for u
    using that by (simp add: UnityAssertEqualString_def RETURN_IF_FAIL_OR_IGNORE_def fresh_def)
  have run: "?check u = (if \<not> same_string p q then fail_with ?ps (u\<lparr>CurrentTestFailed := 1\<rparr>) else Ret (Returned, u))"
    if "fresh u" "valid_string p" "valid_string q" for u
    using that(1) unfolding UnityAssertEqualString_def RETURN_IF_FAIL_OR_IGNORE_def
    by (simp only: prog_simps strings_differ_run [OF that(2,3)] bind_o_simps case_prod_conv flagged_run [OF that(1)])
      (simp add: fresh_def)
  show "?check u = Ret (Returned, u)" if "fresh u" "valid_string p \<and> valid_string q \<and> same_string p q" for u
    using run [OF that(1)] that(2) by simp
  show "\<exists>t. ?check u = Ret (Aborted, (emit t u)\<lparr>CurrentTestFailed := 1\<rparr>)"
    if "fresh u" "ready u"
      "valid_string p \<and> valid_string q \<and> \<not> same_string p q \<and> printable p \<and> printable q \<and> printable msg" for u
    using run [OF that(1)] that(3) fail_with_flag [of ?ps u 1] that(2) by (simp add: writes_intros)
qed

section \<open>Strings of a given length\<close>

definition covers :: "u32 \<Rightarrow> cstring \<Rightarrow> bool" where
  "covers len p \<longleftrightarrow> (case p of None \<Rightarrow> True | Some s \<Rightarrow> terminated s \<or> unat len \<le> length s)"

definition same_string_len :: "u32 \<Rightarrow> cstring \<Rightarrow> cstring \<Rightarrow> bool" where
  "same_string_len len p q \<longleftrightarrow>
     map_option (\<lambda>s. c_str (take (unat len) s)) p = map_option (\<lambda>s. c_str (take (unat len) s)) q"

lemma string_len_loop_run:
  "terminated e \<or> n \<le> length e \<Longrightarrow> terminated a \<or> n \<le> length a \<Longrightarrow>
   string_len_loop n e a = Ret (c_str (take n e) \<noteq> c_str (take n a))"
  by (induction n e a rule: string_len_loop.induct) (auto simp: terminated_def)

lemma writes_len:
  assumes "\<And>s. p = Some s \<Longrightarrow> terminated s \<or> unat len < length s" and "\<And>s. q = Some s \<Longrightarrow> terminated s \<or> unat len < length s"
  shows "writes (UnityPrintExpectedAndActualStringsLen p q len)"
proof -
  have "writes (UnityPrintLen r len)" if "\<And>s. r = Some s \<Longrightarrow> terminated s \<or> unat len < length s" for r
  proof (cases r)
    case None
    then show ?thesis by (simp add: UnityPrintLen_def writes_basic)
  next
    case (Some s)
    then show ?thesis using that by (auto simp: writes_def UnityPrintLen_run)
  qed
  then have "writes (UnityPrintLen p len)" "writes (UnityPrintLen q len)" using assms by blast+
  then show ?thesis
    unfolding UnityPrintExpectedAndActualStringsLen_def by (simp add: writes_intros del: do_all.simps)
qed

lemma string_len_run:
  assumes "fresh u" and "covers len p" and "covers len q"
  shows "UnityAssertEqualStringLen p q len msg line u =
    (if \<not> same_string_len len p q
     then fail_with [UnityTestResultsFailBegin line, UnityPrintExpectedAndActualStringsLen p q len,
       UnityAddMsgIfSpecified msg] (u\<lparr>CurrentTestFailed := 1\<rparr>)
     else Ret (Returned, u))"
proof -
  have "(case (p, q) of (Some e, Some a) \<Rightarrow> lift (string_len_loop (unat len) e a)
      | _ \<Rightarrow> ret ((p = None) \<noteq> (q = None))) u = Ret (\<not> same_string_len len p q, u)"
    using assms(2,3) string_len_loop_run [of _ "unat len"]
    by (auto simp: covers_def same_string_len_def prog_simps split: option.splits)
  then show ?thesis
    using assms(1) unfolding UnityAssertEqualStringLen_def RETURN_IF_FAIL_OR_IGNORE_def
    by (simp only: prog_simps bind_o_simps case_prod_conv flagged_run [OF assms(1)]) (simp add: fresh_def)
qed

interpretation equal_string_len: assertion "UnityAssertEqualStringLen p q len msg line"
  "covers len p \<and> covers len q \<and> same_string_len len p q"
  "covers len p \<and> covers len q \<and> \<not> same_string_len len p q \<and> printable msg \<and>
   (\<forall>s \<in> set_option p \<union> set_option q. terminated s \<or> unat len < length s)" for p q len msg line
proof
  let ?check = "UnityAssertEqualStringLen p q len msg line"
  show "?check u = Ret (Aborted, u)" if "\<not> fresh u" for u
    using that by (simp add: UnityAssertEqualStringLen_def RETURN_IF_FAIL_OR_IGNORE_def fresh_def)
  show "?check u = Ret (Returned, u)" if "fresh u" "covers len p \<and> covers len q \<and> same_string_len len p q" for u
    using string_len_run [OF that(1)] that(2) by simp
  show "\<exists>t. ?check u = Ret (Aborted, (emit t u)\<lparr>CurrentTestFailed := 1\<rparr>)"
    if u: "fresh u" "ready u" and bad: "covers len p \<and> covers len q \<and> \<not> same_string_len len p q \<and> printable msg \<and>
       (\<forall>s \<in> set_option p \<union> set_option q. terminated s \<or> unat len < length s)" for u
  proof -
    have "writes (UnityPrintExpectedAndActualStringsLen p q len)" using bad by (intro writes_len) auto
    then show ?thesis
      using string_len_run [OF u(1), of len p q msg line] bad u(2)
        fail_with_flag [of "[UnityTestResultsFailBegin line, UnityPrintExpectedAndActualStringsLen p q len,
          UnityAddMsgIfSpecified msg]" u 1]
      by (simp add: writes_intros)
  qed
qed

section \<open>Arrays of strings\<close>

definition strings_at :: "UNITY_FLAGS_T \<Rightarrow> expected_string list \<Rightarrow> cstring list \<Rightarrow> nat \<Rightarrow> (cstring \<times> cstring) option" where
  "strings_at flags e a j =
     (case (expected_at flags e j, array_read a j) of
        (Ret x, Ret y) \<Rightarrow> if valid_string x \<and> valid_string y then Some (x, y) else None
      | _ \<Rightarrow> None)"

definition strings_match :: "UNITY_FLAGS_T \<Rightarrow> expected_string list \<Rightarrow> cstring list \<Rightarrow> nat \<Rightarrow> bool" where
  "strings_match flags e a j \<longleftrightarrow> (\<exists>x y. strings_at flags e a j = Some (x, y) \<and> same_string x y)"

definition strings_clash :: "UNITY_FLAGS_T \<Rightarrow> expected_string list \<Rightarrow> cstring list \<Rightarrow> nat \<Rightarrow> bool" where
  "strings_clash flags e a j \<longleftrightarrow>
     (\<exists>x y. strings_at flags e a j = Some (x, y) \<and> \<not> same_string x y \<and> printable x \<and> printable y)"

lemma string_array_step:
  assumes "fresh u" and "strings_at flags e a (unat num - Suc n) = Some (x, y)"
  shows "string_array_loop num msg line flags (Suc n) e a u =
    (if \<not> same_string x y
     then fail_with [UnityTestResultsFailBegin line,
                  if num > 1
                  then do_all [UnityPrint UnityStrElement, UnityPrintNumberUnsigned (of_nat (unat num - Suc n))] else ret (),
                  UnityPrintExpectedAndActualStrings x y, UnityAddMsgIfSpecified msg] (u\<lparr>CurrentTestFailed := 1\<rparr>)
     else string_array_loop num msg line flags n e a u)"
proof -
  have at: "expected_at flags e (unat num - Suc n) = Ret x" "array_read a (unat num - Suc n) = Ret y"
    and valid: "valid_string x" "valid_string y"
    using assms(2) by (auto simp: strings_at_def split: outcome.splits if_splits)
  show ?thesis
    unfolding string_array_loop.simps Let_def [of "unat num - Suc n"]
    by (simp only: at prog_simps strings_differ_run [OF valid] bind_o_simps case_prod_conv flagged_run [OF assms(1)])
qed

lemma string_array_pass:
  "n \<le> unat num \<Longrightarrow> \<forall>j < unat num. strings_match flags e a j \<Longrightarrow> fresh u \<Longrightarrow>
   string_array_loop num msg line flags n e a u = Ret (Returned, u)"
proof (induction n)
  case (Suc n)
  then obtain x y where "strings_at flags e a (unat num - Suc n) = Some (x, y)" "same_string x y"
    by (metis diff_less less_le_trans strings_match_def zero_less_Suc)
  then show ?case using Suc string_array_step [OF Suc.prems(3)] by (simp del: string_array_loop.simps)
qed (simp add: prog_simps)

lemma string_array_fail:
  "n \<le> unat num \<Longrightarrow> unat num - n \<le> j \<Longrightarrow> j < unat num \<Longrightarrow> \<forall>i < j. strings_match flags e a i \<Longrightarrow>
   strings_clash flags e a j \<Longrightarrow> fresh u \<Longrightarrow> ready u \<Longrightarrow> printable msg \<Longrightarrow>
   \<exists>t. string_array_loop num msg line flags n e a u = Ret (Aborted, (emit t u)\<lparr>CurrentTestFailed := 1\<rparr>)"
proof (induction n)
  case 0
  then show ?case by simp
next
  case (Suc n)
  show ?case
  proof (cases "unat num - Suc n = j")
    case True
    then obtain x y where xy: "strings_at flags e a (unat num - Suc n) = Some (x, y)" and diff: "\<not> same_string x y"
      and print: "printable x" "printable y"
      using Suc.prems(5) by (auto simp: strings_clash_def)
    show ?thesis
      unfolding string_array_step [OF Suc.prems(6) xy] if_P [OF diff]
      by (rule fail_with_flag [OF _ Suc.prems(7)]) (simp add: writes_intros print Suc.prems(8) del: do_all.simps)
  next
    case False
    then obtain x y where xy: "strings_at flags e a (unat num - Suc n) = Some (x, y)" and "same_string x y"
      using Suc.prems(2,4) strings_match_def by (metis le_neq_implies_less)
    then show ?thesis
      using Suc.IH Suc.prems False string_array_step [OF Suc.prems(6) xy] by (simp del: string_array_loop.simps)
  qed
qed

interpretation string_array: assertion "UnityAssertEqualStringArray p q num msg line flags"
  "arrays_ok (num = 0) p q (\<lambda>e a. \<forall>j < unat num. strings_match flags e a j)"
  "arrays_bad (num = 0) p q (\<lambda>e a. \<exists>j < unat num. strings_clash flags e a j \<and> (\<forall>i < j. strings_match flags e a i)) \<and>
   printable msg" for p q num msg line flags
  unfolding UnityAssertEqualStringArray_def
proof (rule assertion_arrays)
  show "string_array_loop num msg line flags (unat num) e a u = Ret (Returned, u)"
    if "fresh u" "\<forall>j < unat num. strings_match flags e a j" for e a u
    using string_array_pass [OF order_refl that(2,1)] .
  show "\<exists>t. string_array_loop num msg line flags (unat num) e a u = Ret (Aborted, (emit t u)\<lparr>CurrentTestFailed := 1\<rparr>)"
    if "fresh u" "ready u" "printable msg" "\<exists>j < unat num. strings_clash flags e a j \<and> (\<forall>i < j. strings_match flags e a i)"
    for e a u
    using that string_array_fail [of "unat num" num] by (metis diff_self_eq_0 le0 order_refl)
qed

end
