(* ===== verification/Unity_Assert_Props.thy ===== *)
theory Unity_Assert_Props
  imports Unity_Strings
begin

text \<open>
  What the assertions of the test framework decide: the conditions they test, stated
  over the numbers, bytes and strings they are given, and where the test or the report
  goes wrong.
\<close>

text \<open>
  An assertion decides a condition in a state: it returns and leaves no trace, or it
  writes a report, marks the test as failed and leaves the test.
\<close>

definition decides :: "(flow, unity) prog \<Rightarrow> bool \<Rightarrow> unity \<Rightarrow> bool" where
  "decides check b u \<longleftrightarrow>
     (if b then check u = Ret (Returned, u)
      else \<exists>t. check u = Ret (Aborted, (emit t u)\<lparr>CurrentTestFailed := 1\<rparr>))"

lemma decidesI:
  assumes "assertion check ok bad" and "fresh u" and "ready u" and "b \<Longrightarrow> ok" and "\<not> b \<Longrightarrow> bad"
  shows "decides check b u"
  using assertion.pass [OF assms(1,2)] assertion.fail [OF assms(1-3)] assms(4,5) by (simp add: decides_def)

text \<open>A state in the first test of a file.\<close>

definition first_test :: unity where
  "first_test = Unity\<lparr>TestFile := literal ''test_client.c'', CurrentTestName := literal ''test_first'', NumberOfTests := 1\<rparr>"

lemma first_test_ready [simp]: "fresh first_test" "ready first_test" "printable (literal ''m'')"
  by (simp_all add: first_test_def Unity_def fresh_def ready_def printable_literal)

text \<open>
  C22: The assertions on numbers decide what they name, on all 64-bit arguments: equality,
  equality of the masked bits, the ordering asked for and the distance, where the
  comparisons and the distance are those of the integers the display style reads the
  arguments as, without overflow.
\<close>

theorem numeric_assertions:
  assumes "fresh u" and "ready u" and "printable msg"
  shows "decides (UnityAssertEqualNumber e a msg line style) (e = a) u \<and>
    decides (UnityAssertBits m e a msg line) (m AND e = m AND a) u \<and>
    decides (UnityAssertGreaterOrLessOrEqualNumber th a compare msg line style)
      (comparison_holds compare (style_int style a) (style_int style th)) u \<and>
    decides (UnityAssertNumbersWithin delta e a msg line style)
      (\<bar>style_int style a - style_int style e\<bar> \<le> uint delta) u"
  using assms
  by (intro conjI decidesI [OF equal_number.assertion_axioms] decidesI [OF bits.assertion_axioms]
      decidesI [OF comparison.assertion_axioms] decidesI [OF within.assertion_axioms]) simp_all

theorem numeric_assertions_witness:
  "decides (UnityAssertNumbersWithin 1 127 128 (literal ''m'') 7 UNITY_DISPLAY_STYLE_UINT8) True first_test"
  using numeric_assertions [of first_test "literal ''m''" 127 128 7 UNITY_DISPLAY_STYLE_UINT8 0 0 UNITY_WITHIN 1]
  by (simp add: style_int_def is_int_def)





text \<open>
  C36: The distance of unsigned array elements is wrong: 8-bit elements are sign-extended
  before they are compared as unsigned numbers, so that an expected value below 128 and
  an actual value from 128 on count as far apart, however close they are. The
  assertion on two single numbers accepts the same values.
\<close>

theorem within_array_unsigned:
  assumes "fresh u" and "ready u" and "printable msg" and "i \<noteq> j" and "x < 128" and "128 \<le> y"
    and "uint delta < 18446744073709551361"
  shows "decides (UnityAssertNumbersArrayWithin delta (Some (i, [x])) (Some (j, [y])) 1 msg line
      UNITY_DISPLAY_STYLE_UINT8 flags) False u"
proof -
  have x: "int_value 1 [x] = word_of_int (uint x)" and y: "int_value 1 [y] = word_of_int (uint y - 256)"
    using assms(5,6) sint_byte [of x] sint_byte [of y]
    by (simp_all add: int_value_def sint_uint [of x] sint_uint [of y] word_less_def word_le_def flip: uint_nat)
  have b: "uint y < 256" "128 \<le> uint y" "uint x < 128" "0 \<le> uint x"
    using uint_lt2p [of y] assms(5,6) by (simp_all add: word_le_def word_less_def)
  have u: "style_int UNITY_DISPLAY_STYLE_UINT8 (word_of_int k) = k mod 18446744073709551616" for k
    by (simp add: style_int_def is_int_def uint_word_of_int del: word_of_int_uint)
  have ux: "style_int UNITY_DISPLAY_STYLE_UINT8 (int_value 1 [x]) = uint x" using b unfolding x u by simp
  have "(uint y - 256) mod 18446744073709551616 = (uint y - 256 + 18446744073709551616) mod 18446744073709551616"
    by (rule mod_add_self2 [symmetric])
  then have uy: "style_int UNITY_DISPLAY_STYLE_UINT8 (int_value 1 [y]) = uint y + 18446744073709551360"
    using b unfolding y u by simp
  have "\<not> near delta UNITY_DISPLAY_STYLE_UINT8 (int_value 1 [x]) (int_value 1 [y])"
    unfolding near_def ux uy using b assms(7) by simp
  then show ?thesis
    using assms
    by (intro decidesI [OF within_array.assertion_axioms])
      (simp_all add: arrays_bad_def same_pointer_def readable_def element_size_def all_within_def)
qed

theorem within_array_unsigned_witness:
  "decides (UnityAssertNumbersArrayWithin 1 (Some (1, [127])) (Some (2, [128])) 1 (literal ''m'') 9
     UNITY_DISPLAY_STYLE_UINT8 UNITY_ARRAY_TO_ARRAY) False first_test"
  using within_array_unsigned [of first_test "literal ''m''" 1 2 127 128 1 9 UNITY_ARRAY_TO_ARRAY] by simp

lemma int_value_4:
  assumes "length e = 4" and "2147483648 \<le> radix_val 256 (map unat (rev e))"
  shows "unat (int_value 4 e) = 18446744069414584320 + radix_val 256 (map unat (rev e))"
proof -
  let ?v = "radix_val 256 (map unat (rev e))"
  have v: "?v < 4294967296" using r256.val_bound [of "map unat (rev e)"] assms(1) by simp
  have "signed_take_bit 31 (int ?v) = (int ?v + 2147483648) mod 4294967296 - 2147483648"
    by (simp add: signed_take_bit_eq_take_bit_shift take_bit_eq_mod)
  also have "(int ?v + 2147483648) mod 4294967296 = (int ?v - 2147483648) mod 4294967296"
    using minus_mod_self2 [of "int ?v + 2147483648" 4294967296] by simp
  also have "(int ?v - 2147483648) mod 4294967296 = int ?v - 2147483648" using v assms(2) by simp
  finally have "int_value 4 e = word_of_int (int ?v - 4294967296)" using assms(1) by (simp add: int_value_def)
  then have "uint (int_value 4 e) = (int ?v - 4294967296) mod 18446744073709551616"
    by (simp only: uint_word_of_int) simp
  also have "\<dots> = (int ?v - 4294967296 + 18446744073709551616) mod 18446744073709551616"
    by (rule mod_add_self2 [symmetric])
  also have "\<dots> = int ?v + 18446744069414584320" using v by simp
  finally show ?thesis by (simp only: unat_eq_nat_uint)
qed

text \<open>
  C39: A failed comparison of unsigned 32-bit elements reports a wrong expected value when
  the value is 2147483648 or more: the sign extension is removed only below the width of
  \<^verbatim>\<open>int\<close>, although the numbers are printed with 64 bits.
\<close>

theorem uint32_report:
  assumes "fresh u" and "ready u" and "printable msg" and "i \<noteq> j" and "length e = 4" and "length a = 4" and "e \<noteq> a"
    and "2147483648 \<le> radix_val 256 (map unat (rev e))"
  shows "\<exists>before after. UnityAssertEqualIntArray (Some (i, e)) (Some (j, a)) 1 msg line UNITY_DISPLAY_STYLE_UINT32
      UNITY_ARRAY_TO_ARRAY u =
    Ret (Aborted, (emit (before @ decimal (18446744069414584320 + radix_val 256 (map unat (rev e))) @ after) u)
      \<lparr>CurrentTestFailed := 1\<rparr>)"
proof -
  let ?style = "UNITY_DISPLAY_STYLE_UINT32"
  have size: "element_size ?style = 4" by (simp add: element_size_def)
  have same: "remove_sign_extension ?style v = v" for v by (simp add: remove_sign_extension_def size)
  have shown: "number_text (int_value 4 e) ?style = decimal (18446744069414584320 + radix_val 256 (map unat (rev e)))"
    by (simp add: number_text_def is_int_def is_uint_def int_value_4 [OF assms(5,8)])
  obtain t1 where t1: "UnityTestResultsFailBegin line u = Ret ((), emit t1 u)"
    using writes_run [OF writes_reports(2) assms(2)] by blast
  have add: "\<exists>t2. UnityAddMsgIfSpecified msg (emit t u) = Ret ((), emit t2 (emit t u))" for t
    by (rule writes_run [OF writes_reports(4) [OF assms(3)]]) (simp add: assms(2))
  let ?T = "t1 @ text_of UnityStrElement @ decimal (unat (ucast (1 - of_nat 0 - 1 :: u32) :: u64)) @
      text_of UnityStrExpected @ number_text (int_value 4 e) ?style @ text_of UnityStrWas @ number_text (int_value 4 a) ?style"
  have "int_array_loop 1 msg line ?style UNITY_ARRAY_TO_ARRAY (Suc 0) e a u =
      fail_with [UnityTestResultsFailBegin line, UnityPrint UnityStrElement, UnityPrintNumberUnsigned (ucast (1 - of_nat 0 - 1 :: u32)),
        UnityPrint UnityStrExpected, UnityPrintNumberByStyle (int_value 4 e) ?style,
        UnityPrint UnityStrWas, UnityPrintNumberByStyle (int_value 4 a) ?style, UnityAddMsgIfSpecified msg] u"
    using int_array_loop_step [of UNITY_ARRAY_TO_ARRAY 0 ?style e a 1 msg line u] assms(5-7)
    unfolding size same by (simp add: readable_def)
  moreover obtain t2 where "UnityAddMsgIfSpecified msg (emit ?T u) = Ret ((), emit t2 (emit ?T u))" using add by blast
  ultimately have "int_array_loop 1 msg line ?style UNITY_ARRAY_TO_ARRAY (Suc 0) e a u =
      Ret (Aborted, (emit ((t1 @ text_of UnityStrElement @ decimal (unat (ucast (1 - of_nat 0 - 1 :: u32) :: u64)) @
        text_of UnityStrExpected) @ decimal (18446744069414584320 + radix_val 256 (map unat (rev e))) @
        text_of UnityStrWas @ number_text (int_value 4 a) ?style @ t2) u)\<lparr>CurrentTestFailed := 1\<rparr>)"
    by (simp add: fail_with_def prog_simps unity_simps t1 shown UNITY_FAIL_AND_BAIL_def)
  moreover have "UnityAssertEqualIntArray (Some (i, e)) (Some (j, a)) 1 msg line ?style UNITY_ARRAY_TO_ARRAY u =
      int_array_loop 1 msg line ?style UNITY_ARRAY_TO_ARRAY (Suc 0) e a u"
    using assms(1,4) one_null_run(1) [of "Some (i, e)" "Some (j, a)"]
    by (simp add: UnityAssertEqualIntArray_def RETURN_IF_FAIL_OR_IGNORE_def fresh_def compare_arrays_def same_pointer_def prog_simps
        del: int_array_loop.simps)
  ultimately show ?thesis by metis
qed

theorem uint32_report_witness:
  "\<exists>before after. UnityAssertEqualIntArray (Some (1, [255, 255, 255, 255])) (Some (2, [0, 0, 0, 0])) 1 None 9
     UNITY_DISPLAY_STYLE_UINT32 UNITY_ARRAY_TO_ARRAY first_test =
   Ret (Aborted, (emit (before @ decimal 18446744073709551615 @ after) first_test)\<lparr>CurrentTestFailed := 1\<rparr>)"
  using uint32_report [of first_test None 1 2 "[255, 255, 255, 255]" "[0, 0, 0, 0]" 9] by simp



text \<open>
  C37: On strings that agree on their first 4294967296 characters the assertion never
  returns: the 32-bit index wraps around and the comparison starts again.
\<close>

theorem string_assertion_diverges:
  assumes "fresh u" and "\<forall>k < 4294967296. k < length e \<and> k < length a \<and> e ! k = a ! k \<and> e ! k \<noteq> 0"
  shows "UnityAssertEqualString (Some e) (Some a) msg line u = Diverges"
  using assms(1) string_loop_diverges [OF assms(2), of 0]
  by (simp add: UnityAssertEqualString_def RETURN_IF_FAIL_OR_IGNORE_def fresh_def strings_differ_def prog_simps)

theorem string_assertion_diverges_witness:
  "UnityAssertEqualString (Some (replicate 4294967296 97 @ [98, 0])) (Some (replicate 4294967296 97 @ [99, 0])) None 9
     first_test = Diverges"
  using string_assertion_diverges [of first_test "replicate 4294967296 97 @ [98, 0]" "replicate 4294967296 97 @ [99, 0]"]
  by (simp add: nth_append)

text \<open>
  C38: The assertion on strings of a given length allows arrays of exactly that length
  without a NUL, and compares them inside their bounds; when they differ, the report
  reads past the end of the array.
\<close>

theorem string_len_overread:
  assumes "fresh u" and "ready u" and "length e = unat len" and "length a = unat len" and "0 \<notin> set e" and "0 \<notin> set a"
  shows "UnityAssertEqualStringLen (Some e) (Some a) len msg line u =
    (if e = a then Ret (Returned, u) else Fault Out_Of_Bounds)"
proof -
  have t: "\<not> terminated e" using assms(5) by (simp add: terminated_def)
  have run: "UnityAssertEqualStringLen (Some e) (Some a) len msg line u =
    (if e \<noteq> a
     then fail_with [UnityTestResultsFailBegin line, UnityPrintExpectedAndActualStringsLen (Some e) (Some a) len,
       UnityAddMsgIfSpecified msg] (u\<lparr>CurrentTestFailed := 1\<rparr>)
     else Ret (Returned, u))"
    using string_len_run [OF assms(1), of len "Some e" "Some a" msg line] assms(3-6)
    by (simp add: covers_def same_string_len_def c_str_no_nul)
  obtain t1 where t1: "UnityTestResultsFailBegin line (u\<lparr>CurrentTestFailed := 1\<rparr>) = Ret ((), emit t1 (u\<lparr>CurrentTestFailed := 1\<rparr>))"
    using writes_run [OF writes_reports(2), of "u\<lparr>CurrentTestFailed := 1\<rparr>" line] assms(2) by auto
  have "UnityPrintExpectedAndActualStringsLen (Some e) (Some a) len v = Fault Out_Of_Bounds" for v
    unfolding UnityPrintExpectedAndActualStringsLen_def
    using t assms(3) by (simp add: prog_simps unity_simps UnityPrintLen_run)
  then show ?thesis
    unfolding run by (simp add: fail_with_def prog_simps t1)
qed

theorem string_len_overread_witness:
  "UnityAssertEqualStringLen (Some [97, 98]) (Some [97, 99]) 2 None 9 first_test = Fault Out_Of_Bounds"
  using string_len_overread [of first_test "[97, 98]" 2 "[97, 99]" None 9] by simp

end
