(* ===== verification/Unity_Run.thy ===== *)
theory Unity_Run
  imports Unity_Strings
begin

text \<open>
  Running a suite of tests with \<^verbatim>\<open>test-framework/unity.c\<close>. A test, \<^verbatim>\<open>setUp\<close> and \<^verbatim>\<open>tearDown\<close> are
  programs of the caller; \<^verbatim>\<open>TEST_PROTECT\<close> catches the \<^verbatim>\<open>longjmp\<close> of an assertion, so that the
  runner goes on after them whether they returned or were left. Only the runner changes
  the counters: every function a test can call is shown to keep them.
\<close>

section \<open>Operations\<close>

definition UnityConcludeTest :: "(unit, unity) prog" where
  "UnityConcludeTest u =
     bind_o
       (if CurrentTestIgnored u \<noteq> 0 then Ret ((), u\<lparr>TestIgnores := TestIgnores u + 1\<rparr>)
        else if CurrentTestFailed u = 0 then
          do_all [UnityTestResultsBegin (TestFile u) (CurrentTestLineNumber u), UnityPrint UnityStrPass] u
        else Ret ((), u\<lparr>TestFailures := TestFailures u + 1\<rparr>))
       (\<lambda>(_, u). put_char 10 (u\<lparr>CurrentTestFailed := 0, CurrentTestIgnored := 0\<rparr>))"

definition UnityDefaultTestRun ::
  "(flow, unity) prog \<Rightarrow> (flow, unity) prog \<Rightarrow> (flow, unity) prog \<Rightarrow> cstring \<Rightarrow> u32 \<Rightarrow> (unit, unity) prog" where
  "UnityDefaultTestRun setUp tearDown test FuncName FuncLineNum u =
     bind (and_then setUp test) (\<lambda>_. bind tearDown (\<lambda>_. UnityConcludeTest))
       (u\<lparr>CurrentTestName := FuncName, CurrentTestLineNumber := scast FuncLineNum,
          NumberOfTests := NumberOfTests u + 1, CurrentDetail1 := None, CurrentDetail2 := None\<rparr>)"

definition UnitySetTestFile :: "cstring \<Rightarrow> (unit, unity) prog" where
  "UnitySetTestFile filename u = Ret ((), u\<lparr>TestFile := filename\<rparr>)"

definition UnityBegin :: "cstring \<Rightarrow> (unit, unity) prog" where
  "UnityBegin filename u =
     Ret ((), u\<lparr>TestFile := filename, CurrentTestName := None, CurrentTestLineNumber := 0, NumberOfTests := 0,
       TestFailures := 0, TestIgnores := 0, CurrentTestFailed := 0, CurrentTestIgnored := 0,
       CurrentDetail1 := None, CurrentDetail2 := None\<rparr>)"

definition UnityEnd :: "(int, unity) prog" where
  "UnityEnd u =
     bind
       (do_all
         [put_char 10, UnityPrint UnityStrBreaker, put_char 10,
          UnityPrintNumber (NumberOfTests u), UnityPrint UnityStrResultsTests,
          UnityPrintNumber (TestFailures u), UnityPrint UnityStrResultsFailures,
          UnityPrintNumber (TestIgnores u), UnityPrint UnityStrResultsIgnored, put_char 10,
          UnityPrint (if TestFailures u = 0 then UnityStrOk else UnityStrFail), put_char 10])
       (\<lambda>_ u. Ret (sint (ucast (TestFailures u) :: u32), u)) u"

section \<open>The counters\<close>

definition counters :: "unity \<Rightarrow> u64 \<times> u64 \<times> u64" where
  "counters u = (NumberOfTests u, TestFailures u, TestIgnores u)"

text \<open>Programs that leave the counters alone.\<close>

definition keeps :: "('a, unity) prog \<Rightarrow> bool" where
  "keeps p \<longleftrightarrow> (\<forall>u r u'. p u = Ret (r, u') \<longrightarrow> counters u' = counters u)"

named_theorems keeps_intros \<open>programs that leave the counters alone\<close>

lemma counters_emit [simp]: "counters (emit t u) = counters u"
  by (simp add: counters_def)

lemma counters_flags [simp]:
  "counters (u\<lparr>CurrentTestFailed := x\<rparr>) = counters u" "counters (u\<lparr>CurrentTestIgnored := x\<rparr>) = counters u"
  by (simp_all add: counters_def)

lemma keepsD: "keeps p \<Longrightarrow> p u = Ret (r, u') \<Longrightarrow> counters u' = counters u"
  by (simp add: keeps_def)

lemma keeps_basic [keeps_intros]:
  "keeps (ret x)" "keeps (fault f)" "keeps (lift r)" "keeps (put_char c)" "keeps (UnityPrintNumber n)"
  "keeps (UnityPrintNumberUnsigned n)" "keeps (UnityPrintNumberByStyle n style)" "keeps (UnityPrintMask m n)"
  "keeps UNITY_FAIL_AND_BAIL" "keeps UNITY_IGNORE_AND_BAIL"
  by (auto simp: keeps_def prog_simps unity_simps lift_eq_Ret UNITY_FAIL_AND_BAIL_def UNITY_IGNORE_AND_BAIL_def)

lemma keeps_bind [keeps_intros]: "keeps p \<Longrightarrow> (\<And>x. keeps (q x)) \<Longrightarrow> keeps (bind p q)"
proof -
  assume p: "keeps p" and q: "\<And>x. keeps (q x)"
  have "counters u' = counters u" if run: "bind p q u = Ret (r, u')" for u r u'
  proof -
    obtain x v where "p u = Ret (x, v)" "q x v = Ret (r, u')" using run by (auto simp: prog_simps bind_o_eq_Ret)
    then show ?thesis using keepsD [OF p] keepsD [OF q] by metis
  qed
  then show ?thesis by (simp add: keeps_def)
qed

lemma keeps_if [keeps_intros]: "(b \<Longrightarrow> keeps p) \<Longrightarrow> (\<not> b \<Longrightarrow> keeps q) \<Longrightarrow> keeps (if b then p else q)"
  by simp

lemma keeps_do_all [keeps_intros]: "list_all keeps ps \<Longrightarrow> keeps (do_all ps)"
  by (induction ps) (simp_all add: keeps_intros)

lemma keeps_state: "(\<And>u. keeps (p u)) \<Longrightarrow> keeps (\<lambda>u. p u u)"
  unfolding keeps_def by blast

lemma keeps_ansi: "keeps (UnityPrintAnsiEscapeString s)"
proof -
  have "keeps (ansi_loop t k)" for t k by (induction t arbitrary: k) (simp_all add: keeps_intros)
  then show ?thesis unfolding UnityPrintAnsiEscapeString_def by (intro keeps_intros)
qed

lemma keeps_print_loop: "print_loop s u = Ret (r, u') \<Longrightarrow> counters u' = counters u"
proof (induction "length s" arbitrary: s u rule: less_induct)
  case less
  show ?case
  proof (cases s)
    case Nil
    then show ?thesis using less.prems by (simp add: print_loop.simps)
  next
    case s: (Cons c cs)
    consider "c = 0" | (esc) "c = 27" "take 1 cs = [91]" | (none) "c = 27" "cs = []"
      | (char) "c \<noteq> 0" "\<not> (c = 27 \<and> take 1 cs = [91])" "\<not> (c = 27 \<and> cs = [])" by blast
    then show ?thesis
    proof cases
      case 1
      then show ?thesis using less.prems s by (simp add: print_loop_Cons)
    next
      case esc
      then obtain cs' where "cs = 91 # cs'" by (cases cs) auto
      then obtain n v where nv: "UnityPrintAnsiEscapeString s u = Ret (n, v)" "print_loop (drop n s) v = Ret (r, u')"
        using less.prems s esc by (auto simp: print_loop_Cons bind_o_eq_Ret)
      then have "counters u' = counters v" using less.hyps [OF _ nv(2)] ansi_count [OF nv(1)] s by simp
      then show ?thesis using keepsD [OF keeps_ansi nv(1)] by simp
    next
      case none
      then show ?thesis using less.prems s by (simp add: print_loop_Cons)
    next
      case char
      then have "print_loop cs (emit (shown c) u) = Ret (r, u')"
        using less.prems s by (cases cs) (auto simp: print_loop_Cons unity_simps split: if_splits)
      then show ?thesis using less.hyps [of cs "emit (shown c) u"] s by simp
    qed
  qed
qed

lemma keeps_UnityPrint [keeps_intros]: "keeps (UnityPrint p)"
  unfolding UnityPrint_def using keeps_print_loop by (cases p) (auto simp: keeps_def prog_simps)

lemma keeps_UnityPrintLen [keeps_intros]: "keeps (UnityPrintLen p len)"
  by (cases p) (auto simp: keeps_def UnityPrintLen_run prog_simps UnityPrintLen_def [of None] split: if_splits)

lemma keeps_reports [keeps_intros]:
  "keeps (UnityTestResultsBegin name line)" "keeps (UnityTestResultsFailBegin line)" "keeps print_details"
  "keeps (UnityAddMsgIfSpecified msg)" "keeps (UnityPrintExpectedAndActualStrings e a)"
  "keeps (UnityPrintExpectedAndActualStringsLen e a len)"
proof -
  show results: "keeps (UnityTestResultsBegin name line)" for name line
    unfolding UnityTestResultsBegin_def by (rule keeps_state) (simp add: keeps_intros del: do_all.simps)
  show "keeps (UnityTestResultsFailBegin line)"
    unfolding UnityTestResultsFailBegin_def by (rule keeps_state) (simp add: keeps_intros results del: do_all.simps)
  have eq: "print_details = (\<lambda>u. (if CurrentDetail1 u \<noteq> None then
        do_all
          [UnityPrint UnityStrDetail1Name, UnityPrint (CurrentDetail1 u),
           if CurrentDetail2 u \<noteq> None
           then do_all [UnityPrint UnityStrDetail2Name, UnityPrint (CurrentDetail2 u)] else ret (),
           UnityPrint UnityStrSpacer] else ret ()) u)"
    by (auto simp: fun_eq_iff print_details_def ret_def simp del: do_all.simps)
  show details: "keeps print_details" by (subst eq, rule keeps_state) (simp add: keeps_intros del: do_all.simps)
  show "keeps (UnityAddMsgIfSpecified msg)"
    unfolding UnityAddMsgIfSpecified_def by (simp add: keeps_intros details del: do_all.simps)
  show "keeps (UnityPrintExpectedAndActualStrings e a)" "keeps (UnityPrintExpectedAndActualStringsLen e a len)"
    unfolding UnityPrintExpectedAndActualStrings_def UnityPrintExpectedAndActualStringsLen_def
    by (simp_all add: keeps_intros del: do_all.simps)
qed

lemma keeps_fail_with [keeps_intros]: "list_all keeps ps \<Longrightarrow> keeps (fail_with ps)"
  unfolding fail_with_def by (intro keeps_intros)

lemma keeps_guard [keeps_intros]: "keeps p \<Longrightarrow> keeps (RETURN_IF_FAIL_OR_IGNORE p)"
  by (auto simp: keeps_def RETURN_IF_FAIL_OR_IGNORE_def)

lemma keeps_update:
  assumes "keeps p" and "keeps q" and "\<And>u. counters (f u) = counters u"
  shows "keeps (\<lambda>u. let u' = f u in if b u' then p u' else q u')"
proof -
  have "counters v = counters u" if run: "(let u' = f u in if b u' then p u' else q u') = Ret (r, v)" for u r v
  proof (cases "b (f u)")
    case True
    then have "p (f u) = Ret (r, v)" using run by (simp only: Let_def if_True)
    then show ?thesis using keepsD [OF assms(1)] assms(3) by metis
  next
    case False
    then have "q (f u) = Ret (r, v)" using run by (simp only: Let_def if_False)
    then show ?thesis using keepsD [OF assms(2)] assms(3) by metis
  qed
  then show ?thesis unfolding keeps_def by blast
qed

lemma keeps_flag:
  assumes "keeps p" and "keeps q"
  shows "keeps (\<lambda>u. let u' = (if d then u\<lparr>CurrentTestFailed := 1\<rparr> else u) in if CurrentTestFailed u' \<noteq> 0 then p u' else q u')"
    and "keeps (\<lambda>u. let u' = u\<lparr>CurrentTestFailed := x\<rparr> in if CurrentTestFailed u' \<noteq> 0 then p u' else q u')"
  by (rule keeps_update [OF assms]; simp)+

lemma keeps_Returned: "keeps (\<lambda>u. Ret (Returned, u))"
  by (simp add: keeps_def)

lemma keeps_numbers [keeps_intros]:
  "keeps (UnityAssertBits m e a msg line)" "keeps (UnityAssertEqualNumber e a msg line style)"
  "keeps (UnityAssertGreaterOrLessOrEqualNumber th a compare msg line style)"
  "keeps (UnityAssertNumbersWithin delta e a msg line style)"
  unfolding UnityAssertBits_def UnityAssertEqualNumber_def UnityAssertGreaterOrLessOrEqualNumber_def Let_def
  by (simp_all add: keeps_intros del: do_all.simps)
    (unfold UnityAssertNumbersWithin_def, intro keeps_guard keeps_flag(2) keeps_Returned, simp add: keeps_intros)

lemma keeps_arrays [keeps_intros]: "(\<And>e a. keeps (loop e a)) \<Longrightarrow> keeps (compare_arrays b p q line msg loop)"
  unfolding compare_arrays_def UnityPrintPointlessAndBail_def UnityIsOneArrayNull_def
  by (auto simp: keeps_intros split: option.splits prod.splits simp del: do_all.simps intro!: keeps_intros)

lemma keeps_strings_differ [keeps_intros]: "keeps (strings_differ e a)"
  by (auto simp: keeps_def strings_differ_def lift_eq_Ret split: option.splits)

lemma keeps_loops [keeps_intros]:
  "keeps (int_array_loop num msg line style flags n e a)"
  "keeps (within_array_loop delta num msg line style flags n e a)"
  "keeps (string_array_loop num msg line flags n se sa)"
  "keeps (memory_loop len num msg line flags x n e a)"
proof -
  show "keeps (int_array_loop num msg line style flags n e a)"
    by (induction n arbitrary: e a) (simp_all add: keeps_intros)
  show "keeps (within_array_loop delta num msg line style flags n e a)"
    by (induction n arbitrary: e a) (simp, intro keeps_intros, unfold within_array_loop.simps,
        intro keeps_bind keeps_flag(2) keeps_basic, simp_all add: keeps_intros)
  show "keeps (string_array_loop num msg line flags n se sa)"
  proof (induction n)
    case (Suc n)
    then show ?case
      unfolding string_array_loop.simps Let_def [of "unat num - Suc n"]
      by (intro keeps_bind keeps_flag(1) keeps_basic keeps_strings_differ keeps_fail_with)
        (simp_all add: keeps_intros del: do_all.simps)
  qed (simp add: keeps_intros)
  show "keeps (memory_loop len num msg line flags x n e a)"
  proof (induction n arbitrary: e a)
    case (Suc n)
    then show ?case
      unfolding memory_loop.simps
      by (intro keeps_bind keeps_basic)
        (auto simp: keeps_intros split: prod.splits option.splits simp del: do_all.simps intro!: keeps_intros)
  qed (simp add: keeps_intros)
qed

lemma keeps_assertions [keeps_intros]:
  "keeps (UnityAssertEqualIntArray p q num msg line style flags)"
  "keeps (UnityAssertNumbersArrayWithin delta p q num msg line style flags)"
  "keeps (UnityAssertEqualMemory p q len num msg line flags)"
  "keeps (UnityAssertEqualStringArray sp sq num msg line flags)"
  "keeps (UnityAssertEqualString e a msg line)"
  "keeps (UnityAssertEqualStringLen e a len msg line)"
proof -
  show "keeps (UnityAssertEqualIntArray p q num msg line style flags)"
    "keeps (UnityAssertNumbersArrayWithin delta p q num msg line style flags)"
    "keeps (UnityAssertEqualMemory p q len num msg line flags)"
    "keeps (UnityAssertEqualStringArray sp sq num msg line flags)"
    unfolding UnityAssertEqualIntArray_def UnityAssertNumbersArrayWithin_def UnityAssertEqualMemory_def
      UnityAssertEqualStringArray_def
    by (intro keeps_intros)+
  show "keeps (UnityAssertEqualString e a msg line)"
    unfolding UnityAssertEqualString_def
    by (intro keeps_guard keeps_bind keeps_strings_differ keeps_flag(1) keeps_Returned) (simp add: keeps_intros)
  show "keeps (UnityAssertEqualStringLen e a len msg line)"
    unfolding UnityAssertEqualStringLen_def
    by (intro keeps_guard keeps_bind keeps_flag(1) keeps_Returned)
      (auto simp: keeps_intros split: option.splits)
qed

lemma keeps_ends [keeps_intros]:
  "keeps (UnityFail msg line)" "keeps (UnityIgnore msg line)" "keeps (UnityMessage msg line)"
proof -
  show "keeps (UnityFail msg line)"
    unfolding UnityFail_def
    by (rule keeps_guard, rule keeps_state) (auto simp: keeps_intros split: option.splits simp del: do_all.simps intro!: keeps_intros)
  show "keeps (UnityIgnore msg line)"
    unfolding UnityIgnore_def
    by (rule keeps_guard, rule keeps_state) (simp add: keeps_intros del: do_all.simps)
  show "keeps (UnityMessage msg line)"
    unfolding UnityMessage_def
    by (rule keeps_state) (simp add: keeps_intros del: do_all.simps)
qed

end
