(* ===== verification/Unity_Suite.thy ===== *)
theory Unity_Suite
  imports Unity_Run
begin

text \<open>
  Suites of tests. The invariant of the counters holds between the tests of any run, over
  tests built from the functions of the framework; a suite refines the tally of the
  verdicts of its tests.
\<close>

section \<open>Tests and runs\<close>

text \<open>The code of tests: calls of the framework, one after the other.\<close>

inductive test_code :: "(flow, unity) prog \<Rightarrow> bool" where
  empty: "test_code (ret Returned)"
| bits: "test_code (UnityAssertBits m e a msg line)"
| equal_number: "test_code (UnityAssertEqualNumber e a msg line style)"
| comparison: "test_code (UnityAssertGreaterOrLessOrEqualNumber th a compare msg line style)"
| within: "test_code (UnityAssertNumbersWithin delta e a msg line style)"
| int_array: "test_code (UnityAssertEqualIntArray p q num msg line style flags)"
| within_array: "test_code (UnityAssertNumbersArrayWithin delta p q num msg line style flags)"
| memory: "test_code (UnityAssertEqualMemory p q len num msg line flags)"
| string: "test_code (UnityAssertEqualString s t msg line)"
| string_len: "test_code (UnityAssertEqualStringLen s t len msg line)"
| string_array: "test_code (UnityAssertEqualStringArray sp sq num msg line flags)"
| fail: "test_code (UnityFail msg line)"
| ignore: "test_code (UnityIgnore msg line)"
| message: "test_code (bind (UnityMessage msg line) (\<lambda>_. ret Returned))"
| seq: "test_code p \<Longrightarrow> test_code q \<Longrightarrow> test_code (and_then p q)"

lemma test_code_keeps: "test_code p \<Longrightarrow> keeps p"
proof (induction rule: test_code.induct)
  case (seq p q)
  then show ?case
    unfolding and_then_def by (intro keeps_bind) (auto simp: keeps_intros split: flow.splits)
qed (simp_all add: keeps_intros)

text \<open>
  The states between the tests of a run: after \<^verbatim>\<open>UnityBegin\<close>, after a test, after a change of
  the file name. The number counts the tests.
\<close>

inductive between :: "nat \<Rightarrow> unity \<Rightarrow> bool" where
  start: "UnityBegin filename u = Ret ((), u') \<Longrightarrow> between 0 u'"
| run: "between n u \<Longrightarrow> test_code setUp \<Longrightarrow> test_code tearDown \<Longrightarrow> test_code test \<Longrightarrow>
    UnityDefaultTestRun setUp tearDown test name line u = Ret ((), u') \<Longrightarrow> between (Suc n) u'"
| set_file: "between n u \<Longrightarrow> UnitySetTestFile filename u = Ret ((), u') \<Longrightarrow> between n u'"

inductive_cases betweenE: "between n u"

lemma conclude_run:
  "CurrentTestIgnored u \<noteq> 0 \<Longrightarrow> UnityConcludeTest u =
     Ret ((), emit [10] (u\<lparr>TestIgnores := TestIgnores u + 1, CurrentTestFailed := 0, CurrentTestIgnored := 0\<rparr>))"
  "CurrentTestIgnored u = 0 \<Longrightarrow> CurrentTestFailed u \<noteq> 0 \<Longrightarrow> UnityConcludeTest u =
     Ret ((), emit [10] (u\<lparr>TestFailures := TestFailures u + 1, CurrentTestFailed := 0, CurrentTestIgnored := 0\<rparr>))"
  by (simp_all add: UnityConcludeTest_def unity_simps)

lemma conclude_pass:
  assumes "fresh u" and "UnityConcludeTest u = Ret ((), u')"
  shows "fresh u' \<and> counters u' = counters u"
proof -
  let ?p = "do_all [UnityTestResultsBegin (TestFile u) (CurrentTestLineNumber u), UnityPrint UnityStrPass]"
  have "bind_o (?p u) (\<lambda>(_, u). put_char 10 (u\<lparr>CurrentTestFailed := 0, CurrentTestIgnored := 0\<rparr>)) = Ret ((), u')"
    using assms by (simp add: UnityConcludeTest_def fresh_def del: do_all.simps)
  then obtain v where v: "?p u = Ret ((), v)" and u': "u' = emit [10] (v\<lparr>CurrentTestFailed := 0, CurrentTestIgnored := 0\<rparr>)"
    by (auto simp: bind_o_eq_Ret put_char_run simp del: do_all.simps)
  have "keeps ?p" by (intro keeps_intros) (simp add: keeps_intros)
  then have "counters v = counters u" using v by (rule keepsD)
  then show ?thesis by (simp add: u' fresh_def)
qed

text \<open>A test adds at most one to one of the counters of failures and ignored tests.\<close>

definition one_more :: "u64 \<times> u64 \<times> u64 \<Rightarrow> u64 \<times> u64 \<times> u64 \<Rightarrow> bool" where
  "one_more c d \<longleftrightarrow> (case c of (n, f, i) \<Rightarrow> d = (n, f, i) \<or> d = (n, f + 1, i) \<or> d = (n, f, i + 1))"

lemma conclude_counts: "UnityConcludeTest u = Ret ((), u') \<Longrightarrow> fresh u' \<and> one_more (counters u) (counters u')"
proof -
  assume u': "UnityConcludeTest u = Ret ((), u')"
  consider "CurrentTestIgnored u \<noteq> 0" | "CurrentTestIgnored u = 0" "CurrentTestFailed u \<noteq> 0" | "fresh u"
    unfolding fresh_def by blast
  then show ?thesis
  proof cases
    case 1
    have eq: "u' = emit [10] (u\<lparr>TestIgnores := TestIgnores u + 1, CurrentTestFailed := 0, CurrentTestIgnored := 0\<rparr>)"
      using u' conclude_run(1) [OF 1] by (simp only: outcome.inject prod.inject)
    show ?thesis unfolding eq by (simp add: one_more_def counters_def fresh_def)
  next
    case 2
    have eq: "u' = emit [10] (u\<lparr>TestFailures := TestFailures u + 1, CurrentTestFailed := 0, CurrentTestIgnored := 0\<rparr>)"
      using u' conclude_run(2) [OF 2] by (simp only: outcome.inject prod.inject)
    show ?thesis unfolding eq by (simp add: one_more_def counters_def fresh_def)
  next
    case 3
    then show ?thesis using conclude_pass [OF 3 u'] by (simp add: one_more_def counters_def)
  qed
qed

lemma run_counts:
  assumes "keeps setUp" "keeps tearDown" "keeps test" and "UnityDefaultTestRun setUp tearDown test name line u = Ret ((), u')"
  shows "fresh u' \<and> one_more (NumberOfTests u + 1, TestFailures u, TestIgnores u) (counters u')"
proof -
  let ?start = "u\<lparr>CurrentTestName := name, CurrentTestLineNumber := scast line,
          NumberOfTests := NumberOfTests u + 1, CurrentDetail1 := None, CurrentDetail2 := None\<rparr>"
  have body: "keeps (and_then setUp test)"
    unfolding and_then_def using assms(1,3) by (intro keeps_bind) (auto simp: keeps_intros split: flow.splits)
  obtain f v g w where runs: "and_then setUp test ?start = Ret (f, v)" "tearDown v = Ret (g, w)" "UnityConcludeTest w = Ret ((), u')"
    using assms(4) by (auto simp: UnityDefaultTestRun_def prog_simps bind_o_eq_Ret)
  have "counters w = counters ?start" using keepsD [OF body runs(1)] keepsD [OF assms(2) runs(2)] by simp
  moreover have "counters ?start = (NumberOfTests u + 1, TestFailures u, TestIgnores u)" by (simp add: counters_def)
  ultimately show ?thesis using conclude_counts [OF runs(3)] by (simp only:)
qed

lemma unat_Suc: "unat x < 18446744073709551615 \<Longrightarrow> unat (x + 1) = Suc (unat x)" for x :: u64
  by (simp add: unat_word_ariths)

section \<open>Suites\<close>

text \<open>The verdict of a test, and the mark it leaves.\<close>

datatype verdict = Passes | Fails | Ignored

fun marked :: "verdict \<Rightarrow> unity \<Rightarrow> unity" where
  "marked Passes u = u"
| "marked Fails u = u\<lparr>CurrentTestFailed := 1\<rparr>"
| "marked Ignored u = u\<lparr>CurrentTestIgnored := 1\<rparr>"

definition gives :: "(flow, unity) prog \<Rightarrow> verdict \<Rightarrow> bool" where
  "gives p v \<longleftrightarrow> (\<forall>u. fresh u \<longrightarrow> ready u \<longrightarrow> (\<exists>f t. p u = Ret (f, marked v (emit t u))))"

lemma gives_assertion:
  assumes "assertion check ok bad"
  shows "ok \<Longrightarrow> gives check Passes" and "bad \<Longrightarrow> gives check Fails"
proof -
  show "gives check Passes" if ok
    unfolding gives_def using assertion.pass [OF assms _ that] by (metis emit_Nil marked.simps(1))
  show "gives check Fails" if bad
    unfolding gives_def using assertion.fail [OF assms _ _ that] by (metis marked.simps(2))
qed

lemma printable_nonempty: "printable (Some s) \<Longrightarrow> s \<noteq> []"
  by (auto simp: printable_def render.simps)

lemma gives_ends: "printable msg \<Longrightarrow> gives (UnityFail msg line) Fails" "printable msg \<Longrightarrow> gives (UnityIgnore msg line) Ignored"
proof -
  assume msg: "printable msg"
  show "gives (UnityIgnore msg line) Ignored"
    unfolding gives_def
  proof (intro allI impI)
    fix u assume u: "fresh u" "ready u"
    let ?ps = "[UnityTestResultsBegin (TestFile u) line, UnityPrint UnityStrIgnore,
          if msg \<noteq> None then do_all [put_char 58, put_char 32, UnityPrint msg] else ret ()]"
    have "list_all writes ?ps" using u(2) msg by (simp add: writes_intros ready_def del: do_all.simps)
    then obtain t where "do_all ?ps u = Ret ((), emit t u)" using do_all_writes [OF u(2)] by blast
    then show "\<exists>f t. UnityIgnore msg line u = Ret (f, marked Ignored (emit t u))"
      using u(1) by (auto simp: UnityIgnore_def RETURN_IF_FAIL_OR_IGNORE_def fresh_def prog_simps UNITY_IGNORE_AND_BAIL_def
          simp del: do_all.simps)
  qed
  show "gives (UnityFail msg line) Fails"
    unfolding gives_def
  proof (intro allI impI)
    fix u assume u: "fresh u" "ready u"
    let ?m = "case msg of
          None \<Rightarrow> ret ()
        | Some s \<Rightarrow>
            do_all [put_char 58, print_details,
              bind (lift (array_read s 0)) (\<lambda>c. if c \<noteq> 32 then put_char 32 else ret ()),
              UnityPrint msg]"
    have "writes ?m"
    proof (cases msg)
      case (Some s)
      have "bind (lift (array_read s 0)) (\<lambda>c. if c \<noteq> 32 then put_char 32 else ret ()) =
          (if s ! 0 \<noteq> 32 then put_char 32 else ret ())"
        using printable_nonempty msg Some by (auto simp: fun_eq_iff prog_simps)
      then show ?thesis using msg Some by (simp add: writes_intros del: do_all.simps)
    qed (simp add: writes_intros)
    then have "list_all writes [UnityTestResultsBegin (TestFile u) line, UnityPrint UnityStrFail, ?m]"
      using u(2) by (simp add: writes_intros ready_def del: do_all.simps)
    then obtain t where "fail_with [UnityTestResultsBegin (TestFile u) line, UnityPrint UnityStrFail, ?m] u =
        Ret (Aborted, (emit t u)\<lparr>CurrentTestFailed := 1\<rparr>)"
      using fail_with_run [OF _ u(2)] by blast
    then have "UnityFail msg line u = Ret (Aborted, (emit t u)\<lparr>CurrentTestFailed := 1\<rparr>)"
      using u(1) by (simp only: UnityFail_def RETURN_IF_FAIL_OR_IGNORE_def fresh_def simp_thms if_False)
    then show "\<exists>f t. UnityFail msg line u = Ret (f, marked Fails (emit t u))" by (metis marked.simps(2))
  qed
qed

text \<open>The tally of the verdicts: tests, failures, ignored tests.\<close>

fun tally :: "verdict \<Rightarrow> u64 \<times> u64 \<times> u64 \<Rightarrow> u64 \<times> u64 \<times> u64" where
  "tally Passes (n, f, i) = (n + 1, f, i)"
| "tally Fails (n, f, i) = (n + 1, f + 1, i)"
| "tally Ignored (n, f, i) = (n + 1, f, i + 1)"

lemma tally_all: "fold tally vs (n, f, i) =
    (n + of_nat (length vs), f + of_nat (count_list vs Fails), i + of_nat (count_list vs Ignored))"
proof (induction vs arbitrary: n f i)
  case (Cons v vs)
  then show ?case by (cases v) (simp_all add: algebra_simps)
qed simp

lemma run_tallies:
  assumes "gives test v" and "fresh u" and "ready u" and "printable name"
  shows "\<exists>u'. UnityDefaultTestRun (ret Returned) (ret Returned) test name line u = Ret ((), u') \<and>
    fresh u' \<and> ready u' \<and> counters u' = tally v (counters u)"
proof -
  let ?start = "u\<lparr>CurrentTestName := name, CurrentTestLineNumber := scast line,
          NumberOfTests := NumberOfTests u + 1, CurrentDetail1 := None, CurrentDetail2 := None\<rparr>"
  have start: "fresh ?start" "ready ?start" "counters ?start = (NumberOfTests u + 1, TestFailures u, TestIgnores u)"
    using assms(2-4) by (simp_all add: fresh_def ready_def counters_def)
  then obtain f t where "test ?start = Ret (f, marked v (emit t ?start))" using assms(1) by (auto simp: gives_def)
  then have run: "UnityDefaultTestRun (ret Returned) (ret Returned) test name line u = UnityConcludeTest (marked v (emit t ?start))"
    by (simp add: UnityDefaultTestRun_def and_then_def prog_simps)
  define s where "s = emit t ?start"
  have s: "fresh s" "ready s" "counters s = (NumberOfTests u + 1, TestFailures u, TestIgnores u)"
    using start by (simp_all only: s_def fresh_emit ready_emit counters_emit)
  show ?thesis
  proof (cases v)
    case Passes
    obtain w where "do_all [UnityTestResultsBegin (TestFile s) (CurrentTestLineNumber s), UnityPrint UnityStrPass] s = Ret ((), emit w s)"
      using do_all_writes [OF s(2), of "[UnityTestResultsBegin (TestFile s) (CurrentTestLineNumber s), UnityPrint UnityStrPass]"] s(2)
      by (auto simp: writes_intros ready_def simp del: do_all.simps)
    then have "UnityConcludeTest s = Ret ((), emit [10] ((emit w s)\<lparr>CurrentTestFailed := 0, CurrentTestIgnored := 0\<rparr>))"
      using s(1) by (simp add: UnityConcludeTest_def fresh_def put_char_run del: do_all.simps)
    then show ?thesis
      using s Passes unfolding run s_def [symmetric] by (simp add: fresh_def counters_def)
  next
    case Fails
    then show ?thesis
      using s conclude_run(2) [of "s\<lparr>CurrentTestFailed := 1\<rparr>"] unfolding run s_def [symmetric] by (simp add: fresh_def counters_def ready_def)
  next
    case Ignored
    then show ?thesis
      using s conclude_run(1) [of "s\<lparr>CurrentTestIgnored := 1\<rparr>"] unfolding run s_def [symmetric] by (simp add: fresh_def counters_def ready_def)
  qed
qed

text \<open>
  A suite as the client's \<^verbatim>\<open>main\<close> runs it, with empty \<^verbatim>\<open>setUp\<close> and \<^verbatim>\<open>tearDown\<close>: \<^verbatim>\<open>UNITY_BEGIN\<close>,
  \<^verbatim>\<open>RUN_TEST\<close> for each test, and the result of \<^verbatim>\<open>UNITY_END\<close>.
\<close>

fun run_tests :: "((flow, unity) prog \<times> cstring \<times> u32) list \<Rightarrow> (unit, unity) prog" where
  "run_tests [] = ret ()"
| "run_tests ((test, name, line) # ts) =
     bind (UnityDefaultTestRun (ret Returned) (ret Returned) test name line) (\<lambda>_. run_tests ts)"

definition run_suite :: "cstring \<Rightarrow> ((flow, unity) prog \<times> cstring \<times> u32) list \<Rightarrow> (int, unity) prog" where
  "run_suite filename tests = bind (UnityBegin filename) (\<lambda>_. bind (run_tests tests) (\<lambda>_. UnityEnd))"

definition give_all :: "((flow, unity) prog \<times> cstring \<times> u32) list \<Rightarrow> verdict list \<Rightarrow> bool" where
  "give_all = list_all2 (\<lambda>(test, name, line) v. gives test v \<and> printable name)"

lemma run_tests_tally:
  "give_all tests vs \<Longrightarrow> fresh u \<Longrightarrow> ready u \<Longrightarrow>
   \<exists>u'. run_tests tests u = Ret ((), u') \<and> counters u' = fold tally vs (counters u)"
proof (induction tests vs arbitrary: u rule: list_induct2')
  case (4 x xs v vs)
  obtain test name line where x: "x = (test, name, line)" by (cases x)
  then have gives: "gives test v" "printable name" "give_all xs vs" using "4.prems"(1) by (simp_all add: give_all_def)
  obtain u1 where u1: "UnityDefaultTestRun (ret Returned) (ret Returned) test name line u = Ret ((), u1)"
    "fresh u1" "ready u1" "counters u1 = tally v (counters u)"
    using run_tallies [OF gives(1) "4.prems"(2,3) gives(2)] by blast
  then show ?case using "4.IH" [OF gives(3) u1(2,3)] x by (auto simp: prog_simps)
qed (auto simp: give_all_def prog_simps)

definition summary :: "unity \<Rightarrow> byte list" where
  "summary u =
     [10] @ text_of UnityStrBreaker @ [10] @
     signed_decimal (sint (NumberOfTests u)) @ text_of UnityStrResultsTests @
     signed_decimal (sint (TestFailures u)) @ text_of UnityStrResultsFailures @
     signed_decimal (sint (TestIgnores u)) @ text_of UnityStrResultsIgnored @ [10]"

lemma UnityEnd_run:
  "UnityEnd u = Ret (sint (ucast (TestFailures u) :: u32),
     emit (summary u @ text_of (if TestFailures u = 0 then UnityStrOk else UnityStrFail) @ [10]) u)"
  by (cases "TestFailures u = 0") (simp_all add: UnityEnd_def summary_def prog_simps unity_simps)

section \<open>Properties\<close>

text \<open>
  C15: Between the tests of a run no test is marked as failed or ignored, the number of
  tests is exact, and failures and ignored tests together are at most that many:
  whatever assertions the tests make, also where an assertion leaves \<^verbatim>\<open>setUp\<close>,
  the test or \<^verbatim>\<open>tearDown\<close>.
\<close>

theorem run_invariant:
  assumes "between n u" and "n < 18446744073709551616"
  shows "fresh u \<and> unat (NumberOfTests u) = n \<and> unat (TestFailures u) + unat (TestIgnores u) \<le> n"
  using assms
proof (induction rule: between.induct)
  case (start filename u u')
  then show ?case by (auto simp: UnityBegin_def fresh_def)
next
  case (run n u setUp tearDown test name line u')
  then have IH: "unat (NumberOfTests u) = n" "unat (TestFailures u) + unat (TestIgnores u) \<le> n" by simp_all
  have small: "unat (NumberOfTests u) < 18446744073709551615" "unat (TestFailures u) < 18446744073709551615"
    "unat (TestIgnores u) < 18446744073709551615" using IH run.prems by linarith+
  have "fresh u'" and more: "one_more (NumberOfTests u + 1, TestFailures u, TestIgnores u) (counters u')"
    using run_counts [OF test_code_keeps [OF run.hyps(2)] test_code_keeps [OF run.hyps(3)]
        test_code_keeps [OF run.hyps(4)] run.hyps(5)] by simp_all
  from more consider "counters u' = (NumberOfTests u + 1, TestFailures u, TestIgnores u)"
    | "counters u' = (NumberOfTests u + 1, TestFailures u + 1, TestIgnores u)"
    | "counters u' = (NumberOfTests u + 1, TestFailures u, TestIgnores u + 1)"
    unfolding one_more_def case_prod_conv by blast
  then show ?case
    using \<open>fresh u'\<close> IH unat_Suc [OF small(1)] unat_Suc [OF small(2)] unat_Suc [OF small(3)]
    unfolding counters_def prod.inject by cases simp_all
next
  case (set_file n u filename u')
  then show ?case by (auto simp: UnitySetTestFile_def fresh_def)
qed

theorem run_invariant_witness:
  "\<exists>u. between 1 u \<and> fresh u \<and> unat (NumberOfTests u) = 1 \<and> unat (TestFailures u) + unat (TestIgnores u) \<le> 1"
proof -
  obtain u where u: "UnityBegin (literal ''test_client.c'') Unity = Ret ((), u)" "fresh u" "ready u"
    by (simp add: UnityBegin_def fresh_def ready_def printable_literal)
  obtain u' where u': "UnityDefaultTestRun (ret Returned) (ret Returned) (UnityFail None 9) None 8 u = Ret ((), u')"
    using run_tallies [OF gives_ends(1) u(2,3)] printable_None by blast
  have "between 1 u'"
    using between.run [OF between.start [OF u(1)] test_code.empty test_code.empty test_code.fail u'] by simp
  then show ?thesis using run_invariant [of 1 u'] by auto
qed

text \<open>
  C12: A suite refines the tally of the verdicts of its tests. When each test, from a
  state without a mark, passes, fails or is ignored as listed, the suite returns the
  number of failures, the counters are those of the list, and the summary it ends
  with says \<^verbatim>\<open>OK\<close> exactly when there is no failure.
\<close>

theorem suite_refines_tally:
  assumes "give_all tests vs" and "printable filename" and "length tests < 2147483648"
  shows "\<exists>u' t. run_suite filename tests u = Ret (int (count_list vs Fails), u') \<and>
    unat (NumberOfTests u') = length tests \<and> unat (TestFailures u') = count_list vs Fails \<and>
    unat (TestIgnores u') = count_list vs Ignored \<and>
    stdout u' = t @ text_of (if Fails \<in> set vs then UnityStrFail else UnityStrOk) @ [10]"
proof -
  obtain u0 where u0: "UnityBegin filename u = Ret ((), u0)" "fresh u0" "ready u0" "counters u0 = (0, 0, 0)"
    using assms(2) by (simp add: UnityBegin_def fresh_def ready_def counters_def)
  then obtain u1 where u1: "run_tests tests u0 = Ret ((), u1)" "counters u1 = fold tally vs (0, 0, 0)"
    using run_tests_tally [OF assms(1)] by metis
  have len: "length vs = length tests" using assms(1) by (metis give_all_def list_all2_lengthD)
  have small: "count_list vs x < 2147483648" for x
    using assms(3) len count_le_length [of vs x] by simp
  have c: "NumberOfTests u1 = of_nat (length tests)" "TestFailures u1 = of_nat (count_list vs Fails)"
      "TestIgnores u1 = of_nat (count_list vs Ignored)"
    using u1(2) len by (simp_all add: tally_all counters_def)
  have unats: "unat (NumberOfTests u1) = length tests" "unat (TestFailures u1) = count_list vs Fails"
      "unat (TestIgnores u1) = count_list vs Ignored"
    using small [of Fails] small [of Ignored] assms(3) unfolding c by (simp_all add: unat_of_nat)
  have "sint (ucast (TestFailures u1) :: u32) = int (count_list vs Fails)"
  proof -
    have "(ucast (TestFailures u1) :: u32) = of_nat (count_list vs Fails)"
      using small [of Fails] by (simp add: word_unat_eq_iff unsigned_ucast_eq unats(2) take_bit_eq_mod unat_of_nat)
    then show ?thesis using small [of Fails] by (simp only: sint_of_nat_u32)
  qed
  moreover have "TestFailures u1 = 0 \<longleftrightarrow> Fails \<notin> set vs"
    using unats(2) by (metis count_list_0_iff unat_0_iff)
  ultimately have "run_suite filename tests u = Ret (int (count_list vs Fails),
      emit (summary u1 @ text_of (if Fails \<in> set vs then UnityStrFail else UnityStrOk) @ [10]) u1)"
    using u0(1) u1(1) UnityEnd_run [of u1] by (simp add: run_suite_def prog_simps)
  then show ?thesis using unats by (metis append.assoc emit_fields(6-8,11))
qed

theorem suite_refines_tally_witness:
  "\<exists>u'. run_suite (literal ''test_client.c'')
     [(UnityAssertEqualNumber 1 1 None 5 UNITY_DISPLAY_STYLE_INT, literal ''test_a'', 4),
      (UnityFail None 9, literal ''test_b'', 8), (UnityIgnore None 13, literal ''test_c'', 12)] Unity = Ret (1, u') \<and>
     unat (NumberOfTests u') = 3 \<and> unat (TestIgnores u') = 1"
proof -
  let ?tests = "[(UnityAssertEqualNumber 1 1 None 5 UNITY_DISPLAY_STYLE_INT, literal ''test_a'', 4),
      (UnityFail None 9, literal ''test_b'', 8), (UnityIgnore None 13, literal ''test_c'', 12)]"
  have "give_all ?tests [Passes, Fails, Ignored]"
    using gives_assertion(1) [OF equal_number.assertion_axioms, of 1 1 None 5 UNITY_DISPLAY_STYLE_INT] gives_ends [of None]
    by (simp add: give_all_def printable_literal)
  then show ?thesis
    using suite_refines_tally [of ?tests "[Passes, Fails, Ignored]" "literal ''test_client.c''" Unity]
    by (auto simp: printable_literal)
qed

end
