(* ===== verification/Spec2Isabelle.thy ===== *)
theory Spec2Isabelle
  imports Transaction_Props Config_Props Unity_Assert_Props Unity_Suite
begin

text \<open>
  \<^bold>\<open>Verification of the Computantis C client node\<close>, \<^verbatim>\<open>src/src_c/client-node\<close>.

  \<^bold>\<open>The program.\<close> The client holds an Ed25519 key pair (\<^verbatim>\<open>signer/\<close>), shows its public key as a
  wallet address (\<^verbatim>\<open>address/address.c\<close>, on top of the base58 codec \<^verbatim>\<open>address/base58.c\<close>), signs
  messages and verifies signatures (\<^verbatim>\<open>signer/\<close>, \<^verbatim>\<open>signature/\<close>), creates signed transactions
  (\<^verbatim>\<open>transaction/\<close>) and reads its configuration from a text file (\<^verbatim>\<open>config/\<close>). Its tests run on
  the Unity framework, a copy of which is part of the sources (\<^verbatim>\<open>test-framework/\<close>).

  \<^bold>\<open>How C is modelled.\<close> A C function is a HOL function that returns an \<open>outcome\<close>: a value,
  \<^verbatim>\<open>exit(1)\<close> with its message, the first undefined behaviour (null pointer, access outside
  an object, use or release of storage that is not allocated, indeterminate value, integer
  out of range), or \<open>Diverges\<close> where a loop never ends. Functions that work on a state are
  programs \<open>'s \<Rightarrow> ('a \<times> 's) outcome\<close>, composed by \<open>bind\<close>. Integers have their width
  (\<^verbatim>\<open>uint8_t\<close>, \<^verbatim>\<open>uint32_t\<close> and \<^verbatim>\<open>uint64_t\<close> are words); a \<^verbatim>\<open>size_t\<close> is a natural number with the
  reduction written out where an operation can leave its range. The target is the one the
  makefile builds for: 64-bit, little-endian, \<^verbatim>\<open>int\<close> of 32 bits, signed \<^verbatim>\<open>char\<close>.

  \<^bold>\<open>Theories, in the order of their imports.\<close>
  \<^item> \<open>C_Base\<close>: outcomes, arrays with checked access, NUL-terminated strings, \<^verbatim>\<open>strncpy\<close> and
    \<^verbatim>\<open>strncmp\<close>, the locale \<open>codec\<close> of encoders and decoders.
  \<^item> \<open>Radix\<close>: digit lists; the locale \<open>radix\<close>, interpreted for the bases 10, 16, 58, 256 and
    4294967296.
  \<^item> \<open>Base58\<close> (the code), \<open>Base58_Encoding\<close>, \<open>Base58_Decoding\<close> (the loops), \<open>Base58_Codec\<close>
    (properties): \<^verbatim>\<open>b58enc\<close> computes the reference text, \<^verbatim>\<open>b58tobin\<close> accepts exactly the texts
    that fit and inverts it, and the checksummed variants are inverse to each other.
  \<^item> \<open>C_Memory\<close>: blocks of storage with their allocator, indeterminate bytes, refused
    allocations; the locale \<open>destructor\<close> of the functions that release a struct.
  \<^item> \<open>OpenSSL_Env\<close>: the OpenSSL functions as a record of parameters, and predicates for
    what their documentation promises (digests of 32 bytes, the raw public key, a signature
    verifies with its key).
  \<^item> \<open>Address\<close>: \<^verbatim>\<open>encode_address_from_raw\<close> and \<^verbatim>\<open>decode_address_to_raw\<close>, on every branch, their
    round trip, and the wrong checksums that \<^verbatim>\<open>strncmp\<close> lets through.
  \<^item> \<open>Signature\<close>, \<open>Signer\<close>: release, verification, key generation, key files, raw keys and
    signing; a signature verifies on exactly the messages with the signed digest, and
    nothing leaks.
  \<^item> \<open>Transaction\<close>, \<open>Transaction_Props\<close>: \<^verbatim>\<open>Transaction_new\<close> phase by phase and
    \<^verbatim>\<open>Transaction_free\<close>; what a transaction holds, that all of it is given back, and where the
    copies by \<^verbatim>\<open>strncpy\<close> lose or overrun data.
  \<^item> \<open>Config_Url\<close>, \<open>Config\<close>, \<open>Config_Props\<close>: the regular expression of URLs by its set of
    remainders and by its language; the in-place reader with its line and name buffers; its
    refinement to the meaning of the file, and the lines that overrun the buffers.
  \<^item> \<open>Unity_Print\<close>, \<open>Unity_Text\<close>: the printers of the test framework and what they write.
  \<^item> \<open>Unity_Assert\<close>, \<open>Unity_Contract\<close>, \<open>Unity_Arrays\<close>, \<open>Unity_Strings\<close>, \<open>Unity_Assert_Props\<close>:
    the assertions. The locale \<open>assertion\<close> is their contract, interpreted for every one of
    them; the properties say what each decides and where reports or comparisons go wrong.
  \<^item> \<open>Unity_Run\<close>, \<open>Unity_Suite\<close>: the runner, the invariant of its counters over all runs, and
    the refinement of a suite to the tally of its verdicts.

  \<^item> This theory: the properties that span components. A signature verifies with the key
    recovered from the address of its signer, and a transaction verifies from its own fields
    exactly when its copies are exact.

  \<^bold>\<open>Hypotheses.\<close> The code of OpenSSL is not part of the sources. Its functions are arguments
  of the definitions, and a property that relies on them names the documented behaviour as
  a hypothesis; \<open>sample_openssl\<close> shows that the hypotheses can hold together. The other
  hypotheses are conditions on the state: arguments that are strings or buffers of the
  stated length, and allocations that succeed where the statement is about that case.

  \<^bold>\<open>Termination.\<close> No definition has fuel. Every loop is structural or has a termination
  proof, except the string comparison of the test framework, whose 32-bit index can wrap:
  it is a partial function, with one property that it returns below 4294967296 characters
  and one that it does not return above.

  \<^bold>\<open>Not modelled.\<close> Floating-point printing and comparison of the test framework, because
  the library has no floating-point numbers of C; its code that the makefile does not
  compile (formatted printing, command line options, output for other tools); the macros of
  \<^verbatim>\<open>unity.h\<close>, which call the modelled functions; \<^verbatim>\<open>wallet.c\<close>, which is empty; the text
  \<^verbatim>\<open>printf\<close> writes before \<^verbatim>\<open>exit(1)\<close>, of which only the format is kept; \<^verbatim>\<open>setjmp\<close> and \<^verbatim>\<open>longjmp\<close>
  themselves, whose effect is the result \<open>Aborted\<close> of an assertion. \<^verbatim>\<open>Transaction_get_data\<close>
  and \<^verbatim>\<open>Transaction_receiver_sign\<close> are declared in the sources and defined nowhere.
\<close>

section \<open>The client check\<close>

definition check_client :: "u32 \<Rightarrow> bool" where
  "check_client number \<longleftrightarrow> sint number > 0"

section \<open>From the signer to the verifier\<close>

text \<open>
  C2: A signature verifies with the key that is recovered from the address of its signer.
  The public key of a signer is encoded as an address, the address is decoded, and the raw
  key is turned into a key of the library; with this key \<^verbatim>\<open>Signature_verify\<close> accepts a signature
  of the signer on exactly the messages that have the digest of the signed one.
\<close>

theorem signature_verifies_by_address:
  fixes m :: "('k, 'z) node_state_scheme"
  assumes "wf_node m" and "\<forall>x. \<not> denied m x" and "sha256_digests ossl"
    and "pkeys m i = Some k" and "raw_public_is ossl k pub" and "signs_with ossl k sign"
    and "EVP_PKEY_new_raw_public_key ossl (Some pub) = Some v" and "verifies_with ossl v sign"
    and "message_at m msg n d" and "message_at m msg' n' d'"
  shows "\<exists>m'. bind (Signer_get_public_key ossl (Some \<lparr>evpkey = Ptr i 0\<rparr>)) (\<lambda>r.
      bind (field (rk_buffer r)) (\<lambda>b.
      bind (field (rk_len r)) (\<lambda>l.
      bind (encode_address_from_raw ossl ver b l) (\<lambda>address.
      bind (decode_address_to_raw ossl ver address Null) (\<lambda>(_, raw).
      bind (RawCryptoKey_get_evp_public_key ossl \<lparr>rk_buffer = Some raw, rk_len = Some 32\<rparr>) (\<lambda>pkey.
      bind (Signer_sign ossl (Some \<lparr>evpkey = Ptr i 0\<rparr>) msg n) (\<lambda>s.
      bind (Signature_verify ossl (Some s) pkey msg' n') (\<lambda>ok.
      bind (Signature_free (Some s)) (\<lambda>_. ret ok))))))))) m =
    Ret (SHA256 ossl d' = SHA256 ossl d, m')"
proof -
  let ?s = "address_text ossl ver pub" and ?k = "next_id m"
  define m1 where "m1 = with_block Malloc (map Some pub) m"
  define m2 where "m2 = with_block Malloc (address_cells ?s) m1"
  define m4 where "m4 = (with_block Malloc (map Some pub) m2)
    \<lparr>next_id := Suc (Suc (next_id m2)), pkeys := (pkeys m2)(Suc (next_id m2) \<mapsto> v)\<rparr>"
  have pub: "length pub = 32" "EVP_PKEY_get_raw_public_key ossl k None = Some ([], 32)"
    "EVP_PKEY_get_raw_public_key ossl k (Some 32) = Some (pub, 32)"
    using assms(5) by (simp_all add: raw_public_is_def)
  have wf: "wf_mem m" "wf_mem m1" "wf_mem m2"
    using wf_node_mem [OF assms(1)] by (simp_all add: m1_def m2_def)
  have get: "Signer_get_public_key ossl (Some \<lparr>evpkey = Ptr i 0\<rparr>) m =
      Ret (\<lparr>rk_buffer = Some (Ptr ?k 0), rk_len = Some 32\<rparr>, m1)"
    using get_raw_key_run [where get = "EVP_PKEY_get_raw_public_key ossl", OF assms(1,4) pub] assms(2)
    by (simp add: Signer_get_public_key_def m1_def)
  have enc: "encode_address_from_raw ossl ver (Ptr ?k 0) 32 m1 = Ret (Ptr (next_id m1) 0, m2)"
    unfolding m2_def
    by (rule encode_address_run) (use assms(2,3) pub(1) in \<open>simp_all add: m1_def bytes_at_block\<close>)
  have str: "string_at m2 (Ptr (next_id m1) 0) ?s"
    unfolding m2_def address_cells_def by (rule string_at_with_block) (rule address_text_no_nul)
  have dec: "decode_address_to_raw ossl ver (Ptr (next_id m1) 0) Null m2 =
      Ret ((37, Ptr (next_id m2) 0), with_block Malloc (map Some pub) m2)"
    using decode_address_run [OF assms(3) str, of ver Null] assms(2,3) wf pub(1)
    by (simp add: m2_def m1_def decode_address_text payload_fields payload_accepted reported_len_text)
  have evp: "RawCryptoKey_get_evp_public_key ossl \<lparr>rk_buffer = Some (Ptr (next_id m2) 0), rk_len = Some 32\<rparr>
      (with_block Malloc (map Some pub) m2) = Ret (Ptr (Suc (next_id m2)) 0, m4)"
    using raw_to_evp_run [where new = "EVP_PKEY_new_raw_public_key ossl", OF wf(3) pub(1) assms(7)] assms(2)
    by (simp add: RawCryptoKey_get_evp_public_key_def m4_def m2_def m1_def)
  have "wf_node m4"
    using assms(1) by (auto simp: m4_def m2_def m1_def wf_node_def wf_mem_def with_block_def)
  moreover have "same_old_blocks m m4"
    using assms(1) by (auto simp: m4_def m2_def m1_def same_old_blocks_def with_block_def wf_node_def wf_mem_def)
  moreover have "pkeys m4 i = Some k"
    using assms(1,4) wf_node_fresh(2) [OF assms(1), of "Suc (next_id m2)"]
    by (auto simp: m4_def m2_def m1_def with_block_def)
  moreover have "pkeys m4 (Suc (next_id m2)) = Some v" "\<forall>x. \<not> denied m4 x"
    using assms(2) by (simp_all add: m4_def m2_def m1_def)
  ultimately obtain used where
    "bind (Signer_sign ossl (Some \<lparr>evpkey = Ptr i 0\<rparr>) msg n) (\<lambda>s.
      bind (Signature_verify ossl (Some s) (Ptr (Suc (next_id m2)) 0) msg' n') (\<lambda>ok.
      bind (Signature_free (Some s)) (\<lambda>_. ret ok))) m4 = Ret (SHA256 ossl d' = SHA256 ossl d, m4\<lparr>next_id := used\<rparr>)"
    using sign_then_verify [of m4 ossl i k sign "Suc (next_id m2)" v msg n d msg' n' d'] assms(3,6,8-10)
      message_at_old [of m m4] by blast
  then show ?thesis by (simp add: prog_run field_run get enc dec evp)
qed

theorem signature_verifies_by_address_witness:
  "\<exists>m'. bind (Signer_get_public_key sample_openssl (Some \<lparr>evpkey = Ptr 3 0\<rparr>)) (\<lambda>r.
      bind (field (rk_buffer r)) (\<lambda>b.
      bind (field (rk_len r)) (\<lambda>l.
      bind (encode_address_from_raw sample_openssl 0 b l) (\<lambda>address.
      bind (decode_address_to_raw sample_openssl 0 address Null) (\<lambda>(_, raw).
      bind (RawCryptoKey_get_evp_public_key sample_openssl \<lparr>rk_buffer = Some raw, rk_len = Some 32\<rparr>) (\<lambda>pkey.
      bind (Signer_sign sample_openssl (Some \<lparr>evpkey = Ptr 3 0\<rparr>) (Ptr 2 0) 0) (\<lambda>s.
      bind (Signature_verify sample_openssl (Some s) pkey (Ptr 1 0) 32) (\<lambda>ok.
      bind (Signature_free (Some s)) (\<lambda>_. ret ok))))))))) sample_node = Ret (False, m')"
proof -
  have "message_at sample_node (Ptr 2 0) 0 [104, 105]" "message_at sample_node (Ptr 1 0) 32 (replicate 32 5)"
    using sample_node_string sample_node_bytes by (simp_all add: message_at_def)
  moreover have "(SHA256 sample_openssl (replicate 32 5) = SHA256 sample_openssl [104, 105]) = False"
    by (simp add: sample_digests)
  moreover have "EVP_PKEY_new_raw_public_key sample_openssl (Some sample_pub) = Some 9"
    by (simp add: sample_openssl_def)
  ultimately show ?thesis
    using signature_verifies_by_address [of sample_node sample_openssl 3 9 sample_pub sample_sign 9 "Ptr 2 0" 0 "[104, 105]"
        "Ptr 1 0" 32 "replicate 32 5" 0] sample_openssl_promises(2) [of 9] by simp
qed

text \<open>
  C3: A transaction can be checked from its own fields exactly when its copies are exact.
  \<^verbatim>\<open>Signature_verify\<close> on the hash and the issuer signature that \<^verbatim>\<open>Transaction_new\<close> stored, and on
  the bytes that were signed, accepts if and only if \<^verbatim>\<open>strncpy\<close> kept the whole digest and
  either kept the whole signature or the library accepts the shortened one.
\<close>

theorem transaction_verification:
  fixes m :: "('k, 'z) trx_state_scheme"
  assumes "trx_ready ossl m i pub sign subj sb dat db receiver rb" and "\<forall>x. \<not> denied m x"
    and "length rb \<le> 8 * length (issuer_text ossl pub)"
    and "pkeys m j = Some v" and "verifies_with ossl v sign"
    and "message_at m msg n (trx_message ossl now pub sb db rb)"
  shows "\<exists>p m' t q r m''. Transaction_new ossl now subj dat receiver (Some \<lparr>evpkey = Ptr i 0\<rparr>) m = Ret (p, m') \<and>
    trx_get p m' = Ret (t, m') \<and> issuer_signature t = Some q \<and> hash t = Some r \<and>
    Signature_verify ossl (Some \<lparr>digest_buffer = r, signature_buffer = q, digest_len = 32, signature_len = 64\<rparr>)
      (Ptr j 0) msg n m' =
    Ret (let h = trx_digest ossl now pub sb db rb; copy = strncpy_bytes (sign h) 64
         in strncpy_bytes h 32 = h \<and> (copy = sign h \<or> EVP_DigestVerify ossl v copy h = 1), m'')"
proof -
  let ?h = "trx_digest ossl now pub sb db rb" and ?k = "next_id m + 6"
  let ?s = "\<lparr>digest_buffer = Ptr (?k + 6) 0, signature_buffer = Ptr (?k + 5) 0, digest_len = 32, signature_len = 64\<rparr>"
  define m' where "m' = issued ossl now pub sign sb db rb m"
  have wf: "wf_node m" and "sha256_digests ossl" using assms(1) by (simp_all add: trx_ready_def wf_trx_def)
  then have h: "SHA256 ossl (trx_message ossl now pub sb db rb) = Some ?h" "length ?h = 32"
    using sha256_Some [of ossl "trx_message ossl now pub sb db rb"] by (auto simp: trx_digest_def)
  have "wf_node m'"
    using wf by (auto simp: m'_def issued_def trx_blocks_def wf_node_def wf_mem_def Let_def)
  moreover have "same_old_blocks m m'"
    using wf_node_fresh(1) [OF wf]
    by (auto simp: m'_def issued_def trx_blocks_def same_old_blocks_def Let_def)
  moreover have "strncpy_bytes (sign ?h) 64 \<noteq> []" by (simp flip: length_greater_0_conv)
  then have "Signature_holds m' ?s (strncpy_bytes ?h 32) (strncpy_bytes (sign ?h) 64)"
    by (auto simp: Signature_holds_def bytes_at_cells cells_at_def m'_def issued_def trx_blocks_def Let_def)
  moreover have "pkeys m' j = Some v" "\<forall>x. \<not> denied m' x"
    using assms(2,4) by (simp_all add: m'_def issued_def Let_def)
  moreover have "EVP_DigestVerifyInit ossl v" "EVP_DigestVerify ossl v (sign ?h) ?h = 1"
    using assms(5) by (simp_all add: verifies_with_def)
  ultimately have "\<exists>m''. Signature_verify ossl (Some ?s) (Ptr j 0) msg n m' =
      Ret (strncpy_bytes ?h 32 = ?h \<and>
        (strncpy_bytes (sign ?h) 64 = sign ?h \<or> EVP_DigestVerify ossl v (strncpy_bytes (sign ?h) 64) ?h = 1), m'')"
    using Signature_verify_run [of m' msg n _ ossl ?h ?s] message_at_old [OF _ assms(6), of m'] h by auto
  then show ?thesis
    using Transaction_new_ready [OF assms(1-3), of now]
    by (simp add: m'_def trx_get_def issued_def full_transaction_def Let_def)
qed

definition sample_signed_trx :: "nat trx_state" where
  "sample_signed_trx = sample_trx\<lparr>blocks := (blocks sample_trx)(0 \<mapsto> (Static, map Some
     (trx_message sample_openssl sample_time sample_pub [104, 105] [104, 105] [104, 105])))\<rparr>"

lemma sample_signed_trx_ready:
  "trx_ready sample_openssl sample_signed_trx 3 sample_pub sample_sign
     (Ptr 2 0) [104, 105] (Ptr 2 0) [104, 105] (Ptr 2 0) [104, 105]"
  using sample_trx_ready(1)
  by (auto simp: trx_ready_def trx_strings_def string_at_cells cells_at_def wf_trx_def wf_node_def wf_mem_def
      sample_signed_trx_def sample_trx_def)

theorem transaction_verification_witness:
  "\<exists>p m' t q r m''. Transaction_new sample_openssl sample_time (Ptr 2 0) (Ptr 2 0) (Ptr 2 0) (Some \<lparr>evpkey = Ptr 3 0\<rparr>)
      sample_signed_trx = Ret (p, m') \<and>
    trx_get p m' = Ret (t, m') \<and> issuer_signature t = Some q \<and> hash t = Some r \<and>
    Signature_verify sample_openssl (Some \<lparr>digest_buffer = r, signature_buffer = q, digest_len = 32, signature_len = 64\<rparr>)
      (Ptr 3 0) (Ptr 0 0) (length (trx_message sample_openssl sample_time sample_pub [104, 105] [104, 105] [104, 105])) m' =
    Ret (True, m'')"
proof -
  let ?d = "trx_message sample_openssl sample_time sample_pub [104, 105] [104, 105] [104, 105]"
  have "?d \<noteq> []" by (simp add: trx_message_def)
  then have "message_at sample_signed_trx (Ptr 0 0) (length ?d) ?d"
    by (simp add: message_at_def bytes_at_cells cells_at_def sample_signed_trx_def)
  moreover have h: "trx_digest sample_openssl sample_time sample_pub [104, 105] [104, 105] [104, 105] = replicate 32 105"
    by (simp add: trx_digest_def trx_message_def sample_digests)
  moreover have "strncpy_bytes (replicate n 105) n = replicate n 105" for n
    using strncpy_bytes_eq_iff [of n "replicate n (105 :: byte)"] by (auto simp: c_str_def takeWhile_eq_all_conv)
  moreover have "pkeys sample_signed_trx 3 = Some 9" "\<forall>x. \<not> denied sample_signed_trx x"
    by (simp_all add: sample_signed_trx_def sample_trx_def)
  ultimately show ?thesis
    using transaction_verification [OF sample_signed_trx_ready _ sample_trx_ready(3), of 3 9 "Ptr 0 0" "length ?d" sample_time]
    by simp
qed

end
